(* ===== verification/QF_Prelude.thy ===== *)
theory QF_Prelude
  imports Complex_Main
begin

text \<open>
  The base of the development: Go error values, the parts of Go's \<open>strings\<close>, \<open>sort\<close> and
  \<open>fmt\<close> packages that queryforge calls, and the lemmas about them that the component theories
  share.  Strings are Go strings, that is sequences of bytes (HOL's \<^typ>\<open>char\<close> is a byte);
  letter case and white space are those of ASCII, as in Go's byte-wise fast paths.
  \<open>float64\<close> is \<^typ>\<open>real\<close>: rounding, infinities and NaN are left out.
\<close>

named_theorems gostr \<open>facts about Go's string functions\<close>
named_theorems qf_defs \<open>small definitions that proofs unfold together\<close>

section \<open>Errors\<close>

text \<open>
  The sentinel errors of the program, and \<open>error\<close> values: the text that \<open>Error()\<close> returns and
  the sentinels in the chain that \<open>errors.Is\<close> walks.
\<close>

datatype sentinel =
    ErrNotReadOnly
  | ErrMultipleStatements
  | ErrNoHypotheticalIndexes
  | ErrNotFound
  | ErrAlreadyClaimed
  | ErrNoRows
  | ErrMiss
  | DeadlineExceeded

datatype go_error = GoError (err_text: string) (err_chain: "sentinel list")

type_synonym 'a result = "go_error + 'a"

definition new_error :: "string \<Rightarrow> go_error" where
  "new_error msg = GoError msg []"

definition errors_is :: "go_error \<Rightarrow> sentinel \<Rightarrow> bool" where
  "errors_is e s \<longleftrightarrow> s \<in> set (err_chain e)"

text \<open>\<open>fmt.Errorf\<close> with one \<open>%w\<close>: the text around it is added, the chain is kept.\<close>

definition wrap_error :: "string \<Rightarrow> go_error \<Rightarrow> string \<Rightarrow> go_error" where
  "wrap_error before e after = GoError (before @ err_text e @ after) (err_chain e)"

lemma errors_is_new [simp]: "\<not> errors_is (new_error msg) s"
  by (simp add: new_error_def errors_is_def)

lemma errors_is_wrap [simp]: "errors_is (wrap_error a e b) s = errors_is e s"
  by (simp add: wrap_error_def errors_is_def)

lemma errors_is_GoError [simp]: "errors_is (GoError msg ss) s = (s \<in> set ss)"
  by (simp add: errors_is_def)

definition is_ok :: "'a result \<Rightarrow> bool" where
  "is_ok r = (case r of Inl _ \<Rightarrow> False | Inr _ \<Rightarrow> True)"

lemma is_ok_simps [simp]: "is_ok (Inr x)" "\<not> is_ok (Inl e)"
  by (simp_all add: is_ok_def)

lemma is_ok_iff: "is_ok r \<longleftrightarrow> (\<exists>x. r = Inr x)"
  by (cases r) auto

section \<open>Letters and white space\<close>

definition char_code :: "char \<Rightarrow> nat" where
  "char_code c = of_char c"

definition lower_char :: "char \<Rightarrow> char" where
  "lower_char c = (if 65 \<le> char_code c \<and> char_code c \<le> 90 then char_of (char_code c + 32) else c)"

definition upper_char :: "char \<Rightarrow> char" where
  "upper_char c = (if 97 \<le> char_code c \<and> char_code c \<le> 122 then char_of (char_code c - 32) else c)"

definition is_space :: "char \<Rightarrow> bool" where
  "is_space c \<longleftrightarrow> (9 \<le> char_code c \<and> char_code c \<le> 13) \<or> char_code c = 32"

definition to_lower :: "string \<Rightarrow> string" where
  "to_lower s = map lower_char s"

definition to_upper :: "string \<Rightarrow> string" where
  "to_upper s = map upper_char s"

lemma char_code_of [simp]: "n < 256 \<Longrightarrow> char_code (char_of n) = n"
  by (simp add: char_code_def)

lemma char_code_less [simp]: "char_code c < 256"
  by (simp add: char_code_def nat_of_char_less_256)

lemma lower_char_idem [simp]: "lower_char (lower_char c) = lower_char c"
  by (simp add: lower_char_def)

lemma is_space_lower [simp]: "is_space (lower_char c) = is_space c"
  by (auto simp: is_space_def lower_char_def)

lemma to_lower_idem [simp, gostr]: "to_lower (to_lower s) = to_lower s"
  by (simp add: to_lower_def)

lemma length_to_lower [simp, gostr]: "length (to_lower s) = length s"
  by (simp add: to_lower_def)

lemma to_lower_append [simp, gostr]: "to_lower (s @ t) = to_lower s @ to_lower t"
  by (simp add: to_lower_def)

lemma to_lower_Nil [simp, gostr]: "to_lower [] = []" "to_lower s = [] \<longleftrightarrow> s = []"
  by (simp_all add: to_lower_def)

text \<open>\<open>strings.EqualFold\<close> on ASCII strings.\<close>

definition equal_fold :: "string \<Rightarrow> string \<Rightarrow> bool" where
  "equal_fold s t \<longleftrightarrow> to_lower s = to_lower t"

lemma equal_fold_refl [simp, gostr]: "equal_fold s s"
  by (simp add: equal_fold_def)

lemma equal_fold_sym: "equal_fold s t = equal_fold t s"
  by (auto simp: equal_fold_def)

lemma equal_fold_trans: "equal_fold s t \<Longrightarrow> equal_fold t u \<Longrightarrow> equal_fold s u"
  by (simp add: equal_fold_def)

lemma equal_fold_to_lower [simp, gostr]: "equal_fold (to_lower s) t = equal_fold s t"
  by (simp add: equal_fold_def)

section \<open>Trimming, fields, joining\<close>

definition trim_left :: "(char \<Rightarrow> bool) \<Rightarrow> string \<Rightarrow> string" where
  "trim_left p s = dropWhile p s"

definition trim_right :: "(char \<Rightarrow> bool) \<Rightarrow> string \<Rightarrow> string" where
  "trim_right p s = rev (dropWhile p (rev s))"

definition trim_func :: "(char \<Rightarrow> bool) \<Rightarrow> string \<Rightarrow> string" where
  "trim_func p s = trim_right p (trim_left p s)"

definition trim_space :: "string \<Rightarrow> string" where
  "trim_space s = trim_func is_space s"

text \<open>\<open>strings.Trim(s, cutset)\<close>.\<close>

definition trim_cutset :: "string \<Rightarrow> string \<Rightarrow> string" where
  "trim_cutset s cutset = trim_func (\<lambda>c. c \<in> set cutset) s"

lemma trim_right_Nil [simp]: "trim_right p [] = []"
  by (simp add: trim_right_def)

lemma hd_dropWhile_not: "dropWhile p s \<noteq> [] \<Longrightarrow> \<not> p (hd (dropWhile p s))"
  by (rule hd_dropWhile)

lemma trim_right_last: "trim_right p s \<noteq> [] \<Longrightarrow> \<not> p (last (trim_right p s))"
  by (simp add: trim_right_def last_rev hd_dropWhile)

lemma trim_right_prefix: "\<exists>t. s = trim_right p s @ t"
proof -
  have "rev s = takeWhile p (rev s) @ dropWhile p (rev s)"
    by simp
  then have "s = rev (dropWhile p (rev s)) @ rev (takeWhile p (rev s))"
    by (metis rev_append rev_rev_ident)
  then show ?thesis
    by (auto simp: trim_right_def)
qed

lemma trim_right_id: "s = [] \<or> \<not> p (last s) \<Longrightarrow> trim_right p s = s"
  by (cases s rule: rev_cases) (auto simp: trim_right_def)

lemma trim_left_id: "s = [] \<or> \<not> p (hd s) \<Longrightarrow> trim_left p s = s"
  by (cases s) (auto simp: trim_left_def)

lemma trim_func_hd: "trim_func p s \<noteq> [] \<Longrightarrow> \<not> p (hd (trim_func p s))"
proof -
  assume ne: "trim_func p s \<noteq> []"
  obtain t where t: "trim_left p s = trim_func p s @ t"
    using trim_right_prefix by (auto simp: trim_func_def)
  with ne have "hd (trim_func p s) = hd (trim_left p s)"
    by (metis hd_append2)
  moreover from t ne have "trim_left p s \<noteq> []"
    by simp
  ultimately show ?thesis
    by (metis hd_dropWhile trim_left_def)
qed

lemma trim_func_last: "trim_func p s \<noteq> [] \<Longrightarrow> \<not> p (last (trim_func p s))"
  by (simp add: trim_func_def trim_right_last)

lemma trim_func_idem [simp]: "trim_func p (trim_func p s) = trim_func p s"
proof -
  have "trim_left p (trim_func p s) = trim_func p s"
    using trim_func_hd by (intro trim_left_id) blast
  moreover have "trim_right p (trim_func p s) = trim_func p s"
    using trim_func_last by (intro trim_right_id) blast
  ultimately show ?thesis
    by (subst trim_func_def) simp
qed

lemma trim_space_idem [simp, gostr]: "trim_space (trim_space s) = trim_space s"
  by (simp add: trim_space_def)

text \<open>\<open>strings.Fields\<close>: the maximal runs of characters that are not white space.\<close>

function str_fields :: "string \<Rightarrow> string list" where
  "str_fields s =
     (let t = dropWhile is_space s in
      if t = [] then []
      else takeWhile (\<lambda>c. \<not> is_space c) t # str_fields (dropWhile (\<lambda>c. \<not> is_space c) t))"
  by pat_completeness auto
termination
proof (relation "measure length", simp, goal_cases)
  case (1 s t)
  then have ne: "dropWhile is_space s \<noteq> []"
    by simp
  then obtain c u where cu: "dropWhile is_space s = c # u"
    by (cases "dropWhile is_space s") auto
  then have "\<not> is_space c"
    by (metis hd_dropWhile list.distinct(1) list.sel(1))
  then have "length (dropWhile (\<lambda>c. \<not> is_space c) (c # u)) \<le> length u"
    by (simp add: length_dropWhile_le)
  moreover have "length (c # u) \<le> length s"
    by (metis cu length_dropWhile_le)
  ultimately have "length (dropWhile (\<lambda>c. \<not> is_space c) (c # u)) < length s"
    by simp
  then show ?case
    using 1 cu by simp
qed

declare str_fields.simps [simp del]

fun str_join :: "string list \<Rightarrow> string \<Rightarrow> string" where
  "str_join [] sep = []"
| "str_join [x] sep = x"
| "str_join (x # y # ys) sep = x @ sep @ str_join (y # ys) sep"

lemma str_fields_space: "is_space c \<Longrightarrow> str_fields (c # s) = str_fields s"
  by (simp add: str_fields.simps [of "c # s"] str_fields.simps [of s])

lemma str_fields_Nil [simp]: "str_fields [] = []"
  by (simp add: str_fields.simps)

lemma str_fields_all_space: "list_all is_space s \<Longrightarrow> str_fields s = []"
  by (induction s) (simp_all add: str_fields_space)

lemma str_fields_word:
  assumes "w \<noteq> []" and "list_all (\<lambda>c. \<not> is_space c) w"
    and "s = [] \<or> is_space (hd s)"
  shows "str_fields (w @ s) = w # str_fields s"
proof -
  have dw: "dropWhile is_space (w @ s) = w @ s"
    using assms(1,2) by (cases w) auto
  have tw: "takeWhile (\<lambda>c. \<not> is_space c) (w @ s) = w"
    using assms(2,3) by (cases s) (auto simp: list_all_iff takeWhile_append2)
  have dw2: "dropWhile (\<lambda>c. \<not> is_space c) (w @ s) = s"
    using assms(2,3) by (cases s) (auto simp: list_all_iff dropWhile_append2)
  show ?thesis
    using assms(1) by (subst str_fields.simps) (simp add: dw tw dw2)
qed

lemma str_fields_words:
  "w \<in> set (str_fields s) \<Longrightarrow> w \<noteq> [] \<and> list_all (\<lambda>c. \<not> is_space c) w"
proof (induction s rule: str_fields.induct)
  case (1 s)
  let ?t = "dropWhile is_space s"
  show ?case
  proof (cases "?t = []")
    case True
    with "1.prems" show ?thesis by (simp add: str_fields.simps [of s])
  next
    case False
    then have nsp: "\<not> is_space (hd ?t)" by (rule hd_dropWhile)
    have hdw: "takeWhile (\<lambda>c. \<not> is_space c) ?t \<noteq> []"
      using False nsp by (cases ?t) auto
    have allw: "list_all (\<lambda>c. \<not> is_space c) (takeWhile (\<lambda>c. \<not> is_space c) ?t)"
      by (auto simp: list_all_iff dest: set_takeWhileD)
    from False "1.prems" have
      "w = takeWhile (\<lambda>c. \<not> is_space c) ?t \<or>
       w \<in> set (str_fields (dropWhile (\<lambda>c. \<not> is_space c) ?t))"
      by (subst (asm) str_fields.simps) (simp add: Let_def del: dropWhile_eq_Nil_conv)
    then show ?thesis
    proof
      assume "w \<in> set (str_fields (dropWhile (\<lambda>c. \<not> is_space c) ?t))"
      then show ?thesis by (rule "1.IH" [OF refl False])
    qed (simp add: hdw allw)
  qed
qed

lemma str_fields_join:
  "(\<forall>w \<in> set ws. w \<noteq> [] \<and> list_all (\<lambda>c. \<not> is_space c) w) \<Longrightarrow> str_fields (str_join ws '' '') = ws"
proof (induction ws "'' ''" rule: str_join.induct)
  case 1
  then show ?case by simp
next
  case (2 x)
  then show ?case using str_fields_word [of x "[]"] by simp
next
  case (3 x y ys)
  have sp: "is_space (CHR '' '')" by (simp add: is_space_def char_code_def)
  have "str_fields (x @ CHR '' '' # str_join (y # ys) '' '')
      = x # str_fields (CHR '' '' # str_join (y # ys) '' '')"
    using 3 sp by (intro str_fields_word) auto
  then show ?case using 3 sp by (simp add: str_fields_space)
qed

lemma to_lower_join: "to_lower (str_join ws sep) = str_join (map to_lower ws) (to_lower sep)"
  by (induction ws sep rule: str_join.induct) simp_all

lemma to_lower_space [simp]: "to_lower '' '' = '' ''"
  by (simp add: to_lower_def lower_char_def char_code_def)

section \<open>Searching and replacing\<close>

definition has_prefix :: "string \<Rightarrow> string \<Rightarrow> bool" where
  "has_prefix s p \<longleftrightarrow> take (length p) s = p"

definition has_suffix :: "string \<Rightarrow> string \<Rightarrow> bool" where
  "has_suffix s p \<longleftrightarrow> length p \<le> length s \<and> drop (length s - length p) s = p"

lemma has_prefix_iff: "has_prefix s p \<longleftrightarrow> (\<exists>t. s = p @ t)"
  by (auto simp: has_prefix_def) (metis append_take_drop_id)

lemma has_prefix_append [simp, gostr]: "has_prefix (p @ t) p"
  by (simp add: has_prefix_def)

lemma has_prefix_Nil [simp, gostr]: "has_prefix s []"
  by (simp add: has_prefix_def)

lemma has_suffix_iff: "has_suffix s p \<longleftrightarrow> (\<exists>t. s = t @ p)"
  by (auto simp: has_suffix_def) (metis append_take_drop_id)

definition trim_prefix :: "string \<Rightarrow> string \<Rightarrow> string" where
  "trim_prefix s p = (if has_prefix s p then drop (length p) s else s)"

definition trim_suffix :: "string \<Rightarrow> string \<Rightarrow> string" where
  "trim_suffix s p = (if has_suffix s p then take (length s - length p) s else s)"

text \<open>\<open>strings.Index\<close>: the position of the first occurrence, \<open>None\<close> where Go returns \<open>-1\<close>.\<close>

fun str_index :: "string \<Rightarrow> string \<Rightarrow> nat option" where
  "str_index [] p = (if p = [] then Some 0 else None)"
| "str_index (c # cs) p =
     (if has_prefix (c # cs) p then Some 0 else map_option Suc (str_index cs p))"

definition str_contains :: "string \<Rightarrow> string \<Rightarrow> bool" where
  "str_contains s p \<longleftrightarrow> str_index s p \<noteq> None"

lemma str_index_Some: "str_index s p = Some i \<Longrightarrow> i + length p \<le> length s \<and> has_prefix (drop i s) p"
proof (induction s arbitrary: i)
  case Nil
  then show ?case by (auto split: if_splits)
next
  case (Cons c cs)
  then show ?case
    by (auto split: if_splits simp: has_prefix_def)
      (metis Suc_le_mono le_cases length_Cons length_take min.absorb2 take_all_iff)
qed

lemma str_index_None: "str_index s p = None \<Longrightarrow> \<not> has_prefix (drop i s) p"
proof (induction s arbitrary: i)
  case Nil
  then show ?case by (auto simp: has_prefix_def split: if_splits)
next
  case (Cons c cs)
  then show ?case by (cases i) (auto split: if_splits)
qed

lemma str_contains_iff: "str_contains s p \<longleftrightarrow> (\<exists>u v. s = u @ p @ v)"
proof
  assume "str_contains s p"
  then obtain i where "str_index s p = Some i" by (auto simp: str_contains_def)
  then have "has_prefix (drop i s) p" by (blast dest: str_index_Some)
  then obtain v where "drop i s = p @ v" by (auto simp: has_prefix_iff)
  then have "s = take i s @ p @ v" by (metis append_take_drop_id)
  then show "\<exists>u v. s = u @ p @ v" by blast
next
  assume "\<exists>u v. s = u @ p @ v"
  then obtain u v where "s = u @ p @ v" by blast
  then have "has_prefix (drop (length u) s) p" by simp
  then show "str_contains s p"
    unfolding str_contains_def using str_index_None by blast
qed

text \<open>\<open>strings.LastIndex\<close> of one byte, as the part of the string after it.\<close>

definition after_last :: "char \<Rightarrow> string \<Rightarrow> string" where
  "after_last c s = (if c \<in> set s then rev (takeWhile (\<lambda>d. d \<noteq> c) (rev s)) else s)"

text \<open>\<open>strings.ReplaceAll\<close> for a pattern that is not empty.\<close>

function replace_all :: "string \<Rightarrow> string \<Rightarrow> string \<Rightarrow> string" where
  "replace_all [] p r = []"
| "replace_all (c # cs) p r =
     (if p \<noteq> [] \<and> has_prefix (c # cs) p then r @ replace_all (drop (length p) (c # cs)) p r
      else c # replace_all cs p r)"
  by pat_completeness auto
termination
  by (relation "measure (\<lambda>(s, p, r). length s)") (auto simp: neq_Nil_conv)

section \<open>Times\<close>

text \<open>Times and durations are in nanoseconds.\<close>

definition second :: int where "second = 1000000000"

section \<open>Decimal output\<close>

text \<open>Go's integer division truncates towards zero.\<close>

definition go_quot :: "int \<Rightarrow> int \<Rightarrow> int" where
  "go_quot a b = sgn a * sgn b * (\<bar>a\<bar> div \<bar>b\<bar>)"

text \<open>\<open>int64\<close> arithmetic wraps.\<close>

definition wrap64 :: "int \<Rightarrow> int" where
  "wrap64 x = (x + 2 ^ 63) mod 2 ^ 64 - 2 ^ 63"

lemma wrap64_exact: "- (2 ^ 63) \<le> x \<Longrightarrow> x < 2 ^ 63 \<Longrightarrow> wrap64 x = x"
  by (simp add: wrap64_def mod_pos_pos_trivial)

lemma wrap64_over: "2 ^ 63 \<le> x \<Longrightarrow> x < 2 ^ 64 \<Longrightarrow> wrap64 x = x - 2 ^ 64"
proof -
  assume x: "2 ^ 63 \<le> x" "x < 2 ^ 64"
  have "(x + 2 ^ 63) mod 2 ^ 64 = (x + 2 ^ 63 - 2 ^ 64) mod 2 ^ 64" by (rule minus_mod_self2 [symmetric])
  also have "\<dots> = x + 2 ^ 63 - 2 ^ 64" by (rule mod_pos_pos_trivial) (use x in simp_all)
  finally show ?thesis by (simp add: wrap64_def)
qed

definition digit_char :: "nat \<Rightarrow> char" where
  "digit_char n = char_of (48 + n)"

fun show_nat :: "nat \<Rightarrow> string" where
  "show_nat n = (if n < 10 then [digit_char n] else show_nat (n div 10) @ [digit_char (n mod 10)])"

declare show_nat.simps [simp del]

definition show_int :: "int \<Rightarrow> string" where
  "show_int i = (if i < 0 then CHR ''-'' # show_nat (nat (- i)) else show_nat (nat i))"

definition show_bool :: "bool \<Rightarrow> string" where
  "show_bool b = (if b then ''true'' else ''false'')"

text \<open>\<open>%.<d>f\<close>: the nearest decimal with \<open>d\<close> places, ties to even.\<close>

definition round_half_even :: "real \<Rightarrow> int" where
  "round_half_even x =
     (let f = \<lfloor>x\<rfloor>; d = x - of_int f in
      if d < 1/2 then f else if d > 1/2 then f + 1 else if even f then f else f + 1)"

definition pad_zeros :: "nat \<Rightarrow> string \<Rightarrow> string" where
  "pad_zeros n s = replicate (n - length s) (CHR ''0'') @ s"

definition show_fixed :: "nat \<Rightarrow> real \<Rightarrow> string" where
  "show_fixed d x =
     (let n = nat (round_half_even (\<bar>x\<bar> * 10 ^ d)) in
      (if x < 0 then ''-'' else '''') @ show_nat (n div 10 ^ d) @
      (if d = 0 then '''' else CHR ''.'' # pad_zeros d (show_nat (n mod 10 ^ d))))"

text \<open>\<open>%q\<close> of a printable ASCII string.\<close>

definition go_quote :: "string \<Rightarrow> string" where
  "go_quote s = CHR 0x22 # concat (map (\<lambda>c. if c = CHR 0x22 \<or> c = CHR 0x5C then [CHR 0x5C, c] else [c]) s)
     @ [CHR 0x22]"

text \<open>The UTF-8 bytes of the arrow, the dash and the ellipsis in the program's messages.\<close>

definition utf8_arrow :: string where "utf8_arrow = [CHR 0xE2, CHR 0x86, CHR 0x92]"
definition utf8_dash :: string where "utf8_dash = [CHR 0xE2, CHR 0x80, CHR 0x94]"
definition utf8_ellipsis :: string where "utf8_ellipsis = [CHR 0xE2, CHR 0x80, CHR 0xA6]"

text \<open>
  A width in a format counts characters: the bytes of a valid text other than the continuation bytes.
\<close>

definition rune_count :: "string \<Rightarrow> nat" where
  "rune_count s = length (filter (\<lambda>c. \<not> (128 \<le> char_code c \<and> char_code c < 192)) s)"

definition pad_right :: "nat \<Rightarrow> string \<Rightarrow> string" where
  "pad_right n s = s @ replicate (n - rune_count s) (CHR '' '')"

definition pad_left :: "nat \<Rightarrow> string \<Rightarrow> string" where
  "pad_left n s = replicate (n - rune_count s) (CHR '' '') @ s"

section \<open>Lists\<close>

text \<open>
  Removing later elements whose key was seen before, in order: the \<open>seen\<close> maps of the code.
\<close>

fun dedup_by :: "('a \<Rightarrow> 'k) \<Rightarrow> 'k list \<Rightarrow> 'a list \<Rightarrow> 'a list" where
  "dedup_by key seen [] = []"
| "dedup_by key seen (x # xs) =
     (if key x \<in> set seen then dedup_by key seen xs
      else x # dedup_by key (key x # seen) xs)"

lemma set_dedup_by: "set (dedup_by key seen xs) \<subseteq> set xs"
  by (induction key seen xs rule: dedup_by.induct) auto

lemma dedup_by_keys: "key ` set (dedup_by key seen xs) = key ` set xs - set seen"
  by (induction key seen xs rule: dedup_by.induct) auto

lemma distinct_dedup_by: "distinct (map key (dedup_by key seen xs))"
proof (induction key seen xs rule: dedup_by.induct)
  case (2 key seen x xs)
  then show ?case using dedup_by_keys [of key "key x # seen" xs] by auto
qed simp

lemma sorted_nth_le: "sorted xs \<Longrightarrow> i \<le> j \<Longrightarrow> j < length xs \<Longrightarrow> xs ! i \<le> xs ! j"
  by (rule sorted_nth_mono)

end
