(* ===== verification/Engine_Types.thy ===== *)
theory Engine_Types
  imports QF_Prelude "HOL-Library.Multiset"
begin

text \<open>
  \<open>internal/engine/engine.go\<close>: the data that crosses the seam between the optimizer and a
  database, the case-insensitive table lookup, and result-set identity.  Also the order
  statistics of a list of timings (\<open>median\<close> and the closing lines of every \<open>Measure\<close>), which
  both engines share, and the interface \<open>target_engine\<close> that the verification loop relies on.
\<close>

section \<open>Schema\<close>

record column =
  col_name :: string
  col_type :: string
  nullable :: bool
  null_fraction :: real
  distinct_values :: real

record index =
  idx_name :: string
  definition_of :: string
  idx_columns :: "string list"
  is_unique :: bool
  is_primary :: bool
  size_bytes :: int
  scans :: int

record table =
  tbl_schema :: string
  tbl_name :: string
  columns :: "column list"
  indexes :: "index list"
  row_estimate :: int
  total_bytes :: int
  seq_scans :: int
  idx_scans :: int

record schema =
  tables :: "table list"

text \<open>The byte-wise \<open>equalFold\<close> of the package: lengths first, then a loop over the bytes.\<close>

fun equalFold :: "string \<Rightarrow> string \<Rightarrow> bool" where
  "equalFold [] [] = True"
| "equalFold (a # as) (b # bs) =
     (let ca = (if 65 \<le> char_code a \<and> char_code a \<le> 90
                then char_of (char_code a + 32) else a);
          cb = (if 65 \<le> char_code b \<and> char_code b \<le> 90
                then char_of (char_code b + 32) else b)
      in if ca \<noteq> cb then False else equalFold as bs)"
| "equalFold _ _ = False"

lemma equalFold_eq: "equalFold s t = equal_fold s t"
proof (induction s t rule: equalFold.induct)
  case (2 a as b bs)
  then show ?case
    by (auto simp: equal_fold_def to_lower_def lower_char_def Let_def)
qed (auto simp: equal_fold_def to_lower_def)

text \<open>\<open>(*Schema).Table\<close>: the first table whose bare or qualified name matches.\<close>

definition schema_table :: "schema \<Rightarrow> string \<Rightarrow> table option" where
  "schema_table s name =
     find (\<lambda>t. equalFold (tbl_name t) name \<or> equalFold (tbl_schema t @ ''.'' @ tbl_name t) name)
       (tables s)"

lemma schema_table_Some:
  assumes "schema_table s name = Some t"
  shows "t \<in> set (tables s)"
    and "equal_fold (tbl_name t) name \<or> equal_fold (tbl_schema t @ ''.'' @ tbl_name t) name"
  using assms by (auto simp: schema_table_def find_Some_iff equalFold_eq in_set_conv_nth)

lemma schema_table_None:
  "schema_table s name = None \<Longrightarrow> t \<in> set (tables s) \<Longrightarrow> \<not> equal_fold (tbl_name t) name"
  by (auto simp: schema_table_def find_None_iff equalFold_eq)

lemma schema_table_fold: "equal_fold a b \<Longrightarrow> schema_table s a = schema_table s b"
proof -
  assume "equal_fold a b"
  then have "equalFold x a = equalFold x b" for x
    by (simp add: equalFold_eq equal_fold_def)
  then show ?thesis by (simp add: schema_table_def)
qed

section \<open>Plans, measurements, result hashes\<close>

record plan =
  raw_plan :: string
  plan_summary :: string
  total_cost :: real
  startup_cost :: real
  estimated_rows :: real
  node_types :: "string list"
  seq_scan_tables :: "string list"

record measurement =
  m_runs :: int
  median_ms :: real
  min_ms :: real
  max_ms :: real
  spread_ms :: real
  planning_ms :: real
  actual_rows :: real
  shared_hit :: int
  shared_read :: int
  temp_written :: int
  m_plan :: "plan option"
  timed_out :: bool

definition new_measurement :: "int \<Rightarrow> measurement" where
  "new_measurement runs =
     \<lparr>m_runs = runs, median_ms = 0, min_ms = 0, max_ms = 0, spread_ms = 0, planning_ms = 0,
      actual_rows = 0, shared_hit = 0, shared_read = 0, temp_written = 0, m_plan = None,
      timed_out = False\<rparr>"

record result_hash =
  hash :: string
  row_count :: int
  ordered :: bool

text \<open>\<open>(*ResultHash).Equal\<close>; a nil pointer is \<open>None\<close>.\<close>

definition result_hash_equal :: "result_hash option \<Rightarrow> result_hash option \<Rightarrow> bool" where
  "result_hash_equal r other =
     (case (r, other) of
        (Some a, Some b) \<Rightarrow> ordered a = ordered b \<and> row_count a = row_count b \<and> hash a = hash b
      | _ \<Rightarrow> False)"

lemma result_hash_equal_iff: "result_hash_equal r s \<longleftrightarrow> r \<noteq> None \<and> r = s"
  by (cases r; cases s) (auto simp: result_hash_equal_def)

record timings =
  statement_timeout :: int \<comment> \<open>nanoseconds, as in \<open>time.Duration\<close>\<close>
  t_runs :: int
  warmup_runs :: int

definition default_timings :: timings where
  "default_timings = \<lparr>statement_timeout = 30 * 1000000000, t_runs = 5, warmup_runs = 1\<rparr>"

text \<open>\<open>Duration.Milliseconds\<close> truncates towards zero.\<close>

definition milliseconds :: "int \<Rightarrow> int" where
  "milliseconds d = sgn d * (\<bar>d\<bar> div 1000000)"

section \<open>Order statistics\<close>

definition median :: "real list \<Rightarrow> real" where
  "median sorted_xs =
     (let n = length sorted_xs in
      if n = 0 then 0
      else if n mod 2 = 1 then sorted_xs ! (n div 2)
      else (sorted_xs ! (n div 2 - 1) + sorted_xs ! (n div 2)) / 2)"

text \<open>The lines that close \<open>Measure\<close>: sort the durations, set median, minimum, maximum, spread.\<close>

definition set_stats :: "real list \<Rightarrow> measurement \<Rightarrow> measurement" where
  "set_stats durations m =
     (if durations = [] then m
      else let s = sort durations;
               m1 = m\<lparr>median_ms := median s, min_ms := s ! 0, max_ms := s ! (length s - 1)\<rparr>
           in m1\<lparr>spread_ms := max_ms m1 - min_ms m1\<rparr>)"

lemma median_bounds:
  assumes "sorted xs" and "xs \<noteq> []"
  shows "xs ! 0 \<le> median xs" and "median xs \<le> xs ! (length xs - 1)"
proof -
  let ?n = "length xs"
  have n: "0 < ?n" using assms(2) by simp
  have lo: "xs ! 0 \<le> xs ! i" and hi: "xs ! i \<le> xs ! (?n - 1)" if "i < ?n" for i
    using that assms(1) n by (auto intro: sorted_nth_mono)
  have half: "?n div 2 < ?n" "?n div 2 - 1 < ?n" using n by linarith+
  show "xs ! 0 \<le> median xs"
    using lo [OF half(1)] lo [OF half(2)] n by (auto simp: median_def Let_def)
  show "median xs \<le> xs ! (?n - 1)"
    using hi [OF half(1)] hi [OF half(2)] n by (auto simp: median_def Let_def)
qed

text \<open>
  What a measurement promises: it is consistent when its spread is the distance of its extremes
  and its median lies between them.
\<close>

definition consistent_measurement :: "measurement \<Rightarrow> bool" where
  "consistent_measurement m \<longleftrightarrow>
     min_ms m \<le> median_ms m \<and> median_ms m \<le> max_ms m \<and> spread_ms m = max_ms m - min_ms m"

lemma consistent_spread: "consistent_measurement m \<Longrightarrow> 0 \<le> spread_ms m"
  by (simp add: consistent_measurement_def)

lemma consistent_new [simp]: "consistent_measurement (new_measurement r)"
  by (simp add: consistent_measurement_def new_measurement_def)

lemma consistent_set_stats:
  assumes "consistent_measurement m"
  shows "consistent_measurement (set_stats ds m)"
proof (cases "ds = []")
  case True
  then show ?thesis using assms by (simp add: set_stats_def)
next
  case False
  have "sorted (sort ds)" and "sort ds \<noteq> []"
    using False by (simp_all, metis length_0_conv length_sort)
  from median_bounds [OF this] show ?thesis
    using False by (simp add: consistent_measurement_def set_stats_def Let_def)
qed

lemma set_stats_frame [simp]:
  "m_runs (set_stats ds m) = m_runs m" "m_plan (set_stats ds m) = m_plan m"
  "timed_out (set_stats ds m) = timed_out m" "actual_rows (set_stats ds m) = actual_rows m"
  by (simp_all add: set_stats_def Let_def)

lemma median_sort_perm: "mset xs = mset ys \<Longrightarrow> set_stats xs m = set_stats ys m"
proof -
  assume "mset xs = mset ys"
  then have "sort xs = sort ys" and "xs = [] \<longleftrightarrow> ys = []"
    by (metis sorted_list_of_multiset_mset, metis mset_zero_iff)
  then show ?thesis by (simp add: set_stats_def)
qed

section \<open>The engine interface\<close>

text \<open>
  An engine is a record of state-passing operations: \<open>'w\<close> is the state of the outside world
  (connections, the database, the clock).  The optimizer runs index experiments on the concrete
  type \<open>*engine.Postgres\<close> only, after a type assertion: \<open>as_postgres\<close> is what that assertion
  yields, the two operations it then calls.  The callback of \<open>WithHypotheticalIndex\<close> returns the
  build time and the measurement that the code's closure stores in captured variables.
\<close>

record 'w postgres_ops =
  with_hypothetical_index ::
    "string \<Rightarrow> ('w \<Rightarrow> (int \<times> measurement) result \<times> 'w) \<Rightarrow> 'w \<Rightarrow> (int \<times> measurement) result \<times> 'w"
  measure_in_tx :: "string \<Rightarrow> int \<Rightarrow> 'w \<Rightarrow> measurement result \<times> 'w"

record 'w engine =
  eng_introspect :: "string list \<Rightarrow> 'w \<Rightarrow> schema result \<times> 'w"
  eng_explain :: "string \<Rightarrow> 'w \<Rightarrow> plan result \<times> 'w"
  eng_measure :: "string \<Rightarrow> int \<Rightarrow> 'w \<Rightarrow> measurement result \<times> 'w"
  eng_checksum :: "string \<Rightarrow> bool \<Rightarrow> 'w \<Rightarrow> result_hash result \<times> 'w"
  eng_dialect :: string
  as_postgres :: "'w postgres_ops option"

text \<open>
  What the verification loop relies on: a measurement that did not time out is consistent, and a
  checksum records the ordering rule it was computed with.
\<close>

locale target_engine =
  fixes eng :: "'w engine"
  assumes measure_consistent: "eng_measure eng sql runs w = (Inr m, w') \<Longrightarrow> consistent_measurement m"
    and checksum_ordered: "eng_checksum eng sql ord w = (Inr h, w') \<Longrightarrow> ordered h = ord"
begin

lemma measure_spread_nonneg: "eng_measure eng sql runs w = (Inr m, w') \<Longrightarrow> 0 \<le> spread_ms m"
  by (blast intro: consistent_spread measure_consistent)

lemma checksum_comparable:
  "eng_checksum eng q1 ord w1 = (Inr h1, w1') \<Longrightarrow> eng_checksum eng q2 ord w2 = (Inr h2, w2') \<Longrightarrow>
   result_hash_equal (Some h1) (Some h2) \<longleftrightarrow> hash h1 = hash h2 \<and> row_count h1 = row_count h2"
  by (auto simp: result_hash_equal_def dest!: checksum_ordered)

end

end
