(* ===== verification/Plan_Json.thy ===== *)
theory Plan_Json
  imports Engine_Types
begin

text \<open>
  Decoded JSON and the plan parser of PostgreSQL: \<open>parsePlan\<close>, \<open>walkPlanNodes\<close>,
  \<open>planExecutionStats\<close>, \<open>floatField\<close> and \<open>toFloat\<close> of \<open>internal/engine/postgres.go\<close>.  The
  text-to-value step of \<open>encoding/json\<close> and the shortest decimal of a float are the parameter
  \<open>json_lib\<close>; decoding a value into the Go type the code asks for is modelled.
\<close>

section \<open>Decoded JSON\<close>

datatype json =
    JNull
  | JBool bool
  | JNum real
  | JStr string
  | JArr "json list"
  | JObj "(string \<times> json) list"

type_synonym json_map = "(string \<times> json) list"

record json_lib =
  json_value :: "string \<Rightarrow> json result"
  show_number :: "real \<Rightarrow> string"

text \<open>
  \<open>json.Unmarshal\<close> into \<open>[]map[string]any\<close> and into \<open>map[string]any\<close>: null leaves the zero value,
  and a nil map reads as an empty one.
\<close>

definition decode_object :: "json \<Rightarrow> json_map result" where
  "decode_object j =
     (case j of JObj kvs \<Rightarrow> Inr kvs | JNull \<Rightarrow> Inr []
      | _ \<Rightarrow> Inl (new_error ''json: cannot unmarshal into Go value of type map''))"

fun decode_objects :: "json list \<Rightarrow> json_map list result" where
  "decode_objects [] = Inr []"
| "decode_objects (j # js) =
     (case decode_object j of Inl e \<Rightarrow> Inl e
      | Inr kvs \<Rightarrow> (case decode_objects js of Inl e \<Rightarrow> Inl e | Inr rest \<Rightarrow> Inr (kvs # rest)))"

definition unmarshal_docs :: "json_lib \<Rightarrow> string \<Rightarrow> json_map list result" where
  "unmarshal_docs js raw =
     (case json_value js raw of Inl e \<Rightarrow> Inl e
      | Inr (JArr xs) \<Rightarrow> decode_objects xs
      | Inr JNull \<Rightarrow> Inr []
      | Inr _ \<Rightarrow> Inl (new_error ''json: cannot unmarshal into Go value of type slice''))"

definition unmarshal_object :: "json_lib \<Rightarrow> string \<Rightarrow> json_map result" where
  "unmarshal_object js raw = (case json_value js raw of Inl e \<Rightarrow> Inl e | Inr j \<Rightarrow> decode_object j)"

text \<open>The comma-ok type assertions of the code.\<close>

definition get_string :: "json_map \<Rightarrow> string \<Rightarrow> string" where
  "get_string m key = (case map_of m key of Some (JStr s) \<Rightarrow> s | _ \<Rightarrow> '''')"

definition get_map :: "json_map \<Rightarrow> string \<Rightarrow> json_map option" where
  "get_map m key = (case map_of m key of Some (JObj kvs) \<Rightarrow> Some kvs | _ \<Rightarrow> None)"

definition get_array :: "json_map \<Rightarrow> string \<Rightarrow> json list" where
  "get_array m key = (case map_of m key of Some (JArr xs) \<Rightarrow> xs | _ \<Rightarrow> [])"

text \<open>
  \<open>toFloat\<close>: \<open>encoding/json\<close> decodes every number to a \<open>float64\<close>, so of the cases of the type
  switch only that one and the final 0 can be reached from a decoded document.
\<close>

fun toFloat :: "json \<Rightarrow> real" where
  "toFloat (JNum r) = r"
| "toFloat _ = 0"

definition floatField :: "json_map \<Rightarrow> string \<Rightarrow> real" where
  "floatField m key = (case map_of m key of Some v \<Rightarrow> toFloat v | None \<Rightarrow> 0)"

definition trunc_int :: "real \<Rightarrow> int" where
  "trunc_int r = (if r < 0 then - \<lfloor>- r\<rfloor> else \<lfloor>r\<rfloor>)"

text \<open>\<open>%v\<close> of a decoded value; the keys of a map are printed in order of the document.\<close>

fun show_value :: "json_lib \<Rightarrow> json \<Rightarrow> string" where
  "show_value js JNull = ''<nil>''"
| "show_value js (JBool b) = show_bool b"
| "show_value js (JNum r) = show_number js r"
| "show_value js (JStr s) = s"
| "show_value js (JArr xs) = ''['' @ str_join (map (show_value js) xs) '' '' @ '']''"
| "show_value js (JObj kvs) =
     ''map['' @ str_join (map (\<lambda>(k, v). k @ '':'' @ show_value js v) kvs) '' '' @ '']''"

lemma map_of_size: "map_of m k = Some j \<Longrightarrow> size j < size_list (size_prod (\<lambda>_. 0) size) m"
proof (induction m)
  case (Cons kv m)
  then show ?case by (cases kv) (auto split: if_splits)
qed simp

definition object_size :: "json_map \<Rightarrow> nat" where
  "object_size m = size_list (size_prod (\<lambda>_. 0) size) m"

lemma get_array_size: "size_list size (get_array m k) \<le> object_size m"
  by (auto simp: get_array_def object_size_def split: option.splits json.splits dest: map_of_size)

lemma get_map_size: "get_map m k = Some n \<Longrightarrow> object_size n < object_size m"
  by (auto simp: get_map_def object_size_def split: option.splits json.splits dest: map_of_size)

section \<open>Postgres plans\<close>

definition nl :: string where "nl = [CHR 0x0A]"

definition indent_of :: "nat \<Rightarrow> string" where
  "indent_of depth = concat (replicate depth ''  '')"

definition plan_detail_keys :: "string list" where
  "plan_detail_keys = [''Filter'', ''Index Cond'', ''Recheck Cond'', ''Hash Cond'', ''Join Filter'', ''Sort Key'']"

text \<open>The text \<open>walkPlanNodes\<close> writes for one node, before its children.\<close>

definition plan_node_text :: "json_lib \<Rightarrow> json_map \<Rightarrow> nat \<Rightarrow> string" where
  "plan_node_text js node depth =
     (let nodeType = get_string node ''Node Type'';
          relation = get_string node ''Relation Name'';
          indent = indent_of depth
      in indent @ ''-> '' @ nodeType @
         (if relation \<noteq> '''' then '' on '' @ relation else '''') @
         (if get_string node ''Index Name'' \<noteq> '''' then '' using '' @ get_string node ''Index Name'' else '''') @
         ''  (cost='' @ show_fixed 2 (floatField node ''Startup Cost'') @ ''..'' @
         show_fixed 2 (floatField node ''Total Cost'') @ '' rows='' @
         show_fixed 0 (floatField node ''Plan Rows'') @
         (case map_of node ''Actual Rows'' of
            Some actual \<Rightarrow> '' actual_rows='' @ show_fixed 0 (toFloat actual) @ '' loops='' @
              show_fixed 0 (floatField node ''Actual Loops'') @ '' time='' @
              show_fixed 3 (floatField node ''Actual Total Time'') @ ''ms''
          | None \<Rightarrow> '''') @ '')'' @ nl @
         concat (map (\<lambda>key. case map_of node key of
             Some v \<Rightarrow> indent @ ''     '' @ key @ '': '' @ show_value js v @ nl
           | None \<Rightarrow> '''') plan_detail_keys) @
         (case map_of node ''Rows Removed by Filter'' of
            Some v \<Rightarrow> indent @ ''     Rows Removed by Filter: '' @ show_fixed 0 (toFloat v) @ nl
          | None \<Rightarrow> '''') @
         (case map_of node ''Sort Method'' of
            Some v \<Rightarrow> indent @ ''     Sort Method: '' @ show_value js v @
              (case map_of node ''Sort Space Used'' of
                 Some sp \<Rightarrow> '' ('' @ show_fixed 0 (toFloat sp) @ '' kB '' @
                   (case map_of node ''Sort Space Type'' of
                      Some ty \<Rightarrow> show_value js ty | None \<Rightarrow> ''<nil>'') @ '')''
               | None \<Rightarrow> '''') @ nl
          | None \<Rightarrow> ''''))"

text \<open>\<open>walkPlanNodes\<close> on the string builder and the plan, and its loop over the children.\<close>

function walkPlanNodes :: "json_lib \<Rightarrow> json_map \<Rightarrow> nat \<Rightarrow> string \<times> plan \<Rightarrow> string \<times> plan"
  and walk_plan_list :: "json_lib \<Rightarrow> json list \<Rightarrow> nat \<Rightarrow> string \<times> plan \<Rightarrow> string \<times> plan" where
  "walkPlanNodes js node depth (b, p) =
     (let nodeType = get_string node ''Node Type'';
          p1 = p\<lparr>node_types := node_types p @ [nodeType]\<rparr>;
          relation = get_string node ''Relation Name'';
          p2 = (if nodeType = ''Seq Scan'' \<and> relation \<noteq> ''''
                then p1\<lparr>seq_scan_tables := seq_scan_tables p1 @ [relation]\<rparr> else p1)
      in walk_plan_list js (get_array node ''Plans'') (depth + 1) (b @ plan_node_text js node depth, p2))"
| "walk_plan_list js [] depth s = s"
| "walk_plan_list js (c # cs) depth s =
     (case c of
        JObj child \<Rightarrow> walk_plan_list js cs depth (walkPlanNodes js child depth s)
      | _ \<Rightarrow> walk_plan_list js cs depth s)"
  by pat_completeness auto
termination
  by (relation "measure (\<lambda>x. case x of Inl (js, n, d, s) \<Rightarrow> 2 * object_size n + 1
      | Inr (js, cs, d, s) \<Rightarrow> 2 * size_list size cs)")
    (auto simp: le_imp_less_Suc get_array_size object_size_def [symmetric])

declare walkPlanNodes.simps [simp del] walk_plan_list.simps [simp del]

definition trim_right_newlines :: "string \<Rightarrow> string" where
  "trim_right_newlines s = trim_right (\<lambda>c. c = CHR 0x0A) s"

definition parsePlan :: "json_lib \<Rightarrow> string \<Rightarrow> plan result" where
  "parsePlan js raw =
     (case unmarshal_docs js raw of
        Inl err \<Rightarrow> Inl (wrap_error ''decode plan: '' err '''')
      | Inr docs \<Rightarrow>
          if docs = [] then Inl (new_error ''empty plan'')
          else case get_map (hd docs) ''Plan'' of
            None \<Rightarrow> Inl (new_error ''plan document has no Plan node'')
          | Some r \<Rightarrow>
              let p = \<lparr>raw_plan = raw, plan_summary = '''',
                       total_cost = floatField r ''Total Cost'',
                       startup_cost = floatField r ''Startup Cost'',
                       estimated_rows = floatField r ''Plan Rows'',
                       node_types = [], seq_scan_tables = []\<rparr>;
                  (b, p1) = walkPlanNodes js r 0 ('''', p)
              in Inr (p1\<lparr>plan_summary := trim_right_newlines b\<rparr>))"

record exec_stats =
  es_rows :: real
  es_shared_hit :: int
  es_shared_read :: int
  es_temp_written :: int

definition no_stats :: exec_stats where
  "no_stats = \<lparr>es_rows = 0, es_shared_hit = 0, es_shared_read = 0, es_temp_written = 0\<rparr>"

definition planExecutionStats :: "json_lib \<Rightarrow> string \<Rightarrow> real \<times> real \<times> exec_stats" where
  "planExecutionStats js raw =
     (case unmarshal_docs js raw of
        Inl _ \<Rightarrow> (0, 0, no_stats)
      | Inr [] \<Rightarrow> (0, 0, no_stats)
      | Inr (doc # _) \<Rightarrow>
          let execMS = floatField doc ''Execution Time'';
              planningMS = floatField doc ''Planning Time''
          in case get_map doc ''Plan'' of
               None \<Rightarrow> (execMS, planningMS, no_stats)
             | Some plan \<Rightarrow>
                 (execMS, planningMS,
                  \<lparr>es_rows = floatField plan ''Actual Rows'',
                   es_shared_hit = trunc_int (floatField plan ''Shared Hit Blocks''),
                   es_shared_read = trunc_int (floatField plan ''Shared Read Blocks''),
                   es_temp_written = trunc_int (floatField plan ''Temp Written Blocks'')\<rparr>))"

section \<open>What the walk collects\<close>

text \<open>The nodes of a plan in preorder.\<close>

function plan_nodes :: "json_map \<Rightarrow> json_map list"
  and plan_nodes_list :: "json list \<Rightarrow> json_map list" where
  "plan_nodes node = node # plan_nodes_list (get_array node ''Plans'')"
| "plan_nodes_list [] = []"
| "plan_nodes_list (c # cs) =
     (case c of JObj child \<Rightarrow> plan_nodes child @ plan_nodes_list cs | _ \<Rightarrow> plan_nodes_list cs)"
  by pat_completeness auto
termination
  by (relation "measure (\<lambda>x. case x of Inl n \<Rightarrow> 2 * object_size n + 1
      | Inr cs \<Rightarrow> 2 * size_list size cs)")
    (auto simp: le_imp_less_Suc get_array_size object_size_def [symmetric])

declare plan_nodes.simps [simp del] plan_nodes_list.simps [simp del]

definition seq_scan_of :: "json_map \<Rightarrow> string list" where
  "seq_scan_of node =
     (if get_string node ''Node Type'' = ''Seq Scan'' \<and> get_string node ''Relation Name'' \<noteq> ''''
      then [get_string node ''Relation Name''] else [])"

lemma walkPlanNodes_collects:
  "node_types (snd (walkPlanNodes js n d s)) = node_types (snd s) @ map (\<lambda>n. get_string n ''Node Type'') (plan_nodes n)
   \<and> seq_scan_tables (snd (walkPlanNodes js n d s)) = seq_scan_tables (snd s) @ concat (map seq_scan_of (plan_nodes n))
   \<and> total_cost (snd (walkPlanNodes js n d s)) = total_cost (snd s)
   \<and> estimated_rows (snd (walkPlanNodes js n d s)) = estimated_rows (snd s)"
  "node_types (snd (walk_plan_list js cs d s)) = node_types (snd s) @ map (\<lambda>n. get_string n ''Node Type'') (plan_nodes_list cs)
   \<and> seq_scan_tables (snd (walk_plan_list js cs d s)) = seq_scan_tables (snd s) @ concat (map seq_scan_of (plan_nodes_list cs))
   \<and> total_cost (snd (walk_plan_list js cs d s)) = total_cost (snd s)
   \<and> estimated_rows (snd (walk_plan_list js cs d s)) = estimated_rows (snd s)"
proof (induction js n d s and js cs d s rule: walkPlanNodes_walk_plan_list.induct)
  case (1 js node depth b p)
  then show ?case
    by (simp add: walkPlanNodes.simps plan_nodes.simps seq_scan_of_def Let_def)
next
  case (2 js depth s)
  then show ?case by (simp add: walk_plan_list.simps plan_nodes_list.simps)
next
  case (3 js c cs depth s)
  then show ?case
    by (cases c) (simp_all add: walk_plan_list.simps plan_nodes_list.simps)
qed

end
