(* ===== verification/Db_Effects.thy ===== *)
theory Db_Effects
  imports Engine_Types
begin

text \<open>
  What the two database engines share: result sets and the loop that scans them, and the words for
  the effect of an operation on the database.  An operation takes the state of the outside world
  and returns a value and the next state.
\<close>

section \<open>Result sets\<close>

text \<open>
  A result set: what \<open>Scan\<close> yields for each row that \<open>Next\<close> offers, and what \<open>rows.Err()\<close> says
  after the last.
\<close>

type_synonym 'a rowset = "'a result list \<times> go_error option"

text \<open>The loop \<open>for rows.Next() { Scan; ... }\<close> with its closing \<open>rows.Err()\<close>.\<close>

fun scan_rows :: "('a \<Rightarrow> 's \<Rightarrow> 's) \<Rightarrow> 'a result list \<Rightarrow> go_error option \<Rightarrow> 's \<Rightarrow> 's result" where
  "scan_rows step [] None s = Inr s"
| "scan_rows step [] (Some err) s = Inl err"
| "scan_rows step (Inl err # rows) fin s = Inl err"
| "scan_rows step (Inr row # rows) fin s = scan_rows step rows fin (step row s)"

lemma scan_rows_invariant:
  assumes step: "\<And>row s. P s \<Longrightarrow> P (step row s)"
    and start: "P s" and scan: "scan_rows step rows fin s = Inr s'"
  shows "P s'"
  using start scan
proof (induction rows arbitrary: s)
  case Nil
  then show ?case by (cases fin) auto
next
  case (Cons r rows)
  then show ?case using step by (cases r) auto
qed

section \<open>Sequencing\<close>

text \<open>
  The sequence \<open>x, err := f(); if err != nil { return err }\<close>: an error ends it with the state
  reached so far.
\<close>

definition bind_io :: "('w \<Rightarrow> 'a result \<times> 'w) \<Rightarrow> ('a \<Rightarrow> 'w \<Rightarrow> 'b result \<times> 'w) \<Rightarrow> 'w \<Rightarrow> 'b result \<times> 'w" where
  "bind_io f g w = (case f w of (Inl err, w1) \<Rightarrow> (Inl err, w1) | (Inr x, w1) \<Rightarrow> g x w1)"

definition return_io :: "'a \<Rightarrow> 'w \<Rightarrow> 'a result \<times> 'w" where
  "return_io x w = (Inr x, w)"

text \<open>The same with \<open>return fmt.Errorf(...)\<close>: what an error becomes on its way up.\<close>

definition map_err :: "(go_error \<Rightarrow> go_error) \<Rightarrow> ('w \<Rightarrow> 'a result \<times> 'w) \<Rightarrow> 'w \<Rightarrow> 'a result \<times> 'w" where
  "map_err h f w = (case f w of (Inl err, w1) \<Rightarrow> (Inl (h err), w1) | (Inr x, w1) \<Rightarrow> (Inr x, w1))"

lemma return_io_simp [simp]: "return_io x w = (Inr x, w)"
  by (simp add: return_io_def)

lemma bind_io_simps [simp]:
  "f w = (Inl err, w1) \<Longrightarrow> bind_io f g w = (Inl err, w1)"
  "f w = (Inr x, w1) \<Longrightarrow> bind_io f g w = g x w1"
  by (simp_all add: bind_io_def)

lemma bind_io_Inr:
  "bind_io f g w = (Inr y, w') \<longleftrightarrow> (\<exists>x w1. f w = (Inr x, w1) \<and> g x w1 = (Inr y, w'))"
  by (auto simp: bind_io_def split: prod.splits sum.splits)

lemma map_err_Inr [simp]: "map_err h f w = (Inr y, w') \<longleftrightarrow> f w = (Inr y, w')"
  by (auto simp: map_err_def split: prod.splits sum.splits)

section \<open>Effects\<close>

text \<open>
  \<open>committed\<close> is the content of the database as other sessions see it, \<open>in_tx\<close> says whether a
  transaction is open.  A neutral state change affects neither.
\<close>

definition neutral :: "('w \<Rightarrow> 'db) \<Rightarrow> ('w \<Rightarrow> bool) \<Rightarrow> ('w \<Rightarrow> 'w) \<Rightarrow> bool" where
  "neutral committed in_tx f \<longleftrightarrow> (\<forall>w. committed (f w) = committed w \<and> in_tx (f w) = in_tx w)"

text \<open>An operation run inside a transaction stays inside it and commits nothing.\<close>

definition tx_local :: "('w \<Rightarrow> 'db) \<Rightarrow> ('w \<Rightarrow> bool) \<Rightarrow> ('w \<Rightarrow> 'a \<times> 'w) \<Rightarrow> bool" where
  "tx_local committed in_tx f \<longleftrightarrow>
     (\<forall>w. in_tx w \<longrightarrow> committed (snd (f w)) = committed w \<and> in_tx (snd (f w)))"

text \<open>An operation started outside a transaction leaves no transaction and no change behind.\<close>

definition harmless :: "('w \<Rightarrow> 'db) \<Rightarrow> ('w \<Rightarrow> bool) \<Rightarrow> ('w \<Rightarrow> 'a \<times> 'w) \<Rightarrow> bool" where
  "harmless committed in_tx f \<longleftrightarrow>
     (\<forall>w. \<not> in_tx w \<longrightarrow> committed (snd (f w)) = committed w \<and> \<not> in_tx (snd (f w)))"

lemma harmlessD:
  "harmless committed in_tx f \<Longrightarrow> f w = (r, w') \<Longrightarrow> \<not> in_tx w \<Longrightarrow> committed w' = committed w \<and> \<not> in_tx w'"
  unfolding harmless_def by (metis snd_conv)

lemma tx_localD:
  "tx_local committed in_tx f \<Longrightarrow> f w = (r, w') \<Longrightarrow> in_tx w \<Longrightarrow> committed w' = committed w \<and> in_tx w'"
  unfolding tx_local_def by (metis snd_conv)

lemma neutralD:
  "neutral committed in_tx (\<lambda>w. snd (f w)) \<Longrightarrow> f w = (r, w') \<Longrightarrow> committed w' = committed w \<and> in_tx w' = in_tx w"
  unfolding neutral_def by (metis snd_conv)

lemma tx_local_bind:
  assumes "tx_local committed in_tx f" and "\<And>x. tx_local committed in_tx (g x)"
  shows "tx_local committed in_tx (bind_io f g)"
  using assms unfolding tx_local_def bind_io_def
  by (auto split: prod.split sum.split)

lemma tx_local_map_err: "tx_local committed in_tx f \<Longrightarrow> tx_local committed in_tx (map_err h f)"
  unfolding tx_local_def map_err_def by (auto split: prod.split sum.split)

lemma tx_local_return: "tx_local committed in_tx (return_io x)"
  by (simp add: tx_local_def)

lemma tx_local_pure: "tx_local committed in_tx (\<lambda>w. (r w, w))"
  by (simp add: tx_local_def)

lemma harmless_bind:
  assumes "harmless committed in_tx f" and "\<And>x. harmless committed in_tx (g x)"
  shows "harmless committed in_tx (bind_io f g)"
  using tx_local_bind [of committed "\<lambda>w. \<not> in_tx w" f g] assms
  by (simp add: harmless_def tx_local_def)

lemma harmless_map_err: "harmless committed in_tx f \<Longrightarrow> harmless committed in_tx (map_err h f)"
  using tx_local_map_err [of committed "\<lambda>w. \<not> in_tx w" f h] by (simp add: harmless_def tx_local_def)

lemma harmless_pure: "harmless committed in_tx (\<lambda>w. (r w, w))"
  by (simp add: harmless_def)

lemma harmless_return: "harmless committed in_tx (return_io x)"
  by (simp add: harmless_def)

lemmas effect_intros = tx_local_bind tx_local_map_err tx_local_return tx_local_pure
  harmless_bind harmless_map_err harmless_pure harmless_return

end
