(* ===== verification/Engine_Postgres.thy ===== *)
theory Engine_Postgres
  imports Plan_Json Db_Effects "HOL-Library.AList" "HOL-Library.Char_ord" "HOL-Library.List_Lexorder"
begin

text \<open>
  \<open>internal/engine/postgres.go\<close>: introspection, plans, measurement, checksums and index
  experiments on PostgreSQL.  The driver (\<open>pgx\<close>, and the server behind it) is the parameter
  \<open>pgx\<close>: its operations on the outside state \<open>'w\<close>.  Contexts are left out, a cancellation is an
  error of the operation it interrupts.
\<close>

section \<open>The driver\<close>

type_synonym stats_row = "string \<times> string \<times> int \<times> int \<times> int \<times> int"
type_synonym column_row = "string \<times> string \<times> column"
type_synonym index_row = "string \<times> index"

record 'w pgx =
  pool_acquire :: "'w \<Rightarrow> unit result \<times> 'w"
  conn_release :: "'w \<Rightarrow> 'w"
  begin_tx :: "bool \<Rightarrow> 'w \<Rightarrow> unit result \<times> 'w"    \<comment> \<open>True: access mode READ ONLY\<close>
  tx_exec :: "string \<Rightarrow> 'w \<Rightarrow> unit result \<times> 'w"
  tx_query_text :: "string \<Rightarrow> 'w \<Rightarrow> string result \<times> 'w"
  tx_query_hash :: "string \<Rightarrow> 'w \<Rightarrow> (string \<times> int) result \<times> 'w"
  tx_rollback :: "'w \<Rightarrow> 'w"
  query_table_stats :: "string list \<Rightarrow> 'w \<Rightarrow> stats_row rowset result \<times> 'w"
  query_columns :: "string list \<Rightarrow> 'w \<Rightarrow> column_row rowset result \<times> 'w"
  query_indexes :: "string list \<Rightarrow> 'w \<Rightarrow> index_row rowset result \<times> 'w"

section \<open>Index definitions\<close>

fun closing_paren :: "int \<Rightarrow> nat \<Rightarrow> string \<Rightarrow> nat option" where
  "closing_paren depth i [] = None"
| "closing_paren depth i (c # cs) =
     (if c = CHR ''('' then closing_paren (depth + 1) (Suc i) cs
      else if c = CHR '')'' then
        (if depth - 1 = 0 then Some i else closing_paren (depth - 1) (Suc i) cs)
      else closing_paren depth (Suc i) cs)"

fun split_loop :: "int \<Rightarrow> string \<Rightarrow> string \<Rightarrow> string list" where
  "split_loop depth cur [] = [cur]"
| "split_loop depth cur (c # cs) =
     (if c = CHR ''('' then split_loop (depth + 1) (cur @ [c]) cs
      else if c = CHR '')'' then split_loop (depth - 1) (cur @ [c]) cs
      else if c = CHR '','' \<and> depth = 0 then cur # split_loop depth [] cs
      else split_loop depth (cur @ [c]) cs)"

definition splitTopLevel :: "string \<Rightarrow> string list" where
  "splitTopLevel s = split_loop 0 [] s"

definition order_suffixes :: "string list" where
  "order_suffixes = ['' DESC'', '' ASC'', '' NULLS FIRST'', '' NULLS LAST'']"

definition strip_order :: "string \<Rightarrow> string" where
  "strip_order part = foldl (\<lambda>p suffix. trim_suffix (trim_space p) suffix) (trim_space part) order_suffixes"

definition indexColumns :: "string \<Rightarrow> string list" where
  "indexColumns def =
     (case str_index def ''('' of
        None \<Rightarrow> []
      | Some opn \<Rightarrow>
          case closing_paren 0 opn (drop opn def) of
            None \<Rightarrow> []
          | Some fin \<Rightarrow>
              map (\<lambda>p. trim_cutset p [CHR 0x22])
                (filter (\<lambda>p. p \<noteq> '''')
                  (map strip_order (splitTopLevel (take (fin - (opn + 1)) (drop (opn + 1) def))))))"

section \<open>Introspection\<close>

text \<open>The pointers of \<open>byName\<close> are the values of an association list keyed by lower-cased name.\<close>

type_synonym table_map = "(string \<times> table) list"

definition add_stats :: "stats_row \<Rightarrow> table_map \<Rightarrow> table_map" where
  "add_stats row byName =
     (case row of (name, sch, est, bytes, seqs, idxs) \<Rightarrow>
        AList.update (to_lower name)
          \<lparr>tbl_schema = sch, tbl_name = name, columns = [], indexes = [], row_estimate = est,
           total_bytes = bytes, seq_scans = seqs, idx_scans = idxs\<rparr> byName)"

definition add_column :: "column_row \<Rightarrow> table_map \<Rightarrow> table_map" where
  "add_column row byName =
     (case row of (tab, sch, col) \<Rightarrow>
        let t = (case map_of byName (to_lower tab) of
                   Some t \<Rightarrow> t
                 | None \<Rightarrow> \<lparr>tbl_schema = sch, tbl_name = tab, columns = [], indexes = [],
                     row_estimate = 0, total_bytes = 0, seq_scans = 0, idx_scans = 0\<rparr>)
        in AList.update (to_lower tab) (t\<lparr>columns := columns t @ [col]\<rparr>) byName)"

definition add_index :: "index_row \<Rightarrow> table_map \<Rightarrow> table_map" where
  "add_index row byName =
     (case row of (tab, idx) \<Rightarrow>
        let idx' = idx\<lparr>idx_columns := indexColumns (definition_of idx)\<rparr>
        in case map_of byName (to_lower tab) of
             Some t \<Rightarrow> AList.update (to_lower tab) (t\<lparr>indexes := indexes t @ [idx']\<rparr>) byName
           | None \<Rightarrow> byName)"

definition pg_Introspect :: "'w pgx \<Rightarrow> string list \<Rightarrow> 'w \<Rightarrow> schema result \<times> 'w" where
  "pg_Introspect drv tabs w =
     (if tabs = [] then (Inr \<lparr>tables = []\<rparr>, w)
      else
        let bare = map (after_last (CHR ''.'')) tabs in
        case query_table_stats drv bare w of
          (Inl err, w1) \<Rightarrow> (Inl (wrap_error ''table statistics: '' err ''''), w1)
        | (Inr (rows1, fin1), w1) \<Rightarrow>
            case scan_rows add_stats rows1 fin1 [] of
              Inl err \<Rightarrow> (Inl err, w1)
            | Inr byName1 \<Rightarrow>
                case query_columns drv bare w1 of
                  (Inl err, w2) \<Rightarrow> (Inl (wrap_error ''columns: '' err ''''), w2)
                | (Inr (rows2, fin2), w2) \<Rightarrow>
                    case scan_rows add_column rows2 fin2 byName1 of
                      Inl err \<Rightarrow> (Inl err, w2)
                    | Inr byName2 \<Rightarrow>
                        case query_indexes drv bare w2 of
                          (Inl err, w3) \<Rightarrow> (Inl (wrap_error ''indexes: '' err ''''), w3)
                        | (Inr (rows3, fin3), w3) \<Rightarrow>
                            case scan_rows add_index rows3 fin3 byName2 of
                              Inl err \<Rightarrow> (Inl err, w3)
                            | Inr byName3 \<Rightarrow>
                                (Inr \<lparr>tables = sort_key tbl_name (map snd byName3)\<rparr>, w3))"

section \<open>Transactions\<close>

text \<open>
  The steps \<open>readOnly\<close> and \<open>WithHypotheticalIndex\<close> share: acquire a connection, begin a
  transaction, set the statement timeout, run the body.  The deferred calls run in reverse order,
  the rollback before the release, on every path after the one that registers them.
\<close>

definition set_local_timeout :: "int \<Rightarrow> string" where
  "set_local_timeout timeout_ms = ''SET LOCAL statement_timeout = '' @ show_int timeout_ms"

definition in_transaction ::
    "'w pgx \<Rightarrow> bool \<Rightarrow> int \<Rightarrow> ('w \<Rightarrow> 'a result \<times> 'w) \<Rightarrow> 'w \<Rightarrow> 'a result \<times> 'w" where
  "in_transaction drv read_only timeout_ms body w =
     (case pool_acquire drv w of
        (Inl err, w1) \<Rightarrow> (Inl err, w1)
      | (Inr _, w1) \<Rightarrow>
          case begin_tx drv read_only w1 of
            (Inl err, w2) \<Rightarrow> (Inl err, conn_release drv w2)
          | (Inr _, w2) \<Rightarrow>
              case tx_exec drv (set_local_timeout timeout_ms) w2 of
                (Inl err, w3) \<Rightarrow> (Inl err, conn_release drv (tx_rollback drv w3))
              | (Inr _, w3) \<Rightarrow>
                  case body w3 of (r, w4) \<Rightarrow> (r, conn_release drv (tx_rollback drv w4)))"

definition pg_readOnly :: "'w pgx \<Rightarrow> timings \<Rightarrow> ('w \<Rightarrow> 'a result \<times> 'w) \<Rightarrow> 'w \<Rightarrow> 'a result \<times> 'w" where
  "pg_readOnly drv tim fn w =
     in_transaction drv True (milliseconds (statement_timeout tim)) fn w"

definition pg_WithHypotheticalIndex ::
    "'w pgx \<Rightarrow> timings \<Rightarrow> string \<Rightarrow> ('w \<Rightarrow> 'a result \<times> 'w) \<Rightarrow> 'w \<Rightarrow> 'a result \<times> 'w" where
  "pg_WithHypotheticalIndex drv tim indexDDL fn w =
     in_transaction drv False (milliseconds (statement_timeout tim) * 4)
       (\<lambda>w3. case tx_exec drv indexDDL w3 of
           (Inl err, w4) \<Rightarrow> (Inl (wrap_error ''create hypothetical index: '' err ''''), w4)
         | (Inr _, w4) \<Rightarrow> fn w4) w"

section \<open>Plans and measurements\<close>

definition isTimeout :: "go_error \<Rightarrow> bool" where
  "isTimeout err =
     (let msg = to_lower (err_text err)
      in str_contains msg ''statement timeout'' \<or> str_contains msg ''canceling statement due to'')"

definition pg_Explain :: "'w pgx \<Rightarrow> timings \<Rightarrow> json_lib \<Rightarrow> string \<Rightarrow> 'w \<Rightarrow> plan result \<times> 'w" where
  "pg_Explain drv tim js sql w =
     (case pg_readOnly drv tim (tx_query_text drv (''EXPLAIN (FORMAT JSON, COSTS, VERBOSE false) '' @ sql)) w of
        (Inl err, w1) \<Rightarrow> (Inl (wrap_error ''explain: '' err ''''), w1)
      | (Inr raw, w1) \<Rightarrow> (parsePlan js raw, w1))"

definition analyze_sql :: "string \<Rightarrow> string" where
  "analyze_sql sql = ''EXPLAIN (ANALYZE, BUFFERS, FORMAT JSON, TIMING, COSTS) '' @ sql"

text \<open>
  The timing loop of \<open>Measure\<close> and of \<open>MeasureInTx\<close>: \<open>n\<close> iterations are left, \<open>i\<close> is the loop
  variable, \<open>sample\<close> runs one EXPLAIN ANALYZE, \<open>failed\<close> is what an error becomes and \<open>store\<close> what a
  timed run leaves in the measurement.
\<close>

fun timing_loop :: "json_lib \<Rightarrow> ('w \<Rightarrow> string result \<times> 'w) \<Rightarrow> (go_error \<Rightarrow> go_error) \<Rightarrow>
    (plan \<Rightarrow> real \<Rightarrow> exec_stats \<Rightarrow> measurement \<Rightarrow> measurement) \<Rightarrow> int \<Rightarrow>
    nat \<Rightarrow> int \<Rightarrow> measurement \<Rightarrow> real list \<Rightarrow> 'w \<Rightarrow> measurement result \<times> 'w" where
  "timing_loop js sample failed store warmup 0 i m durations w = (Inr (set_stats durations m), w)"
| "timing_loop js sample failed store warmup (Suc n) i m durations w =
     (case sample w of
        (Inl err, w1) \<Rightarrow>
          if isTimeout err then (Inr (m\<lparr>timed_out := True\<rparr>), w1) else (Inl (failed err), w1)
      | (Inr raw, w1) \<Rightarrow>
          case parsePlan js raw of
            Inl parseErr \<Rightarrow> (Inl parseErr, w1)
          | Inr plan \<Rightarrow>
              let (exec, planning, stats) = planExecutionStats js raw in
              if i < warmup
              then timing_loop js sample failed store warmup n (i + 1) m durations w1
              else timing_loop js sample failed store warmup n (i + 1)
                     (store plan planning stats m) (durations @ [exec]) w1)"

definition store_run :: "plan \<Rightarrow> real \<Rightarrow> exec_stats \<Rightarrow> measurement \<Rightarrow> measurement" where
  "store_run plan planning stats m =
     m\<lparr>m_plan := Some plan, planning_ms := planning, actual_rows := es_rows stats,
       shared_hit := es_shared_hit stats, shared_read := es_shared_read stats,
       temp_written := es_temp_written stats\<rparr>"

definition store_run_in_tx :: "plan \<Rightarrow> real \<Rightarrow> exec_stats \<Rightarrow> measurement \<Rightarrow> measurement" where
  "store_run_in_tx plan planning stats m =
     m\<lparr>m_plan := Some plan, planning_ms := planning, actual_rows := es_rows stats,
       shared_hit := es_shared_hit stats, shared_read := es_shared_read stats\<rparr>"

definition effective_runs :: "timings \<Rightarrow> int \<Rightarrow> int" where
  "effective_runs tim runs = (if runs \<le> 0 then t_runs tim else runs)"

definition pg_Measure :: "'w pgx \<Rightarrow> timings \<Rightarrow> json_lib \<Rightarrow> string \<Rightarrow> int \<Rightarrow> 'w \<Rightarrow> measurement result \<times> 'w" where
  "pg_Measure drv tim js sql runs w =
     (let runs' = effective_runs tim runs in
      timing_loop js (pg_readOnly drv tim (tx_query_text drv (analyze_sql sql)))
        (\<lambda>err. wrap_error ''explain analyze: '' err '''') store_run (warmup_runs tim)
        (nat (runs' + warmup_runs tim)) 0 (new_measurement runs') [] w)"

text \<open>The flag says whether the context carries the transaction of an experiment.\<close>

definition pg_MeasureInTx ::
    "'w pgx \<Rightarrow> timings \<Rightarrow> json_lib \<Rightarrow> bool \<Rightarrow> string \<Rightarrow> int \<Rightarrow> 'w \<Rightarrow> measurement result \<times> 'w" where
  "pg_MeasureInTx drv tim js has_tx sql runs w =
     (if \<not> has_tx then pg_Measure drv tim js sql runs w
      else let runs' = effective_runs tim runs in
        timing_loop js (tx_query_text drv (analyze_sql sql)) (\<lambda>err. err) store_run_in_tx
          (warmup_runs tim) (nat (runs' + warmup_runs tim)) 0 (new_measurement runs') [] w)"

section \<open>Checksums\<close>

definition quotes2 :: string where "quotes2 = [CHR 0x27, CHR 0x27]"

definition sql_break :: string where
  "sql_break = [CHR 0x0A, CHR 0x09, CHR 0x09] @ replicate 11 (CHR '' '')"

definition checksum_sql :: "string \<Rightarrow> bool \<Rightarrow> string" where
  "checksum_sql sql ord =
     (let inner = ''SELECT md5(t::text) AS h FROM ('' @ sql @ '') t'' in
      if ord
      then ''SELECT COALESCE(md5(string_agg(h, '' @ quotes2 @ '' ORDER BY rn)), 'empty'), count(*)'' @
           sql_break @ ''FROM (SELECT row_number() OVER () AS rn, h FROM ('' @ inner @ '') x) y''
      else ''SELECT COALESCE(md5(string_agg(h, '' @ quotes2 @ '' ORDER BY h)), 'empty'), count(*)'' @
           sql_break @ ''FROM ('' @ inner @ '') z'')"

definition pg_Checksum :: "'w pgx \<Rightarrow> timings \<Rightarrow> string \<Rightarrow> bool \<Rightarrow> 'w \<Rightarrow> result_hash result \<times> 'w" where
  "pg_Checksum drv tim sql ord w =
     (case pg_readOnly drv tim (tx_query_hash drv (checksum_sql sql ord)) w of
        (Inl err, w1) \<Rightarrow> (Inl (wrap_error ''checksum: '' err ''''), w1)
      | (Inr (h, n), w1) \<Rightarrow> (Inr \<lparr>hash = h, row_count = n, ordered = ord\<rparr>, w1))"

section \<open>The engine value\<close>

definition postgres_engine :: "'w pgx \<Rightarrow> timings \<Rightarrow> json_lib \<Rightarrow> 'w engine" where
  "postgres_engine drv tim js =
     \<lparr>eng_introspect = pg_Introspect drv,
      eng_explain = pg_Explain drv tim js,
      eng_measure = pg_Measure drv tim js,
      eng_checksum = pg_Checksum drv tim,
      eng_dialect = ''postgres'',
      as_postgres = Some
        \<lparr>with_hypothetical_index = pg_WithHypotheticalIndex drv tim,
         measure_in_tx = pg_MeasureInTx drv tim js True\<rparr>\<rparr>"

section \<open>Measurements are consistent\<close>

lemma consistent_store [simp]:
  "consistent_measurement (store_run p x st m) = consistent_measurement m"
  "consistent_measurement (store_run_in_tx p x st m) = consistent_measurement m"
  "consistent_measurement (m\<lparr>timed_out := b\<rparr>) = consistent_measurement m"
  by (simp_all add: consistent_measurement_def store_run_def store_run_in_tx_def)

lemma timing_loop_consistent:
  assumes "\<And>p x st m. consistent_measurement m \<Longrightarrow> consistent_measurement (store p x st m)"
    and "consistent_measurement m"
    and "timing_loop js sample failed store warmup n i m ds w = (Inr m', w')"
  shows "consistent_measurement m'"
  using assms(2,3)
proof (induction n arbitrary: i m ds w)
  case 0
  then show ?case by (auto simp: consistent_set_stats)
next
  case (Suc n)
  then show ?case
    by (auto split: prod.splits sum.splits if_splits dest!: Suc.IH [rotated] intro: assms(1))
qed

lemma pg_Measure_consistent:
  "pg_Measure drv tim js sql runs w = (Inr m, w') \<Longrightarrow> consistent_measurement m"
  unfolding pg_Measure_def Let_def
  by (erule timing_loop_consistent [rotated 2]) simp_all

lemma pg_MeasureInTx_consistent:
  "pg_MeasureInTx drv tim js has_tx sql runs w = (Inr m, w') \<Longrightarrow> consistent_measurement m"
proof (cases has_tx)
  case True
  assume "pg_MeasureInTx drv tim js has_tx sql runs w = (Inr m, w')"
  with True show ?thesis
    unfolding pg_MeasureInTx_def Let_def
    by (simp del: timing_loop.simps) (erule timing_loop_consistent [rotated 2], simp_all)
qed (simp add: pg_MeasureInTx_def pg_Measure_consistent)

lemma pg_Checksum_ordered: "pg_Checksum drv tim sql ord w = (Inr h, w') \<Longrightarrow> ordered h = ord"
  by (auto simp: pg_Checksum_def split: prod.splits sum.splits)

interpretation postgres: target_engine "postgres_engine drv tim js"
  by unfold_locales
    (auto simp: postgres_engine_def dest: pg_Measure_consistent pg_Checksum_ordered)

section \<open>Nothing is written\<close>

text \<open>
  The documented behaviour of \<open>pgx\<close> and of PostgreSQL's transactions that the code relies on:
  \<open>committed\<close> is the content of the database as other sessions see it, \<open>in_tx\<close> says whether a
  transaction is open.  The statements that the code sends inside a transaction (settings, index
  DDL, EXPLAIN, the checksum query) change no committed content and do not end it, a rollback drops
  what it did, and the three catalogue queries are plain selects.
\<close>

definition plain_statement :: "string \<Rightarrow> bool" where
  "plain_statement s \<longleftrightarrow>
     (\<exists>p \<in> {''SET LOCAL '', ''CREATE INDEX '', ''CREATE UNIQUE INDEX ''}. has_prefix s p)"

definition tx_contract :: "'w pgx \<Rightarrow> ('w \<Rightarrow> 'db) \<Rightarrow> ('w \<Rightarrow> bool) \<Rightarrow> bool" where
  "tx_contract drv committed in_tx \<longleftrightarrow>
     neutral committed in_tx (\<lambda>w. snd (pool_acquire drv w)) \<and>
     neutral committed in_tx (conn_release drv) \<and>
     (\<forall>ro w. committed (snd (begin_tx drv ro w)) = committed w \<and>
        in_tx (snd (begin_tx drv ro w)) = (is_ok (fst (begin_tx drv ro w)) \<or> in_tx w)) \<and>
     (\<forall>s. plain_statement s \<longrightarrow> tx_local committed in_tx (tx_exec drv s)) \<and>
     (\<forall>s. has_prefix s ''EXPLAIN '' \<longrightarrow> tx_local committed in_tx (tx_query_text drv s)) \<and>
     (\<forall>sql ord. tx_local committed in_tx (tx_query_hash drv (checksum_sql sql ord))) \<and>
     (\<forall>w. committed (tx_rollback drv w) = committed w \<and> \<not> in_tx (tx_rollback drv w)) \<and>
     (\<forall>a. neutral committed in_tx (\<lambda>w. snd (query_table_stats drv a w))) \<and>
     (\<forall>a. neutral committed in_tx (\<lambda>w. snd (query_columns drv a w))) \<and>
     (\<forall>a. neutral committed in_tx (\<lambda>w. snd (query_indexes drv a w)))"

lemma tx_contract_local:
  assumes "tx_contract drv committed in_tx"
  shows "plain_statement s \<Longrightarrow> tx_local committed in_tx (tx_exec drv s)"
    "has_prefix s ''EXPLAIN '' \<Longrightarrow> tx_local committed in_tx (tx_query_text drv s)"
    "tx_local committed in_tx (tx_query_hash drv (checksum_sql sql ord))"
  using assms unfolding tx_contract_def by blast+

lemma tx_contract_timeout:
  assumes "tx_contract drv committed in_tx"
  shows "tx_local committed in_tx (tx_exec drv (set_local_timeout t))"
  by (rule tx_contract_local(1) [OF assms]) (simp add: plain_statement_def set_local_timeout_def has_prefix_def)

lemma tx_contract_analyze:
  assumes "tx_contract drv committed in_tx"
  shows "tx_local committed in_tx (tx_query_text drv (analyze_sql sql))"
  by (rule tx_contract_local(2) [OF assms]) (simp add: analyze_sql_def has_prefix_def)

lemma tx_contract_begin:
  assumes "tx_contract drv committed in_tx" and "begin_tx drv ro w = (r, w')"
  shows "committed w' = committed w" and "in_tx w' = (is_ok r \<or> in_tx w)"
proof -
  have "committed (snd (begin_tx drv ro w)) = committed w \<and>
      in_tx (snd (begin_tx drv ro w)) = (is_ok (fst (begin_tx drv ro w)) \<or> in_tx w)"
    using assms(1) unfolding tx_contract_def by blast
  with assms(2) show "committed w' = committed w" and "in_tx w' = (is_ok r \<or> in_tx w)" by simp_all
qed

lemma tx_contract_acquire:
  assumes "tx_contract drv committed in_tx" and "pool_acquire drv w = (r, w')"
  shows "committed w' = committed w \<and> in_tx w' = in_tx w"
proof -
  have "neutral committed in_tx (\<lambda>w. snd (pool_acquire drv w))"
    using assms(1) unfolding tx_contract_def by blast
  then show ?thesis using assms(2) by (rule neutralD)
qed

lemma tx_contract_end:
  assumes "tx_contract drv committed in_tx"
  shows "committed (conn_release drv w) = committed w" "in_tx (conn_release drv w) = in_tx w"
    "committed (tx_rollback drv w) = committed w" "\<not> in_tx (tx_rollback drv w)"
  using assms unfolding tx_contract_def neutral_def by blast+

lemma in_transaction_harmless:
  assumes c: "tx_contract drv committed in_tx" and b: "tx_local committed in_tx body"
  shows "harmless committed in_tx (in_transaction drv ro t body)"
  unfolding harmless_def
proof (intro allI impI)
  fix w
  assume out: "\<not> in_tx w"
  note ends = tx_contract_end [OF c]
  obtain r1 w1 where a: "pool_acquire drv w = (r1, w1)" by fastforce
  with out c have w1: "committed w1 = committed w" "\<not> in_tx w1"
    by (auto dest: tx_contract_acquire)
  obtain r2 w2 where s2: "begin_tx drv ro w1 = (r2, w2)" by fastforce
  note w2 = tx_contract_begin [OF c s2]
  obtain r3 w3 where s3: "tx_exec drv (set_local_timeout t) w2 = (r3, w3)" by fastforce
  obtain r4 w4 where s4: "body w3 = (r4, w4)" by fastforce
  have w3: "committed w3 = committed w2 \<and> in_tx w3" if "is_ok r2"
    using that w2 by (intro tx_localD [OF tx_contract_timeout [OF c] s3]) simp
  have w4: "committed w4 = committed w3" if "is_ok r2"
    using tx_localD [OF b s4] w3 [OF that] by simp
  show "committed (snd (in_transaction drv ro t body w)) = committed w \<and>
      \<not> in_tx (snd (in_transaction drv ro t body w))"
    using w1 w2 w3 w4
    by (cases r1; cases r2; cases r3)
      (simp_all add: in_transaction_def a s2 s3 s4 ends)
qed

lemma pg_readOnly_harmless:
  assumes "tx_contract drv committed in_tx" and "tx_local committed in_tx fn"
  shows "harmless committed in_tx (pg_readOnly drv tim fn)"
  using in_transaction_harmless [OF assms] by (simp add: pg_readOnly_def harmless_def)

lemma pg_WithHypotheticalIndex_harmless:
  assumes c: "tx_contract drv committed in_tx" and ddl: "plain_statement ddl" and f: "tx_local committed in_tx fn"
  shows "harmless committed in_tx (pg_WithHypotheticalIndex drv tim ddl fn)"
proof -
  have "tx_local committed in_tx (\<lambda>w3. case tx_exec drv ddl w3 of
           (Inl err, w4) \<Rightarrow> (Inl (wrap_error ''create hypothetical index: '' err ''''), w4)
         | (Inr _, w4) \<Rightarrow> fn w4)"
    unfolding tx_local_def
  proof (intro allI impI)
    fix w
    assume i: "in_tx w"
    obtain r w' where s: "tx_exec drv ddl w = (r, w')" by fastforce
    have "committed w' = committed w \<and> in_tx w'"
      using tx_localD [OF tx_contract_local(1) [OF c ddl] s i] .
    with s f show "committed (snd (case tx_exec drv ddl w of
           (Inl err, w4) \<Rightarrow> (Inl (wrap_error ''create hypothetical index: '' err ''''), w4)
         | (Inr _, w4) \<Rightarrow> fn w4)) = committed w \<and>
        in_tx (snd (case tx_exec drv ddl w of
           (Inl err, w4) \<Rightarrow> (Inl (wrap_error ''create hypothetical index: '' err ''''), w4)
         | (Inr _, w4) \<Rightarrow> fn w4))"
      by (cases r) (simp_all add: tx_local_def)
  qed
  from in_transaction_harmless [OF c this] show ?thesis
    by (simp add: pg_WithHypotheticalIndex_def harmless_def)
qed

lemma timing_loop_harmless:
  assumes "harmless committed in_tx sample"
  shows "harmless committed in_tx (timing_loop js sample failed store warmup n i m ds)"
proof (induction n arbitrary: i m ds)
  case 0
  then show ?case by (simp add: harmless_def)
next
  case (Suc n)
  show ?case
    unfolding harmless_def
  proof (intro allI impI)
    fix w
    assume out: "\<not> in_tx w"
    obtain r w1 where s: "sample w = (r, w1)" by fastforce
    have w1: "committed w1 = committed w \<and> \<not> in_tx w1" using harmlessD [OF assms s out] .
    then have ih: "committed (snd (timing_loop js sample failed store warmup n i' m' ds' w1)) = committed w \<and>
        \<not> in_tx (snd (timing_loop js sample failed store warmup n i' m' ds' w1))" for i' m' ds'
      using Suc.IH [of i' m' ds'] by (simp add: harmless_def)
    show "committed (snd (timing_loop js sample failed store warmup (Suc n) i m ds w)) = committed w \<and>
        \<not> in_tx (snd (timing_loop js sample failed store warmup (Suc n) i m ds w))"
      using w1 by (auto simp: s ih split: sum.split prod.split)
  qed
qed

lemma timing_loop_tx_local:
  assumes "tx_local committed in_tx sample"
  shows "tx_local committed in_tx (timing_loop js sample failed store warmup n i m ds)"
  using timing_loop_harmless [of committed "\<lambda>w. \<not> in_tx w" sample js failed store warmup n i m ds] assms
  by (simp add: harmless_def tx_local_def)

lemma pg_Measure_harmless:
  assumes "tx_contract drv committed in_tx"
  shows "harmless committed in_tx (pg_Measure drv tim js sql runs)"
  unfolding pg_Measure_def Let_def
  by (rule timing_loop_harmless) (rule pg_readOnly_harmless [OF assms tx_contract_analyze [OF assms]])

lemma pg_MeasureInTx_local:
  assumes "tx_contract drv committed in_tx"
  shows "tx_local committed in_tx (pg_MeasureInTx drv tim js True sql runs)"
proof -
  have "pg_MeasureInTx drv tim js True sql runs =
      timing_loop js (tx_query_text drv (analyze_sql sql)) (\<lambda>err. err) store_run_in_tx (warmup_runs tim)
        (nat (effective_runs tim runs + warmup_runs tim)) 0 (new_measurement (effective_runs tim runs)) []"
    by (simp add: fun_eq_iff pg_MeasureInTx_def Let_def)
  then show ?thesis
    by (simp add: timing_loop_tx_local tx_contract_analyze [OF assms])
qed

lemma pg_Explain_harmless:
  assumes "tx_contract drv committed in_tx"
  shows "harmless committed in_tx (pg_Explain drv tim js sql)"
proof -
  have "has_prefix (''EXPLAIN (FORMAT JSON, COSTS, VERBOSE false) '' @ sql) ''EXPLAIN ''"
    by (simp add: has_prefix_def)
  from pg_readOnly_harmless [OF assms tx_contract_local(2) [OF assms this]]
  show ?thesis
    by (auto simp: harmless_def pg_Explain_def split: prod.split sum.split) (metis snd_conv)+
qed

lemma pg_Checksum_harmless:
  assumes "tx_contract drv committed in_tx"
  shows "harmless committed in_tx (pg_Checksum drv tim sql ord)"
  using pg_readOnly_harmless [OF assms tx_contract_local(3) [OF assms]]
  by (auto simp: harmless_def pg_Checksum_def split: prod.split sum.split) (metis snd_conv)+

end
