(* ===== verification/Engine_Postgres_Facts.thy ===== *)
theory Engine_Postgres_Facts
  imports Engine_Postgres
begin

text \<open>
  What the PostgreSQL engine's results mean: the schema of an introspection has one table per
  name whatever order Go's map iteration takes, column lists survive the trip through an index
  definition, and equal checksums are equal result sets.
\<close>

section \<open>Introspection\<close>

definition wf_table_map :: "table_map \<Rightarrow> bool" where
  "wf_table_map byName \<longleftrightarrow>
     distinct (map fst byName) \<and> (\<forall>(k, t) \<in> set byName. k = to_lower (tbl_name t))"

lemma set_alist_update: "(k', v') \<in> set (AList.update k v al) \<Longrightarrow> (k' = k \<and> v' = v) \<or> (k', v') \<in> set al"
  by (induction al) (auto split: if_splits)

lemma wf_table_map_update:
  "wf_table_map byName \<Longrightarrow> k = to_lower (tbl_name t) \<Longrightarrow> wf_table_map (AList.update k t byName)"
  by (auto simp: wf_table_map_def distinct_update dest!: set_alist_update)

lemma wf_table_map_lookup: "wf_table_map byName \<Longrightarrow> map_of byName k = Some t \<Longrightarrow> k = to_lower (tbl_name t)"
  by (auto simp: wf_table_map_def dest!: map_of_SomeD)

lemma wf_table_map_steps:
  assumes "wf_table_map byName"
  shows "wf_table_map (add_stats r1 byName)" "wf_table_map (add_column r2 byName)"
    "wf_table_map (add_index r3 byName)"
proof -
  show "wf_table_map (add_stats r1 byName)"
    using assms by (auto simp: add_stats_def intro!: wf_table_map_update split: prod.split)
  show "wf_table_map (add_column r2 byName)"
    using assms
    by (auto simp: add_column_def Let_def intro!: wf_table_map_update dest: wf_table_map_lookup
        split: prod.split option.split)
  show "wf_table_map (add_index r3 byName)"
    using assms
    by (auto simp: add_index_def Let_def intro!: wf_table_map_update dest: wf_table_map_lookup
        split: prod.split option.split)
qed

lemma pg_Introspect_tables:
  assumes "pg_Introspect drv tabs w = (Inr s, w')"
  shows "\<exists>byName. wf_table_map byName \<and> tables s = sort_key tbl_name (map snd byName)"
proof (cases "tabs = []")
  case True
  with assms show ?thesis by (intro exI [of _ "[]"]) (auto simp: pg_Introspect_def wf_table_map_def)
next
  case False
  have wf0: "wf_table_map []" by (simp add: wf_table_map_def)
  note scans = scan_rows_invariant [where P = wf_table_map]
  from assms False obtain rows1 fin1 b1 rows2 fin2 b2 rows3 fin3 b3
    where scanned: "scan_rows add_stats rows1 fin1 [] = Inr b1" "scan_rows add_column rows2 fin2 b1 = Inr b2"
        "scan_rows add_index rows3 fin3 b2 = Inr b3"
      and out: "s = \<lparr>tables = sort_key tbl_name (map snd b3)\<rparr>"
    unfolding pg_Introspect_def Let_def by (auto split: prod.splits sum.splits)
  have "wf_table_map b1" using wf_table_map_steps(1) wf0 scanned(1) by (rule scans)
  with wf_table_map_steps(2) have "wf_table_map b2" using scanned(2) by (rule scans)
  with wf_table_map_steps(3) have "wf_table_map b3" using scanned(3) by (rule scans)
  with out show ?thesis by auto
qed

lemma distinct_map_sort_key: "distinct (map f (sort_key g xs)) = distinct (map f xs)"
  by (simp add: distinct_map)

lemma wf_table_map_names: "wf_table_map byName \<Longrightarrow> distinct (map (\<lambda>t. to_lower (tbl_name t)) (map snd byName))"
proof -
  assume "wf_table_map byName"
  then have "distinct (map fst byName)" and "map fst byName = map (\<lambda>t. to_lower (tbl_name t)) (map snd byName)"
    by (auto simp: wf_table_map_def)
  then show ?thesis by simp
qed

text \<open>Sorting by a key that tells all elements apart has one result, stable or not.\<close>

lemma sort_key_unique:
  assumes "mset ys = mset xs" and "sorted (map f ys)" and "distinct (map f xs)"
  shows "sort_key f xs = ys"
proof (rule properties_for_sort_key [OF assms(1) _ assms(2)])
  fix k
  assume k: "k \<in> set ys"
  have inj: "inj_on f (set xs)" using assms(3) by (simp add: distinct_map)
  have sets: "set ys = set xs" using assms(1) by (rule mset_eq_setD)
  have fil: "filter (\<lambda>x. f k = f x) zs = filter (\<lambda>x. x = k) zs" if "set zs = set xs" for zs
    using inj k sets that by (intro filter_cong) (auto dest: inj_onD)
  have dist: "distinct xs" "distinct ys"
    using assms(1,3) by (auto simp: distinct_map dest: mset_eq_imp_distinct_iff)
  have one: "filter (\<lambda>x. x = k) zs = [k]" if "distinct zs" "k \<in> set zs" for zs
    using that by (induction zs) (auto simp: filter_empty_conv)
  show "filter (\<lambda>x. f k = f x) ys = filter (\<lambda>x. f k = f x) xs"
    using fil [of ys] fil [of xs] one [of ys] one [of xs] k sets dist by simp
qed

section \<open>Index definitions\<close>

text \<open>A column as it stands in a plain index definition.\<close>

definition plain_column :: "string \<Rightarrow> bool" where
  "plain_column c \<longleftrightarrow> c \<noteq> '''' \<and>
     list_all (\<lambda>x. \<not> is_space x \<and> x \<noteq> CHR ''('' \<and> x \<noteq> CHR '')'' \<and> x \<noteq> CHR '','' \<and> x \<noteq> CHR 0x22) c"

lemma plain_columnD:
  assumes "plain_column c"
  shows "c \<noteq> []" "CHR '' '' \<notin> set c" "CHR ''('' \<notin> set c" "CHR '')'' \<notin> set c" "CHR '','' \<notin> set c"
    "CHR 0x22 \<notin> set c" "\<not> is_space (hd c)" "\<not> is_space (last c)"
proof -
  have ne: "c \<noteq> []"
    and all: "\<And>x. x \<in> set c \<Longrightarrow> \<not> is_space x \<and> x \<noteq> CHR ''('' \<and> x \<noteq> CHR '')'' \<and> x \<noteq> CHR '','' \<and> x \<noteq> CHR 0x22"
    using assms by (simp_all add: plain_column_def list_all_iff)
  have "is_space (CHR '' '')" by (simp add: is_space_def char_code_def)
  with all show "CHR '' '' \<notin> set c" by blast
  from all show "CHR ''('' \<notin> set c" "CHR '')'' \<notin> set c" "CHR '','' \<notin> set c" "CHR 0x22 \<notin> set c"
    by blast+
  from all [OF hd_in_set [OF ne]] all [OF last_in_set [OF ne]]
  show "\<not> is_space (hd c)" "\<not> is_space (last c)" by simp_all
  show "c \<noteq> []" by (rule ne)
qed

lemma trim_space_plain: "plain_column c \<Longrightarrow> trim_space c = c"
  by (simp add: trim_space_def trim_func_def trim_left_id trim_right_id plain_columnD)

lemma trim_space_blank: "is_space x \<Longrightarrow> trim_space (x # c) = trim_space c"
  by (simp add: trim_space_def trim_func_def trim_left_def)

lemma trim_suffix_plain: "CHR '' '' \<notin> set c \<Longrightarrow> CHR '' '' \<in> set p \<Longrightarrow> trim_suffix c p = c"
proof -
  assume "CHR '' '' \<notin> set c" "CHR '' '' \<in> set p"
  then have "\<not> has_suffix c p" unfolding has_suffix_iff by auto
  then show ?thesis by (simp add: trim_suffix_def)
qed

lemma strip_order_plain:
  "plain_column c \<Longrightarrow> strip_order c = c" "plain_column c \<Longrightarrow> strip_order (CHR '' '' # c) = c"
proof -
  have sp: "is_space (CHR '' '')" by (simp add: is_space_def char_code_def)
  assume c: "plain_column c"
  note facts = trim_space_plain [OF c] trim_suffix_plain [OF plain_columnD(2) [OF c]]
  show "strip_order c = c" by (simp add: strip_order_def order_suffixes_def facts)
  show "strip_order (CHR '' '' # c) = c"
    by (simp add: strip_order_def order_suffixes_def trim_space_blank [OF sp] facts)
qed

lemma trim_cutset_plain: "plain_column c \<Longrightarrow> trim_cutset c [CHR 0x22] = c"
proof -
  assume c: "plain_column c"
  have "hd c \<noteq> CHR 0x22" "last c \<noteq> CHR 0x22"
    using plain_columnD(1,6) [OF c] by (metis hd_in_set, metis last_in_set)
  then show ?thesis
    by (simp add: trim_cutset_def trim_func_def trim_left_id trim_right_id)
qed

lemma split_loop_plain:
  "list_all (\<lambda>x. x \<noteq> CHR ''('' \<and> x \<noteq> CHR '')'' \<and> x \<noteq> CHR '','') c \<Longrightarrow>
     split_loop 0 cur (c @ rest) =
       (case rest of [] \<Rightarrow> [cur @ c] | _ \<Rightarrow> split_loop 0 (cur @ c) rest)"
  by (induction c arbitrary: cur) (auto split: list.split)

lemma split_columns:
  "cols \<noteq> [] \<Longrightarrow> list_all plain_column cols \<Longrightarrow> list_all (\<lambda>x. x = CHR '' '') cur \<Longrightarrow>
     split_loop 0 cur (str_join cols '', '') =
       (cur @ hd cols) # map (\<lambda>c. CHR '' '' # c) (tl cols)"
proof (induction cols "'', ''" arbitrary: cur rule: str_join.induct)
  case (2 x)
  then show ?case using split_loop_plain [of x cur "[]"] by (auto simp: plain_column_def list_all_iff)
next
  case (3 x y ys)
  have x: "list_all (\<lambda>x. x \<noteq> CHR ''('' \<and> x \<noteq> CHR '')'' \<and> x \<noteq> CHR '','') x"
    using 3(3) by (auto simp: plain_column_def list_all_iff)
  have "split_loop 0 cur (str_join (x # y # ys) '', '') =
      (cur @ x) # split_loop 0 ['' '' ! 0] (str_join (y # ys) '', '')"
    using split_loop_plain [OF x, of cur "'', '' @ str_join (y # ys) '', ''"] by simp
  also have "split_loop 0 ['' '' ! 0] (str_join (y # ys) '', '') =
      (['' '' ! 0] @ y) # map (\<lambda>c. CHR '' '' # c) ys"
    using 3(1) [of "['' '' ! 0]"] 3(3) by simp
  finally show ?case by simp
qed simp

lemma closing_paren_plain:
  "CHR ''('' \<notin> set s \<Longrightarrow> CHR '')'' \<notin> set s \<Longrightarrow> closing_paren 1 i (s @ CHR '')'' # rest) = Some (i + length s)"
  by (induction s arbitrary: i) auto

lemma str_index_first: "c \<notin> set pre \<Longrightarrow> str_index (pre @ c # rest) [c] = Some (length pre)"
  by (induction pre) (auto simp: has_prefix_def)

lemma str_join_chars: "c \<in> set (str_join cols sep) \<Longrightarrow> c \<in> set sep \<or> (\<exists>x \<in> set cols. c \<in> set x)"
  by (induction cols sep rule: str_join.induct) auto

lemma indexColumns_plain:
  assumes pre: "CHR ''('' \<notin> set pre" and cols: "cols \<noteq> []" "list_all plain_column cols"
  shows "indexColumns (pre @ ''('' @ str_join cols '', '' @ '')'' @ rest) = cols"
proof -
  let ?j = "str_join cols '', ''"
  have free: "CHR ''('' \<notin> set ?j" "CHR '')'' \<notin> set ?j"
    using cols(2) by (auto dest!: str_join_chars simp: list_all_iff dest: plain_columnD)
  have opn: "str_index (pre @ ''('' @ ?j @ '')'' @ rest) ''('' = Some (length pre)"
    using str_index_first [OF pre] by simp
  have cl: "closing_paren 0 (length pre) (''('' @ ?j @ '')'' @ rest) = Some (length pre + 1 + length ?j)"
    using closing_paren_plain [OF free, of "Suc (length pre)" rest] by simp
  have parts: "splitTopLevel ?j = hd cols # map (\<lambda>c. CHR '' '' # c) (tl cols)"
    using split_columns [OF cols, of "[]"] by (simp add: splitTopLevel_def)
  have "map strip_order (splitTopLevel ?j) = cols"
    using cols parts by (cases cols) (auto simp: strip_order_plain list_all_iff intro!: map_idI)
  moreover have "filter (\<lambda>p. p \<noteq> '''') cols = cols"
    using cols(2) by (auto simp: filter_id_conv list_all_iff dest: plain_columnD)
  moreover have "map (\<lambda>p. trim_cutset p [CHR 0x22]) cols = cols"
    using cols(2) by (intro map_idI) (auto simp: trim_cutset_plain list_all_iff)
  moreover have "indexColumns (pre @ ''('' @ ?j @ '')'' @ rest) =
      map (\<lambda>p. trim_cutset p [CHR 0x22]) (filter (\<lambda>p. p \<noteq> '''') (map strip_order (splitTopLevel ?j)))"
    unfolding indexColumns_def opn option.case using cl by simp
  ultimately show ?thesis by simp
qed

section \<open>Checksums identify result sets\<close>

text \<open>
  What the statement of \<open>checksum_sql\<close> computes from the rows of the inner query, given as
  texts: the hashes of the rows, aggregated in the order of the hashes or in row order, and hashed
  again; \<open>COALESCE\<close> supplies a word where \<open>string_agg\<close> has no row.
\<close>

definition checksum_of_rows :: "(string \<Rightarrow> string) \<Rightarrow> bool \<Rightarrow> string list \<Rightarrow> string" where
  "checksum_of_rows md5 ord rows =
     (if rows = [] then ''empty''
      else md5 (concat (if ord then map md5 rows else sort (map md5 rows))))"

text \<open>
  The two queries, as PostgreSQL reads them: the rows are hashed one by one, and the hashes are joined in
  the order of the result or in their own order.
\<close>

definition result_order_query :: "string \<Rightarrow> string" where
  "result_order_query sql =
     ''SELECT COALESCE(md5(string_agg(h, '' @ quotes2 @ '' ORDER BY rn)), 'empty'), count(*)'' @ sql_break @
     ''FROM (SELECT row_number() OVER () AS rn, h FROM (SELECT md5(t::text) AS h FROM ('' @ sql @ '') t) x) y''"

definition hash_order_query :: "string \<Rightarrow> string" where
  "hash_order_query sql =
     ''SELECT COALESCE(md5(string_agg(h, '' @ quotes2 @ '' ORDER BY h)), 'empty'), count(*)'' @ sql_break @
     ''FROM (SELECT md5(t::text) AS h FROM ('' @ sql @ '') t) z''"

lemma checksum_sql_queries: "checksum_sql sql ord = (if ord then result_order_query sql else hash_order_query sql)"
  by (simp add: checksum_sql_def result_order_query_def hash_order_query_def Let_def)

text \<open>
  The server evaluates that statement as documented: \<open>rows_of db sql\<close> are the rows of \<open>sql\<close> on the
  database content \<open>db\<close>.
\<close>

definition checksum_contract ::
    "'w pgx \<Rightarrow> ('w \<Rightarrow> 'db) \<Rightarrow> (string \<Rightarrow> string) \<Rightarrow> ('db \<Rightarrow> string \<Rightarrow> string list) \<Rightarrow> bool" where
  "checksum_contract drv committed md5 rows_of \<longleftrightarrow>
     (\<forall>sql ord w h n w'.
        tx_query_hash drv (if ord then result_order_query sql else hash_order_query sql) w = (Inr (h, n), w') \<longrightarrow>
        h = checksum_of_rows md5 ord (rows_of (committed w) sql) \<and>
        n = int (length (rows_of (committed w) sql)))"

text \<open>The texts that the checksum of a list of rows feeds to the hash.\<close>

definition hashed_texts :: "(string \<Rightarrow> string) \<Rightarrow> bool \<Rightarrow> string list \<Rightarrow> string set" where
  "hashed_texts md5 ord rows =
     insert (concat (if ord then map md5 rows else sort (map md5 rows))) (set rows)"

lemma concat_fixed_length:
  assumes "\<forall>x \<in> set xs. length x = k" and "\<forall>y \<in> set ys. length y = k" and "0 < k"
    and "concat xs = concat ys"
  shows "xs = ys"
  using assms(1,2,4)
proof (induction xs arbitrary: ys)
  case Nil
  then show ?case using assms(3) by (cases ys) auto
next
  case (Cons x xs)
  have "x \<noteq> []" using Cons.prems(1) assms(3) by auto
  then have "ys \<noteq> []" using Cons.prems(3) by auto
  then obtain y ys' where ys: "ys = y # ys'" by (cases ys) simp_all
  have "length x = length y" using Cons.prems(1,2) ys by simp
  moreover have "x @ concat xs = y @ concat ys'" using Cons.prems(3) ys by simp
  ultimately have split: "x = y" "concat xs = concat ys'" by simp_all
  have "xs = ys'" using Cons.prems(1,2) ys by (intro Cons.IH [OF _ _ split(2)]) simp_all
  with split(1) ys show ?case by simp
qed

lemma map_inj_on_eq: "inj_on f S \<Longrightarrow> set xs \<subseteq> S \<Longrightarrow> map (inv_into S f) (map f xs) = xs"
  by (induction xs) auto

lemma checksum_of_rows_inj:
  assumes len: "\<forall>s. length (md5 s) = 32"
    and inj: "inj_on md5 (hashed_texts md5 ord r1 \<union> hashed_texts md5 ord r2)"
    and eq: "checksum_of_rows md5 ord r1 = checksum_of_rows md5 ord r2"
  shows "mset r1 = mset r2 \<and> (ord \<longrightarrow> r1 = r2)"
proof (cases "r1 = [] \<or> r2 = []")
  case True
  have "md5 s \<noteq> ''empty''" for s using len [rule_format, of s] by auto
  then show ?thesis using True eq by (auto simp: checksum_of_rows_def split: if_splits)
next
  case False
  let ?agg = "\<lambda>r. if ord then map md5 r else sort (map md5 r)"
  let ?S = "hashed_texts md5 ord r1 \<union> hashed_texts md5 ord r2"
  have "md5 (concat (?agg r1)) = md5 (concat (?agg r2))"
    using eq False by (simp add: checksum_of_rows_def)
  then have "concat (?agg r1) = concat (?agg r2)"
    by (rule inj_onD [OF inj]) (simp_all add: hashed_texts_def)
  then have agg: "?agg r1 = ?agg r2"
    using len by (intro concat_fixed_length [of _ 32]) auto
  have sub: "set r1 \<subseteq> ?S" "set r2 \<subseteq> ?S" by (auto simp: hashed_texts_def)
  note undo = map_inj_on_eq [OF inj sub(1)] map_inj_on_eq [OF inj sub(2)]
  have "mset (map md5 r1) = mset (map md5 r2)"
    using agg by (cases ord) (simp, metis mset_sort)
  then have "mset (map (inv_into ?S md5) (map md5 r1)) = mset (map (inv_into ?S md5) (map md5 r2))"
    by (simp only: mset_map)
  with undo have "mset r1 = mset r2" by simp
  moreover have "r1 = r2" if ord
    using agg that undo by (simp split: if_splits)
  ultimately show ?thesis by blast
qed

lemma in_transaction_Inr:
  assumes c: "tx_contract drv committed in_tx" and out: "\<not> in_tx w"
    and r: "in_transaction drv ro t body w = (Inr x, w')"
  shows "\<exists>w3 w4. body w3 = (Inr x, w4) \<and> committed w3 = committed w \<and> in_tx w3"
proof -
  obtain r1 w1 where s1: "pool_acquire drv w = (r1, w1)" by fastforce
  obtain r2 w2 where s2: "begin_tx drv ro w1 = (r2, w2)" by fastforce
  obtain r3 w3 where s3: "tx_exec drv (set_local_timeout t) w2 = (r3, w3)" by fastforce
  obtain r4 w4 where s4: "body w3 = (r4, w4)" by fastforce
  from r have ok: "is_ok r1 \<and> is_ok r2 \<and> is_ok r3 \<and> r4 = Inr x"
    by (cases r1; cases r2; cases r3) (auto simp: in_transaction_def s1 s2 s3 s4)
  have "committed w1 = committed w" using tx_contract_acquire [OF c s1] by simp
  moreover have "committed w2 = committed w1" "in_tx w2" using tx_contract_begin [OF c s2] ok by simp_all
  moreover have "committed w3 = committed w2 \<and> in_tx w3"
    by (rule tx_localD [OF tx_contract_timeout [OF c] s3]) fact
  ultimately show ?thesis using s4 ok by auto
qed

lemma pg_Checksum_rows:
  assumes "tx_contract drv committed in_tx" and cc: "checksum_contract drv committed md5 rows_of"
    and "\<not> in_tx w" and r: "pg_Checksum drv tim sql ord w = (Inr a, w')"
  shows "hash a = checksum_of_rows md5 ord (rows_of (committed w) sql)"
    and "row_count a = int (length (rows_of (committed w) sql))" and "ordered a = ord"
proof -
  from r obtain h n where ro: "in_transaction drv True (milliseconds (statement_timeout tim))
        (tx_query_hash drv (checksum_sql sql ord)) w = (Inr (h, n), w')"
      and a: "a = \<lparr>hash = h, row_count = n, ordered = ord\<rparr>"
    by (auto simp: pg_Checksum_def pg_readOnly_def split: prod.splits sum.splits)
  from in_transaction_Inr [OF assms(1,3) ro] obtain w3 w4
    where q: "tx_query_hash drv (checksum_sql sql ord) w3 = (Inr (h, n), w4)"
      and db: "committed w3 = committed w" by blast
  show "hash a = checksum_of_rows md5 ord (rows_of (committed w) sql)"
    "row_count a = int (length (rows_of (committed w) sql))"
    using cc q db a unfolding checksum_contract_def checksum_sql_queries by fastforce+
  show "ordered a = ord" using a by simp
qed

section \<open>Timing\<close>

text \<open>\<open>n\<close> samples in a row, when none of them fails: the execution times they report.\<close>

fun sample_times :: "json_lib \<Rightarrow> ('w \<Rightarrow> string result \<times> 'w) \<Rightarrow> nat \<Rightarrow> 'w \<Rightarrow> (real list \<times> 'w) option" where
  "sample_times js sample 0 w = Some ([], w)"
| "sample_times js sample (Suc n) w =
     (case sample w of
        (Inl err, w1) \<Rightarrow> None
      | (Inr raw, w1) \<Rightarrow>
          case parsePlan js raw of
            Inl err \<Rightarrow> None
          | Inr p \<Rightarrow> map_option (\<lambda>(ts, w2). (fst (planExecutionStats js raw) # ts, w2))
                       (sample_times js sample n w1))"

lemma timing_loop_times:
  assumes "sample_times js sample n w = Some (ts, w')"
    and "\<And>p x st m. median_ms (store p x st m) = median_ms m \<and> timed_out (store p x st m) = timed_out m \<and>
           m_runs (store p x st m) = m_runs m"
  shows "\<exists>m2. timing_loop js sample failed store warmup n i m ds w =
      (Inr (set_stats (ds @ drop (nat (warmup - i)) ts) m2), w') \<and>
      median_ms m2 = median_ms m \<and> timed_out m2 = timed_out m \<and> m_runs m2 = m_runs m"
  using assms(1)
proof (induction n arbitrary: i m ds w ts)
  case 0
  then show ?case by (intro exI [of _ m]) simp
next
  case (Suc n)
  from Suc.prems obtain raw w1 p ts' where s: "sample w = (Inr raw, w1)" "parsePlan js raw = Inr p"
      "sample_times js sample n w1 = Some (ts', w')" "ts = fst (planExecutionStats js raw) # ts'"
    by (auto split: prod.splits sum.splits)
  obtain exec planning stats where e: "planExecutionStats js raw = (exec, planning, stats)"
    by (cases "planExecutionStats js raw") auto
  show ?case
  proof (cases "i < warmup")
    case True
    then have "nat (warmup - i) = Suc (nat (warmup - (i + 1)))" by simp
    with Suc.IH [OF s(3), of "i + 1" m ds] True show ?thesis by (simp add: s e)
  next
    case False
    then have "nat (warmup - i) = 0" "nat (warmup - (i + 1)) = 0" by simp_all
    with Suc.IH [OF s(3), of "i + 1" "store p planning stats m" "ds @ [exec]"] False assms(2)
    show ?thesis by (simp add: s e)
  qed
qed

section \<open>Harmlessness of the whole engine\<close>

lemma tx_contract_queries:
  assumes "tx_contract drv committed in_tx"
  shows "neutral committed in_tx (\<lambda>w. snd (query_table_stats drv a w))"
    "neutral committed in_tx (\<lambda>w. snd (query_columns drv a w))"
    "neutral committed in_tx (\<lambda>w. snd (query_indexes drv a w))"
  using assms unfolding tx_contract_def by blast+

lemma pg_Introspect_neutral:
  assumes c: "tx_contract drv committed in_tx"
  shows "neutral committed in_tx (\<lambda>w. snd (pg_Introspect drv tabs w))"
  unfolding neutral_def
proof
  fix w
  let ?bare = "map (after_last (CHR ''.'')) tabs"
  obtain q1 w1 where s1: "query_table_stats drv ?bare w = (q1, w1)" by fastforce
  obtain q2 w2 where s2: "query_columns drv ?bare w1 = (q2, w2)" by fastforce
  obtain q3 w3 where s3: "query_indexes drv ?bare w2 = (q3, w3)" by fastforce
  note n = neutralD [OF tx_contract_queries(1) [OF c] s1] neutralD [OF tx_contract_queries(2) [OF c] s2]
    neutralD [OF tx_contract_queries(3) [OF c] s3]
  have "snd (pg_Introspect drv tabs w) \<in> {w, w1, w2, w3}"
    by (simp add: pg_Introspect_def Let_def s1 s2 s3 split: prod.split sum.split)
  with n show "committed (snd (pg_Introspect drv tabs w)) = committed w \<and>
      in_tx (snd (pg_Introspect drv tabs w)) = in_tx w"
    by auto
qed

section \<open>Properties\<close>

text \<open>A server for the witnesses: the state is the transaction flag and the number of plans served.\<close>

definition demo_pgx :: "(bool \<times> nat) pgx" where
  "demo_pgx =
     \<lparr>pool_acquire = \<lambda>w. (Inr (), w), conn_release = \<lambda>w. w,
      begin_tx = \<lambda>ro w. (Inr (), (True, snd w)), tx_exec = \<lambda>s w. (Inr (), w),
      tx_query_text = \<lambda>s w. (Inr (replicate (snd w) (CHR ''x'')), (fst w, snd w + 1)),
      tx_query_hash = \<lambda>s w. (Inr (replicate 32 (CHR ''b''), 1), w),
      tx_rollback = \<lambda>w. (False, snd w),
      query_table_stats = \<lambda>a w. (Inr ([Inr (''Users'', ''public'', 5, 8192, 1, 0),
        Inr (''orders'', ''public'', 7, 8192, 1, 0)], None), w),
      query_columns = \<lambda>a w. (Inr ([], None), w), query_indexes = \<lambda>a w. (Inr ([], None), w)\<rparr>"

definition demo_json :: json_lib where
  "demo_json =
     \<lparr>json_value = \<lambda>s. Inr (JArr [JObj [(''Plan'', JObj []), (''Execution Time'', JNum (real (length s)))]]),
      show_number = \<lambda>r. ''''\<rparr>"

definition demo_timings :: timings where
  "demo_timings = \<lparr>statement_timeout = 1000000000, t_runs = 3, warmup_runs = 1\<rparr>"

lemma demo_contract: "tx_contract demo_pgx (\<lambda>_. ()) fst"
  by (simp add: tx_contract_def neutral_def tx_local_def demo_pgx_def)

text \<open>
  Everything the optimizer runs on a PostgreSQL target leaves the database as it was and
  leaves no transaction open, whatever the statement is and whether it succeeds or fails: an
  introspection, an EXPLAIN, a timed measurement and a checksum.
\<close>
theorem pg_engine_harmless:
  assumes "tx_contract drv committed in_tx"
  shows "harmless committed in_tx (pg_Introspect drv tabs) \<and>
    harmless committed in_tx (pg_Explain drv tim js sql) \<and>
    harmless committed in_tx (pg_Measure drv tim js sql runs) \<and>
    harmless committed in_tx (pg_Checksum drv tim sql ord)"
  using pg_Introspect_neutral [OF assms] pg_Explain_harmless [OF assms] pg_Measure_harmless [OF assms]
    pg_Checksum_harmless [OF assms]
  by (simp add: neutral_def harmless_def)

lemma pg_engine_harmless_witness:
  "harmless (\<lambda>_. ()) fst (pg_Measure demo_pgx demo_timings demo_json ''SELECT 1'' 3)"
  using pg_engine_harmless [OF demo_contract] by blast

text \<open>
  An index experiment on PostgreSQL is rolled back. Whatever the index and whether the
  experiment succeeds, times out or fails at any step, after \<open>WithHypotheticalIndex\<close> with a
  measurement on the transaction that holds the index the committed database is the one before and
  no transaction is open.
\<close>
theorem pg_experiment_rolled_back:
  assumes "tx_contract drv committed in_tx" and "plain_statement ddl"
  shows "harmless committed in_tx
    (pg_WithHypotheticalIndex drv tim ddl (pg_MeasureInTx drv tim js True sql runs))"
  by (rule pg_WithHypotheticalIndex_harmless [OF assms pg_MeasureInTx_local [OF assms(1)]])

lemma pg_experiment_rolled_back_witness:
  "harmless (\<lambda>_. ()) fst (pg_WithHypotheticalIndex demo_pgx demo_timings ''CREATE INDEX i ON t (a)''
     (pg_MeasureInTx demo_pgx demo_timings demo_json True ''SELECT 1'' 3))"
  by (rule pg_experiment_rolled_back [OF demo_contract]) (simp add: plain_statement_def has_prefix_def)

text \<open>
  Equal checksums are equal results. On the same database content, when the hash does not
  collide on the texts at hand, two statements whose PostgreSQL checksums compare equal return the
  same rows with the same multiplicities, and in the same order when the ordered rule is used.
\<close>
theorem pg_Checksum_sound:
  assumes tx: "tx_contract drv committed in_tx" and cc: "checksum_contract drv committed md5 rows_of"
    and len: "\<forall>s. length (md5 s) = 32"
    and out: "\<not> in_tx w1" "\<not> in_tx w2" and db: "committed w1 = committed w2"
    and c1: "pg_Checksum drv tim q1 ord w1 = (Inr a, w1')"
    and c2: "pg_Checksum drv tim q2 ord w2 = (Inr b, w2')"
    and eq: "result_hash_equal (Some a) (Some b)"
    and inj: "inj_on md5 (hashed_texts md5 ord (rows_of (committed w1) q1) \<union>
      hashed_texts md5 ord (rows_of (committed w1) q2))"
  shows "mset (rows_of (committed w1) q1) = mset (rows_of (committed w1) q2) \<and>
    (ord \<longrightarrow> rows_of (committed w1) q1 = rows_of (committed w1) q2)"
proof (rule checksum_of_rows_inj [OF len inj])
  have "hash a = hash b" using eq by (simp add: result_hash_equal_def)
  then show "checksum_of_rows md5 ord (rows_of (committed w1) q1) = checksum_of_rows md5 ord (rows_of (committed w1) q2)"
    using pg_Checksum_rows(1) [OF tx cc out(1) c1] pg_Checksum_rows(1) [OF tx cc out(2) c2] db by simp
qed

definition demo_md5 :: "string \<Rightarrow> string" where
  "demo_md5 s = replicate 32 (if s = ''(1)'' then CHR ''a'' else CHR ''b'')"

text \<open>The rows of a statement on the server of the witnesses: one row, whatever is asked.\<close>

definition demo_rows :: "unit \<Rightarrow> string \<Rightarrow> string list" where
  "demo_rows db sql = [''(1)'']"

lemma demo_checksum_contract: "checksum_contract demo_pgx (\<lambda>_. ()) demo_md5 demo_rows"
proof -
  have "demo_md5 ''(1)'' \<noteq> ''(1)''" by (auto simp: demo_md5_def dest: arg_cong [of _ _ length])
  then show ?thesis
    by (auto simp: checksum_contract_def demo_pgx_def checksum_of_rows_def demo_md5_def demo_rows_def)
qed

lemma pg_Checksum_sound_witness:
  "\<exists>h. pg_Checksum demo_pgx demo_timings ''SELECT 1'' True (False, 0) = (Inr h, (False, 0)) \<and>
     pg_Checksum demo_pgx demo_timings ''SELECT 2 - 1'' True (False, 0) = (Inr h, (False, 0)) \<and>
     demo_rows () ''SELECT 1'' = demo_rows () ''SELECT 2 - 1''"
proof -
  let ?h = "\<lparr>hash = replicate 32 (CHR ''b''), row_count = 1, ordered = True\<rparr>"
  have run: "pg_Checksum demo_pgx demo_timings q True (False, 0) = (Inr ?h, (False, 0))" for q
    by (simp add: pg_Checksum_def pg_readOnly_def in_transaction_def demo_pgx_def)
  have "inj_on demo_md5 (hashed_texts demo_md5 True (demo_rows () ''SELECT 1'') \<union>
      hashed_texts demo_md5 True (demo_rows () ''SELECT 2 - 1''))"
    by (simp add: hashed_texts_def demo_md5_def demo_rows_def)
  then have "demo_rows () ''SELECT 1'' = demo_rows () ''SELECT 2 - 1''"
    using pg_Checksum_sound [OF demo_contract demo_checksum_contract _ _ _ _ run [of "''SELECT 1''"] run [of "''SELECT 2 - 1''"]]
    by (simp add: demo_md5_def result_hash_equal_def)
  then show ?thesis using run by blast
qed

text \<open>
  C25: the reported timing of a PostgreSQL measurement is the median of the runs after the warm-up.
  When no run fails, \<open>Measure\<close> returns without the timeout flag, the warm-up samples are dropped,
  exactly the effective number of runs is kept, and median, extremes and spread are those of the
  kept execution times.
\<close>
theorem pg_Measure_median:
  assumes "sample_times js (pg_readOnly drv tim (tx_query_text drv (analyze_sql sql)))
      (nat (effective_runs tim runs + warmup_runs tim)) w = Some (ts, w')"
    and "0 \<le> warmup_runs tim" and "kept = drop (nat (warmup_runs tim)) ts" and "kept \<noteq> []"
  shows "\<exists>m. pg_Measure drv tim js sql runs w = (Inr m, w') \<and> \<not> timed_out m \<and>
    m_runs m = effective_runs tim runs \<and> median_ms m = median (sort kept) \<and>
    min_ms m = sort kept ! 0 \<and> max_ms m = sort kept ! (length kept - 1) \<and>
    spread_ms m = max_ms m - min_ms m"
proof -
  have store: "median_ms (store_run p x st m) = median_ms m \<and> timed_out (store_run p x st m) = timed_out m \<and>
      m_runs (store_run p x st m) = m_runs m" for p x st m
    by (simp add: store_run_def)
  from timing_loop_times [OF assms(1), of store_run "\<lambda>err. wrap_error ''explain analyze: '' err ''''"
      "warmup_runs tim" 0 "new_measurement (effective_runs tim runs)" "[]", OF store]
  show ?thesis
    using assms(3,4) by (auto simp: pg_Measure_def Let_def set_stats_def new_measurement_def)
qed

lemma demo_samples:
  "sample_times demo_json (pg_readOnly demo_pgx tim (tx_query_text demo_pgx q)) n (False, k)
     = Some (map real [k..<k + n], (False, k + n))"
proof (induction n arbitrary: k)
  case (Suc n)
  have run: "pg_readOnly demo_pgx tim (tx_query_text demo_pgx q) (False, k)
      = (Inr (replicate k (CHR ''x'')), (False, Suc k))"
    by (simp add: pg_readOnly_def in_transaction_def demo_pgx_def)
  have doc: "unmarshal_docs demo_json raw
      = Inr [[(''Plan'', JObj []), (''Execution Time'', JNum (real (length raw)))]]" for raw
    by (simp add: demo_json_def unmarshal_docs_def decode_object_def)
  have "\<exists>p. parsePlan demo_json raw = Inr p" for raw
    by (simp add: parsePlan_def doc get_map_def case_prod_beta Let_def)
  then obtain p where parse: "parsePlan demo_json (replicate k (CHR ''x'')) = Inr p" by blast
  have time: "fst (planExecutionStats demo_json raw) = real (length raw)" for raw
    by (simp add: planExecutionStats_def doc get_map_def floatField_def)
  have "[k..<k + Suc n] = k # [Suc k..<Suc k + n]" by (simp add: upt_conv_Cons)
  then show ?case using Suc.IH [of "Suc k"] by (simp add: run parse time del: upt_Suc)
qed simp

lemma pg_Measure_median_witness:
  "\<exists>m. pg_Measure demo_pgx demo_timings demo_json ''SELECT 1'' 0 (False, 5) = (Inr m, (False, 9)) \<and>
     \<not> timed_out m \<and> median_ms m = 7"
proof -
  have "sample_times demo_json (pg_readOnly demo_pgx demo_timings (tx_query_text demo_pgx (analyze_sql ''SELECT 1'')))
      (nat (effective_runs demo_timings 0 + warmup_runs demo_timings)) (False, 5)
    = Some ([5, 6, 7, 8], (False, 9))"
    by (simp add: demo_samples) (simp add: effective_runs_def demo_timings_def upt_rec)
  from pg_Measure_median [OF this _ refl] show ?thesis
    by (auto simp: demo_timings_def median_def)
qed

text \<open>
  C38: an introspected schema names each table once, however it is spelled, sorted by name, and does
  not depend on the order in which Go's map iteration yields the tables: sorting any other
  enumeration of them gives the same list.
\<close>
theorem pg_Introspect_canonical:
  assumes "pg_Introspect drv tabs w = (Inr s, w')"
  shows "sorted (map tbl_name (tables s)) \<and> distinct (map (\<lambda>t. to_lower (tbl_name t)) (tables s)) \<and>
    (\<forall>ts. mset ts = mset (tables s) \<longrightarrow> sort_key tbl_name ts = tables s)"
proof -
  obtain byName where wf: "wf_table_map byName" and ts: "tables s = sort_key tbl_name (map snd byName)"
    using pg_Introspect_tables [OF assms] by blast
  have dist: "distinct (map (\<lambda>t. to_lower (tbl_name t)) (tables s))"
    using wf_table_map_names [OF wf] by (simp only: ts distinct_map_sort_key)
  have "distinct (map tbl_name ys)" if "mset ys = mset (tables s)" for ys
  proof -
    have "distinct (tables s)" "inj_on (\<lambda>t. to_lower (tbl_name t)) (set (tables s))"
      using dist by (simp_all add: distinct_map)
    moreover have "set ys = set (tables s)" using that by (rule mset_eq_setD)
    moreover have "distinct ys" using that \<open>distinct (tables s)\<close> by (metis mset_eq_imp_distinct_iff)
    ultimately show ?thesis by (auto simp: distinct_map inj_on_def)
  qed
  then show ?thesis
    using dist by (auto simp: ts intro!: sort_key_unique)
qed

lemma pg_Introspect_canonical_witness:
  "\<exists>s. pg_Introspect demo_pgx [''orders'', ''users''] (False, 0) = (Inr s, (False, 0)) \<and>
     length (tables s) = 2 \<and> sorted (map tbl_name (tables s))"
proof -
  have "\<exists>s. pg_Introspect demo_pgx [''orders'', ''users''] (False, 0) = (Inr s, (False, 0)) \<and> length (tables s) = 2"
    by (simp add: pg_Introspect_def demo_pgx_def add_stats_def to_lower_def lower_char_def char_code_def)
  then obtain s where run: "pg_Introspect demo_pgx [''orders'', ''users''] (False, 0) = (Inr s, (False, 0))"
    and two: "length (tables s) = 2" by blast
  show ?thesis using pg_Introspect_canonical [OF run] run two by blast
qed

text \<open>
  C39: column names survive the trip through an index definition: from \<open>pre (c1, c2, ...) rest\<close>,
  the shape \<open>pg_get_indexdef\<close> prints for plain columns, \<open>indexColumns\<close> reads back exactly the
  columns, in order.
\<close>
theorem indexColumns_roundtrip:
  assumes "CHR ''('' \<notin> set pre" and "cols \<noteq> []" and "list_all plain_column cols"
  shows "indexColumns (pre @ ''('' @ str_join cols '', '' @ '')'' @ rest) = cols"
  by (rule indexColumns_plain [OF assms])

lemma indexColumns_roundtrip_witness:
  "indexColumns (''CREATE INDEX i ON t USING btree '' @ ''('' @ str_join [''a'', ''b''] '', '' @ '')'' @ '' WHERE c > 0'')
     = [''a'', ''b'']"
  by (rule indexColumns_roundtrip) (simp_all add: plain_column_def is_space_def char_code_def)

text \<open>
  A descending column that also names its null order keeps \<open>DESC\<close> in its name: the suffixes are
  removed in a fixed order, and \<open>NULLS LAST\<close> comes off after \<open>DESC\<close> was looked for, while a bare
  \<open>DESC\<close> is removed.
\<close>
theorem indexColumns_desc_nulls:
  "indexColumns ''CREATE INDEX i ON t USING btree (a DESC NULLS LAST)'' = [''a DESC''] \<and>
   indexColumns ''CREATE INDEX i ON t USING btree (a DESC)'' = [''a'']"
  by code_simp

end
