(* ===== verification/Engine_MySQL.thy ===== *)
theory Engine_MySQL
  imports Plan_Json Db_Effects "HOL-Library.AList"
begin

text \<open>
  \<open>internal/engine/mysql.go\<close>: introspection, plans, wall-clock measurement, checksums and the
  refusal of index experiments on MySQL.  \<open>database/sql\<close> with the MySQL driver and the server
  behind it is the parameter \<open>sqldb\<close>, its operations on the outside state \<open>'w\<close>.
\<close>

section \<open>The driver\<close>

type_synonym my_table_row = "string \<times> string \<times> int \<times> int"
type_synonym my_column_row = "string \<times> string \<times> string \<times> string"

text \<open>Table, index, column (\<open>sql.NullString\<close>), position, non-unique flag, cardinality.\<close>

type_synonym my_index_row = "string \<times> string \<times> string option \<times> int \<times> int \<times> int"

record 'w sqldb =
  db_begin :: "'w \<Rightarrow> unit result \<times> 'w"  \<comment> \<open>READ ONLY, REPEATABLE READ\<close>
  db_rollback :: "'w \<Rightarrow> unit result \<times> 'w"
  db_exec :: "string \<Rightarrow> 'w \<Rightarrow> unit result \<times> 'w"
  db_tables :: "string list \<Rightarrow> 'w \<Rightarrow> my_table_row rowset result \<times> 'w"
  db_columns :: "string list \<Rightarrow> 'w \<Rightarrow> my_column_row rowset result \<times> 'w"
  db_indexes :: "string list \<Rightarrow> 'w \<Rightarrow> my_index_row rowset result \<times> 'w"
  db_text :: "string \<Rightarrow> 'w \<Rightarrow> string result \<times> 'w"
  db_hash :: "string \<Rightarrow> 'w \<Rightarrow> (string \<times> int) result \<times> 'w"
  db_int :: "string \<Rightarrow> 'w \<Rightarrow> int result \<times> 'w"
  db_drain :: "string \<Rightarrow> 'w \<Rightarrow> (nat \<times> go_error option) result \<times> 'w"
  db_names :: "string \<Rightarrow> 'w \<Rightarrow> string list result \<times> 'w"
  db_warnings :: "'w \<Rightarrow> (string \<times> int \<times> string) result list result \<times> 'w"
  db_clock :: "'w \<Rightarrow> int"  \<comment> \<open>microseconds\<close>

section \<open>The read-only transaction\<close>

text \<open>
  The deferred second \<open>Rollback\<close> of a transaction that was rolled back is a no-op of
  \<open>database/sql\<close>; on the error paths its own error is dropped.
\<close>

definition my_abort :: "'w sqldb \<Rightarrow> 'w \<Rightarrow> 'w" where
  "my_abort db w = snd (db_rollback db w)"

definition max_time_sql :: "int \<Rightarrow> string" where
  "max_time_sql ms = ''SET SESSION max_execution_time = '' @ show_int ms"

definition my_set_timeout :: "'w sqldb \<Rightarrow> timings \<Rightarrow> 'w \<Rightarrow> unit result \<times> 'w" where
  "my_set_timeout db tim =
     (let ms = milliseconds (statement_timeout tim) in
      if ms > 0 then map_err (\<lambda>err. wrap_error ''set max_execution_time: '' err '''') (db_exec db (max_time_sql ms))
      else return_io ())"

definition my_readOnly :: "'w sqldb \<Rightarrow> timings \<Rightarrow> ('w \<Rightarrow> 'a result \<times> 'w) \<Rightarrow> 'w \<Rightarrow> 'a result \<times> 'w" where
  "my_readOnly db tim fn w =
     (case db_begin db w of
        (Inl err, w1) \<Rightarrow> (Inl err, w1)
      | (Inr _, w1) \<Rightarrow>
          case my_set_timeout db tim w1 of
            (Inl err, w2) \<Rightarrow> (Inl err, my_abort db w2)
          | (Inr _, w2) \<Rightarrow>
              case fn w2 of
                (Inl err, w3) \<Rightarrow> (Inl err, my_abort db w3)
              | (Inr x, w3) \<Rightarrow>
                  case db_rollback db w3 of
                    (Inl err, w4) \<Rightarrow> (Inl err, w4)
                  | (Inr _, w4) \<Rightarrow> (Inr x, w4))"

section \<open>Introspection\<close>

type_synonym my_tables = "(string \<times> table) list"
type_synonym my_indexes = "((string \<times> string) \<times> index) list"

definition my_add_table :: "my_table_row \<Rightarrow> my_tables \<times> string list \<Rightarrow> my_tables \<times> string list" where
  "my_add_table row st =
     (case row of (sch, name, est, bytes) \<Rightarrow>
        (AList.update (to_lower name)
          \<lparr>tbl_schema = sch, tbl_name = name, columns = [], indexes = [], row_estimate = est,
           total_bytes = bytes, seq_scans = 0, idx_scans = 0\<rparr> (fst st),
         snd st @ [to_lower name]))"

definition my_add_column :: "my_column_row \<Rightarrow> my_tables \<Rightarrow> my_tables" where
  "my_add_column row byName =
     (case row of (tab, name, typ, yes_no) \<Rightarrow>
        case map_of byName (to_lower tab) of
          Some t \<Rightarrow> AList.update (to_lower tab)
            (t\<lparr>columns := columns t @ [\<lparr>col_name = name, col_type = typ,
                 nullable = equal_fold yes_no ''YES'', null_fraction = 0, distinct_values = 0\<rparr>]\<rparr>) byName
        | None \<Rightarrow> byName)"

definition set_distinct :: "string \<Rightarrow> int \<Rightarrow> column \<Rightarrow> column" where
  "set_distinct c cardinality col =
     (if equal_fold (col_name col) c then col\<lparr>distinct_values := of_int cardinality\<rparr> else col)"

text \<open>\<open>acc\<close> with \<open>seen\<close>: an association list in order of the first insertion.\<close>

definition my_add_index_row :: "my_index_row \<Rightarrow> my_tables \<times> my_indexes \<Rightarrow> my_tables \<times> my_indexes" where
  "my_add_index_row row st =
     (case (row, st) of ((tab, idx, col, seq, nonUnique, cardinality), (byName, acc)) \<Rightarrow>
        let k = (to_lower tab, idx);
            acc1 = (if map_of acc k = None
                    then AList.update k \<lparr>idx_name = idx, definition_of = '''', idx_columns = [],
                      is_unique = (nonUnique = 0), is_primary = equal_fold idx ''PRIMARY'',
                      size_bytes = 0, scans = 0\<rparr> acc else acc);
            acc2 = (case col of Some c \<Rightarrow>
                      AList.map_entry k (\<lambda>i. i\<lparr>idx_columns := idx_columns i @ [c]\<rparr>) acc1
                    | None \<Rightarrow> acc1);
            byName1 = (if seq = 1 \<and> cardinality > 0
              then (case col of
                      Some c \<Rightarrow> AList.map_entry (fst k)
                        (\<lambda>t. t\<lparr>columns := map (set_distinct c cardinality) (columns t)\<rparr>) byName
                    | None \<Rightarrow> byName)
              else byName)
        in (byName1, acc2))"

definition my_finish_index :: "(string \<times> string) \<times> index \<Rightarrow> my_tables \<Rightarrow> my_tables" where
  "my_finish_index e byName =
     (case e of (k, i) \<Rightarrow>
        let i' = i\<lparr>definition_of := idx_name i @ '' ('' @ str_join (idx_columns i) '', '' @ '')''\<rparr>
        in AList.map_entry (fst k) (\<lambda>t. t\<lparr>indexes := indexes t @ [i']\<rparr>) byName)"

text \<open>A query and its scan loop, as the body of a read-only transaction.\<close>

definition my_scan ::
    "('w \<Rightarrow> 'a rowset result \<times> 'w) \<Rightarrow> ('a \<Rightarrow> 's \<Rightarrow> 's) \<Rightarrow> 's \<Rightarrow> 'w \<Rightarrow> 's result \<times> 'w" where
  "my_scan qry step s = bind_io qry (\<lambda>(rows, fin) w. (scan_rows step rows fin s, w))"

definition wrapping :: "string \<Rightarrow> go_error \<Rightarrow> go_error" where
  "wrapping msg err = wrap_error msg err ''''"

definition my_bare_name :: "string \<Rightarrow> string" where
  "my_bare_name t = trim_cutset (after_last (CHR ''.'') t) [CHR 0x60]"

definition my_Introspect :: "'w sqldb \<Rightarrow> timings \<Rightarrow> string list \<Rightarrow> 'w \<Rightarrow> schema result \<times> 'w" where
  "my_Introspect db tim tabs =
     (if tabs = [] then return_io \<lparr>tables = []\<rparr>
      else let args = map my_bare_name tabs in
        bind_io (map_err (wrapping ''introspect tables: '')
            (my_readOnly db tim (my_scan (db_tables db args) my_add_table ([], []))))
          (\<lambda>(byName, order).
            if byName = [] then return_io \<lparr>tables = []\<rparr>
            else bind_io (map_err (wrapping ''introspect columns: '')
                (my_readOnly db tim (my_scan (db_columns db args) my_add_column byName)))
              (\<lambda>byName1. bind_io (map_err (wrapping ''introspect indexes: '')
                  (my_readOnly db tim (bind_io (my_scan (db_indexes db args) my_add_index_row (byName1, []))
                    (\<lambda>(byName2, acc). return_io (fold my_finish_index acc byName2)))))
                (\<lambda>byName3. return_io \<lparr>tables = map (\<lambda>n. the (map_of byName3 n)) order\<rparr>))))"

section \<open>Plans\<close>

definition mysqlPlanChildKeys :: "string list" where
  "mysqlPlanChildKeys =
     [''ordering_operation'', ''grouping_operation'', ''duplicates_removal'', ''nested_loop'',
      ''materialized_from_subquery'', ''attached_subqueries'', ''optimized_away_subqueries'',
      ''union_result'', ''query_specifications'', ''query_block'', ''table'']"

text \<open>What the code reads off a table object and writes for it.\<close>

definition my_table_rows :: "json_map \<Rightarrow> real" where
  "my_table_rows ti =
     (let rows = floatField ti ''rows_examined_per_scan''
      in if rows = 0 then floatField ti ''rows_produced_per_join'' else rows)"

definition my_table_label :: "json_map \<Rightarrow> string" where
  "my_table_label ti =
     (let access = get_string ti ''access_type'' in if access = '''' then ''table'' else access)"

definition my_full_scan :: "json_map \<Rightarrow> string list" where
  "my_full_scan ti =
     (if equal_fold (get_string ti ''access_type'') ''ALL'' \<and> get_string ti ''table_name'' \<noteq> ''''
      then [get_string ti ''table_name''] else [])"

definition my_table_text :: "nat \<Rightarrow> json_map \<Rightarrow> string" where
  "my_table_text depth ti =
     (let key = get_string ti ''key'' in
      indent_of depth @ my_table_label ti @ '' on '' @ get_string ti ''table_name'' @
      (if key \<noteq> '''' then '' using '' @ key else '''') @
      '' (rows='' @ show_fixed 0 (my_table_rows ti) @ '')'' @ nl)"

definition my_note_table :: "nat \<Rightarrow> json_map \<Rightarrow> string \<times> plan \<Rightarrow> string \<times> plan" where
  "my_note_table depth ti s =
     (fst s @ my_table_text depth ti,
      (snd s)\<lparr>estimated_rows := estimated_rows (snd s) + my_table_rows ti,
        node_types := node_types (snd s) @ [my_table_label ti],
        seq_scan_tables := seq_scan_tables (snd s) @ my_full_scan ti\<rparr>)"

lemma get_items_size: "map_of m k = Some (JArr xs) \<Longrightarrow> size_list size xs < object_size m"
  by (drule map_of_size) (simp add: object_size_def)

lemma get_child_size: "map_of m k = Some (JObj n) \<Longrightarrow> object_size n < object_size m"
  by (drule map_of_size) (simp add: object_size_def)

function walkMySQLPlan :: "json_map \<Rightarrow> nat \<Rightarrow> string \<times> plan \<Rightarrow> string \<times> plan"
  and walk_my_keys :: "json_map \<Rightarrow> string list \<Rightarrow> nat \<Rightarrow> string \<times> plan \<Rightarrow> string \<times> plan"
  and walk_my_items :: "json list \<Rightarrow> nat \<Rightarrow> string \<times> plan \<Rightarrow> string \<times> plan" where
  "walkMySQLPlan node depth s =
     (case get_map node ''table'' of
        Some ti \<Rightarrow> walkMySQLPlan ti (depth + 1) (my_note_table depth ti s)
      | None \<Rightarrow> walk_my_keys node mysqlPlanChildKeys depth s)"
| "walk_my_keys node [] depth s = s"
| "walk_my_keys node (key # keys) depth s =
     walk_my_keys node keys depth
       (case map_of node key of
          Some (JObj child) \<Rightarrow>
            (if key \<noteq> ''cost_info'' \<and> key \<noteq> ''table''
             then walkMySQLPlan child (depth + 1) (fst s @ indent_of depth @ key @ nl, snd s) else s)
        | Some (JArr items) \<Rightarrow> walk_my_items items depth s
        | _ \<Rightarrow> s)"
| "walk_my_items [] depth s = s"
| "walk_my_items (it # items) depth s =
     walk_my_items items depth (case it of JObj m \<Rightarrow> walkMySQLPlan m (depth + 1) s | _ \<Rightarrow> s)"
  by pat_completeness auto
termination
  by (relation "measures
      [\<lambda>x. case x of Inl (n, _) \<Rightarrow> object_size n | Inr (Inl (n, _)) \<Rightarrow> object_size n
         | Inr (Inr (js, _)) \<Rightarrow> size_list size js,
       \<lambda>x. case x of Inl _ \<Rightarrow> 100 | Inr (Inl (n, keys, _)) \<Rightarrow> length keys | Inr (Inr (js, _)) \<Rightarrow> length js]")
    (auto simp: mysqlPlanChildKeys_def object_size_def [symmetric]
      dest: get_map_size get_items_size get_child_size)

declare walkMySQLPlan.simps [simp del] walk_my_keys.simps [simp del] walk_my_items.simps [simp del]

definition parseMySQLPlan :: "json_lib \<Rightarrow> string \<Rightarrow> plan result" where
  "parseMySQLPlan js raw =
     (case unmarshal_object js raw of
        Inl err \<Rightarrow> Inl (wrapping ''parse plan: '' err)
      | Inr doc \<Rightarrow>
          let qb = (case get_map doc ''query_block'' of Some m \<Rightarrow> m | None \<Rightarrow> doc);
              p = \<lparr>raw_plan = raw, plan_summary = '''',
                   total_cost = (case get_map qb ''cost_info'' of
                      Some ci \<Rightarrow> floatField ci ''query_cost'' | None \<Rightarrow> 0),
                   startup_cost = 0, estimated_rows = 0, node_types = [], seq_scan_tables = []\<rparr>;
              (b, p1) = walkMySQLPlan qb 0 ('''', p)
          in Inr (p1\<lparr>plan_summary := trim_right_newlines b\<rparr>))"

definition my_explain_sql :: "string \<Rightarrow> string" where
  "my_explain_sql sql = ''EXPLAIN FORMAT=JSON '' @ sql"

definition my_Explain :: "'w sqldb \<Rightarrow> timings \<Rightarrow> json_lib \<Rightarrow> string \<Rightarrow> 'w \<Rightarrow> plan result \<times> 'w" where
  "my_Explain db tim js sql =
     bind_io (map_err (wrapping ''explain: '') (my_readOnly db tim (db_text db (my_explain_sql sql))))
       (\<lambda>raw w. (parseMySQLPlan js raw, w))"

section \<open>Measurement\<close>

definition isMySQLTimeout :: "go_error \<Rightarrow> bool" where
  "isMySQLTimeout err =
     (if errors_is err DeadlineExceeded then True
      else let s = to_lower (err_text err)
           in str_contains s ''query execution was interrupted'' \<or>
              str_contains s ''maximum statement execution time'')"

text \<open>The clock is read before the query and after the last row; the rows are counted.\<close>

definition my_timeOnce :: "'w sqldb \<Rightarrow> timings \<Rightarrow> string \<Rightarrow> 'w \<Rightarrow> (real \<times> nat) result \<times> 'w" where
  "my_timeOnce db tim sql =
     my_readOnly db tim (\<lambda>w.
       case db_drain db sql w of
         (Inl err, w1) \<Rightarrow> (Inl err, w1)
       | (Inr (n, Some err), w1) \<Rightarrow> (Inl err, w1)
       | (Inr (n, None), w1) \<Rightarrow> (Inr (real_of_int (db_clock db w1 - db_clock db w) / 1000, n), w1))"

fun my_timing_loop :: "('w \<Rightarrow> (real \<times> nat) result \<times> 'w) \<Rightarrow> int \<Rightarrow> nat \<Rightarrow> int \<Rightarrow> measurement \<Rightarrow> real list \<Rightarrow>
    'w \<Rightarrow> measurement result \<times> 'w" where
  "my_timing_loop sample warmup 0 i m durations w = (Inr (set_stats durations m), w)"
| "my_timing_loop sample warmup (Suc n) i m durations w =
     (case sample w of
        (Inl err, w1) \<Rightarrow> if isMySQLTimeout err then (Inr (m\<lparr>timed_out := True\<rparr>), w1) else (Inl err, w1)
      | (Inr (elapsed, rowCount), w1) \<Rightarrow>
          if i < warmup then my_timing_loop sample warmup n (i + 1) m durations w1
          else my_timing_loop sample warmup n (i + 1) (m\<lparr>actual_rows := real rowCount\<rparr>)
                 (durations @ [elapsed]) w1)"

definition my_Measure :: "'w sqldb \<Rightarrow> timings \<Rightarrow> json_lib \<Rightarrow> string \<Rightarrow> int \<Rightarrow> 'w \<Rightarrow> measurement result \<times> 'w" where
  "my_Measure db tim js sql runs =
     (let runs' = (if runs \<le> 0 then t_runs tim else runs) in
      bind_io (my_Explain db tim js sql)
        (\<lambda>p. my_timing_loop (my_timeOnce db tim sql) (warmup_runs tim) (nat (warmup_runs tim + runs')) 0
               ((new_measurement runs')\<lparr>m_plan := Some p\<rparr>) []))"

definition my_WithHypotheticalIndex :: "string \<Rightarrow> 'w \<Rightarrow> 'a result \<times> 'w" where
  "my_WithHypotheticalIndex indexDDL w =
     (Inl (GoError (''this engine cannot measure hypothetical indexes: MySQL commits DDL implicitly, so ''
        @ go_quote indexDDL @ '' cannot be rolled back'') [ErrNoHypotheticalIndexes]), w)"

section \<open>Checksums\<close>

definition backquote :: string where "backquote = [CHR 0x60]"
definition empty_literal :: string where "empty_literal = [CHR 0x27, CHR 0x27]"

text \<open>The SQL literals that Go's \<open>"'\\0NULL\\0'"\<close> and \<open>"'\\x1f'"\<close> are.\<close>

definition null_literal :: string where
  "null_literal = [CHR 0x27, CHR 0x5C] @ ''0NULL'' @ [CHR 0x5C] @ ''0'' @ [CHR 0x27]"

definition separator_literal :: string where
  "separator_literal = [CHR 0x27, CHR 0x5C] @ ''x1f'' @ [CHR 0x27]"

definition my_column_part :: "string \<Rightarrow> string" where
  "my_column_part c =
     ''COALESCE(CAST('' @ backquote @ replace_all c backquote (backquote @ backquote) @ backquote @
     '' AS CHAR), '' @ null_literal @ '')''"

definition my_row_hash :: "string list \<Rightarrow> string" where
  "my_row_hash cols =
     ''MD5(CONCAT_WS('' @ separator_literal @ '', '' @ str_join (map my_column_part cols) '', '' @ ''))''"

text \<open>
  What that expression hashes, for one row: the cells as text with the NULL sentinel for NULL, joined
  by the separator; both are the values of the two SQL literals above.
\<close>

definition my_row_text :: "string \<Rightarrow> string \<Rightarrow> string option list \<Rightarrow> string" where
  "my_row_text sep null_text cells =
     str_join (map (\<lambda>c. case c of Some s \<Rightarrow> s | None \<Rightarrow> null_text) cells) sep"

definition my_checksum_sql :: "string list \<Rightarrow> string \<Rightarrow> bool \<Rightarrow> string" where
  "my_checksum_sql cols qry ord =
     (if ord
      then ''SELECT COALESCE(MD5(GROUP_CONCAT(h ORDER BY rn SEPARATOR '' @ empty_literal @ '')), 'empty'), COUNT(*) '' @
           ''FROM (SELECT ROW_NUMBER() OVER () AS rn, '' @ my_row_hash cols @ '' AS h FROM ('' @ qry @ '') t) x''
      else ''SELECT COALESCE(MD5(GROUP_CONCAT(h ORDER BY h SEPARATOR '' @ empty_literal @ '')), 'empty'), COUNT(*) '' @
           ''FROM (SELECT '' @ my_row_hash cols @ '' AS h FROM ('' @ qry @ '') t) x'')"

text \<open>The loop over \<open>SHOW WARNINGS\<close>; a row that does not scan ends the guard without an error.\<close>

fun check_warnings :: "(string \<times> int \<times> string) result list \<Rightarrow> unit result" where
  "check_warnings [] = Inr ()"
| "check_warnings (Inl err # ws) = Inr ()"
| "check_warnings (Inr (level, code, msg) # ws) =
     (if code = 1260 then Inl (new_error (''checksum truncated by group_concat_max_len: '' @ msg))
      else check_warnings ws)"

definition truncation_guard :: "'w sqldb \<Rightarrow> 'w \<Rightarrow> unit result \<times> 'w" where
  "truncation_guard db w =
     (case db_int db ''SELECT @@warning_count'' w of
        (Inl err, w1) \<Rightarrow> (Inr (), w1)
      | (Inr warnings, w1) \<Rightarrow>
          if warnings > 0
          then (case db_warnings db w1 of
                  (Inl err, w2) \<Rightarrow> (Inr (), w2)
                | (Inr ws, w2) \<Rightarrow> (check_warnings ws, w2))
          else (Inr (), w1))"

definition raise_limit :: string where
  "raise_limit = ''SET SESSION group_concat_max_len = 18446744073709551615''"

definition columns_sql :: "string \<Rightarrow> string" where
  "columns_sql qry = ''SELECT * FROM ('' @ qry @ '') t LIMIT 0''"

definition my_resultColumns :: "'w sqldb \<Rightarrow> timings \<Rightarrow> string \<Rightarrow> 'w \<Rightarrow> string list result \<times> 'w" where
  "my_resultColumns db tim qry = my_readOnly db tim (db_names db (columns_sql qry))"

definition my_Checksum :: "'w sqldb \<Rightarrow> timings \<Rightarrow> string \<Rightarrow> bool \<Rightarrow> 'w \<Rightarrow> result_hash result \<times> 'w" where
  "my_Checksum db tim qry ord =
     bind_io (map_err (wrapping ''checksum: '') (my_resultColumns db tim qry))
       (\<lambda>cols. if cols = [] then (\<lambda>w. (Inl (new_error ''checksum: query produced no columns''), w))
        else map_err (wrapping ''checksum: '')
          (my_readOnly db tim
            (bind_io (map_err (wrapping ''raise group_concat_max_len: '') (db_exec db raise_limit))
              (\<lambda>_. bind_io (db_hash db (my_checksum_sql cols qry ord))
                (\<lambda>(h, n). bind_io (truncation_guard db)
                  (\<lambda>_. return_io \<lparr>hash = h, row_count = n, ordered = ord\<rparr>))))))"

section \<open>The engine value\<close>

text \<open>A \<open>*MySQL\<close> is not a \<open>*Postgres\<close>: the type assertion of the index experiments fails.\<close>

definition mysql_engine :: "'w sqldb \<Rightarrow> timings \<Rightarrow> json_lib \<Rightarrow> 'w engine" where
  "mysql_engine db tim js =
     \<lparr>eng_introspect = my_Introspect db tim,
      eng_explain = my_Explain db tim js,
      eng_measure = my_Measure db tim js,
      eng_checksum = my_Checksum db tim,
      eng_dialect = ''mysql'',
      as_postgres = None\<rparr>"

lemma my_timing_loop_consistent:
  "consistent_measurement m \<Longrightarrow> my_timing_loop sample warmup n i m ds w = (Inr m', w') \<Longrightarrow>
   consistent_measurement m'"
proof (induction n arbitrary: i m ds w)
  case 0
  then show ?case by (auto simp: consistent_set_stats)
next
  case (Suc n)
  have upd: "consistent_measurement (m\<lparr>timed_out := b\<rparr>)" "consistent_measurement (m\<lparr>actual_rows := r\<rparr>)" for b r
    using Suc.prems(1) by (simp_all add: consistent_measurement_def)
  from Suc.prems(2) show ?case
    using Suc.IH [OF Suc.prems(1)] Suc.IH [OF upd(2)]
    by (auto split: prod.splits sum.splits if_splits intro: upd)
qed

lemma my_Measure_consistent: "my_Measure db tim js sql runs w = (Inr m, w') \<Longrightarrow> consistent_measurement m"
proof -
  have start: "consistent_measurement ((new_measurement r)\<lparr>m_plan := p\<rparr>)" for r p
    by (simp add: consistent_measurement_def new_measurement_def)
  assume "my_Measure db tim js sql runs w = (Inr m, w')"
  then show ?thesis
    unfolding my_Measure_def Let_def bind_io_Inr by (blast intro: my_timing_loop_consistent [OF start])
qed

lemma readOnly_Inr:
  "my_readOnly db tim fn w = (Inr x, w') \<Longrightarrow> \<exists>w1 w2. fn w1 = (Inr x, w2)"
  by (auto simp: my_readOnly_def Let_def split: prod.splits sum.splits)

lemma my_Checksum_ordered: "my_Checksum db tim sql ord w = (Inr h, w') \<Longrightarrow> ordered h = ord"
  by (auto simp: my_Checksum_def bind_io_Inr split: if_splits dest!: readOnly_Inr)

interpretation mysql: target_engine "mysql_engine db tim js"
  by unfold_locales (auto simp: mysql_engine_def dest: my_Measure_consistent my_Checksum_ordered)

end
