(* ===== verification/Engine_MySQL_Facts.thy ===== *)
theory Engine_MySQL_Facts
  imports Engine_MySQL
begin

text \<open>
  What the MySQL engine's operations do: they leave the database as it was, a truncated checksum is
  an error, the plan walk reports every table access, and index columns keep their order.
\<close>

section \<open>Nothing is written\<close>

text \<open>
  The documented behaviour of MySQL and its driver that the code relies on for one statement \<open>sql\<close>
  inside a READ ONLY transaction: session settings, the catalogue queries and the statements built
  from \<open>sql\<close> change no committed content and do not end the transaction (the server refuses writes
  there); a rollback ends it, even when it reports an error.
\<close>

definition my_contract :: "'w sqldb \<Rightarrow> ('w \<Rightarrow> 'db) \<Rightarrow> ('w \<Rightarrow> bool) \<Rightarrow> string \<Rightarrow> bool" where
  "my_contract db committed in_tx sql \<longleftrightarrow>
     (\<forall>w. committed (snd (db_begin db w)) = committed w \<and>
        in_tx (snd (db_begin db w)) = (is_ok (fst (db_begin db w)) \<or> in_tx w)) \<and>
     (\<forall>w. committed (snd (db_rollback db w)) = committed w \<and> \<not> in_tx (snd (db_rollback db w))) \<and>
     (\<forall>s. has_prefix s ''SET SESSION '' \<longrightarrow> tx_local committed in_tx (db_exec db s)) \<and>
     (\<forall>a. tx_local committed in_tx (db_tables db a)) \<and>
     (\<forall>a. tx_local committed in_tx (db_columns db a)) \<and>
     (\<forall>a. tx_local committed in_tx (db_indexes db a)) \<and>
     tx_local committed in_tx (db_text db (my_explain_sql sql)) \<and>
     (\<forall>cols ord. tx_local committed in_tx (db_hash db (my_checksum_sql cols sql ord))) \<and>
     tx_local committed in_tx (db_int db ''SELECT @@warning_count'') \<and>
     tx_local committed in_tx (db_warnings db) \<and>
     tx_local committed in_tx (db_drain db sql) \<and>
     tx_local committed in_tx (db_names db (columns_sql sql))"

lemma my_contractD:
  assumes "my_contract db committed in_tx sql"
  shows my_contract_exec: "has_prefix s ''SET SESSION '' \<Longrightarrow> tx_local committed in_tx (db_exec db s)"
    and my_contract_tables: "tx_local committed in_tx (db_tables db a)"
    and my_contract_columns: "tx_local committed in_tx (db_columns db a)"
    and my_contract_indexes: "tx_local committed in_tx (db_indexes db a)"
    and my_contract_text: "tx_local committed in_tx (db_text db (my_explain_sql sql))"
    and my_contract_hash: "tx_local committed in_tx (db_hash db (my_checksum_sql cols sql ord))"
    and my_contract_int: "tx_local committed in_tx (db_int db ''SELECT @@warning_count'')"
    and my_contract_warnings: "tx_local committed in_tx (db_warnings db)"
    and my_contract_drain: "tx_local committed in_tx (db_drain db sql)"
    and my_contract_names: "tx_local committed in_tx (db_names db (columns_sql sql))"
    and my_contract_begin: "committed (snd (db_begin db w)) = committed w"
        "in_tx (snd (db_begin db w)) = (is_ok (fst (db_begin db w)) \<or> in_tx w)"
    and my_contract_rollback: "committed (snd (db_rollback db w)) = committed w"
        "\<not> in_tx (snd (db_rollback db w))"
  using assms unfolding my_contract_def by blast+

lemma my_set_timeout_local:
  assumes "my_contract db committed in_tx sql"
  shows "tx_local committed in_tx (my_set_timeout db tim)"
proof -
  have "has_prefix (max_time_sql ms) ''SET SESSION ''" for ms
    by (simp add: max_time_sql_def has_prefix_def)
  note exec = my_contract_exec [OF assms this]
  show ?thesis
    by (simp add: my_set_timeout_def Let_def tx_local_return tx_local_map_err exec)
qed

lemma my_readOnly_harmless:
  assumes c: "my_contract db committed in_tx sql" and b: "tx_local committed in_tx fn"
  shows "harmless committed in_tx (my_readOnly db tim fn)"
  unfolding harmless_def
proof (intro allI impI)
  fix w
  assume out: "\<not> in_tx w"
  obtain r1 w1 where s1: "db_begin db w = (r1, w1)" by fastforce
  obtain r2 w2 where s2: "my_set_timeout db tim w1 = (r2, w2)" by fastforce
  obtain r3 w3 where s3: "fn w2 = (r3, w3)" by fastforce
  obtain r4 w4 where s4: "db_rollback db w3 = (r4, w4)" by fastforce
  have w1: "committed w1 = committed w" "in_tx w1 = is_ok r1"
    using my_contract_begin [OF c, of w] s1 out by simp_all
  have w2: "committed w2 = committed w \<and> in_tx w2" if "is_ok r1"
    using tx_localD [OF my_set_timeout_local [OF c] s2] w1 that by simp
  have w3: "committed w3 = committed w" if "is_ok r1"
    using tx_localD [OF b s3] w2 that by simp
  have w4: "committed w4 = committed w3 \<and> \<not> in_tx w4"
    using my_contract_rollback [OF c, of w3] s4 by simp
  have undo: "committed (my_abort db v) = committed v \<and> \<not> in_tx (my_abort db v)" for v
    using my_contract_rollback [OF c] by (simp add: my_abort_def)
  show "committed (snd (my_readOnly db tim fn w)) = committed w \<and> \<not> in_tx (snd (my_readOnly db tim fn w))"
    using w1 w2 w3 w4 undo
    by (cases r1; cases r2; cases r3; cases r4) (simp_all add: my_readOnly_def s1 s2 s3 s4)
qed

lemma my_scan_local: "tx_local committed in_tx q \<Longrightarrow> tx_local committed in_tx (my_scan q step s)"
  unfolding my_scan_def by (rule tx_local_bind) (simp_all add: tx_local_def split_beta)

lemma truncation_guard_local:
  assumes "my_contract db committed in_tx sql"
  shows "tx_local committed in_tx (truncation_guard db)"
  unfolding tx_local_def
proof (intro allI impI)
  fix w
  assume i: "in_tx w"
  obtain r1 w1 where s1: "db_int db ''SELECT @@warning_count'' w = (r1, w1)" by fastforce
  obtain r2 w2 where s2: "db_warnings db w1 = (r2, w2)" by fastforce
  have w1: "committed w1 = committed w \<and> in_tx w1"
    using tx_localD [OF my_contract_int [OF assms] s1 i] .
  then have "committed w2 = committed w \<and> in_tx w2"
    using tx_localD [OF my_contract_warnings [OF assms] s2] by simp
  then show "committed (snd (truncation_guard db w)) = committed w \<and> in_tx (snd (truncation_guard db w))"
    using w1 by (simp add: truncation_guard_def s1 s2 split: sum.split)
qed

lemma my_Introspect_harmless:
  assumes "my_contract db committed in_tx sql"
  shows "harmless committed in_tx (my_Introspect db tim tabs)"
  unfolding my_Introspect_def Let_def
  by (auto simp: split_beta intro!: effect_intros my_readOnly_harmless [OF assms] my_scan_local
      my_contract_tables [OF assms] my_contract_columns [OF assms] my_contract_indexes [OF assms])

lemma my_Explain_harmless:
  assumes "my_contract db committed in_tx sql"
  shows "harmless committed in_tx (my_Explain db tim js sql)"
  unfolding my_Explain_def
  by (intro effect_intros my_readOnly_harmless [OF assms] my_contract_text [OF assms])

lemma my_timeOnce_harmless:
  assumes "my_contract db committed in_tx sql"
  shows "harmless committed in_tx (my_timeOnce db tim sql)"
  unfolding my_timeOnce_def
proof (rule my_readOnly_harmless [OF assms])
  show "tx_local committed in_tx (\<lambda>w. case db_drain db sql w of
         (Inl err, w1) \<Rightarrow> (Inl err, w1)
       | (Inr (n, Some err), w1) \<Rightarrow> (Inl err, w1)
       | (Inr (n, None), w1) \<Rightarrow> (Inr (real_of_int (db_clock db w1 - db_clock db w) / 1000, n), w1))"
    unfolding tx_local_def
    by (auto split: prod.split sum.split option.split dest: tx_localD [OF my_contract_drain [OF assms]])
qed

lemma my_timing_loop_harmless:
  assumes "harmless committed in_tx sample"
  shows "harmless committed in_tx (my_timing_loop sample warmup n i m ds)"
proof (induction n arbitrary: i m ds)
  case 0
  then show ?case by (simp add: harmless_def)
next
  case (Suc n)
  show ?case
    unfolding harmless_def
  proof (intro allI impI)
    fix w
    assume out: "\<not> in_tx w"
    obtain r w1 where s: "sample w = (r, w1)" by fastforce
    have w1: "committed w1 = committed w \<and> \<not> in_tx w1" using harmlessD [OF assms s out] .
    then have ih: "committed (snd (my_timing_loop sample warmup n i' m' ds' w1)) = committed w \<and>
        \<not> in_tx (snd (my_timing_loop sample warmup n i' m' ds' w1))" for i' m' ds'
      using Suc.IH [of i' m' ds'] by (simp add: harmless_def)
    show "committed (snd (my_timing_loop sample warmup (Suc n) i m ds w)) = committed w \<and>
        \<not> in_tx (snd (my_timing_loop sample warmup (Suc n) i m ds w))"
      using w1 by (auto simp: s ih split: sum.split prod.split)
  qed
qed

lemma my_Measure_harmless:
  assumes "my_contract db committed in_tx sql"
  shows "harmless committed in_tx (my_Measure db tim js sql runs)"
  unfolding my_Measure_def Let_def
  by (intro effect_intros my_Explain_harmless [OF assms] my_timing_loop_harmless my_timeOnce_harmless [OF assms])

lemma my_Checksum_harmless:
  assumes "my_contract db committed in_tx sql"
  shows "harmless committed in_tx (my_Checksum db tim sql ord)"
proof -
  have "has_prefix raise_limit ''SET SESSION ''" by (simp add: raise_limit_def has_prefix_def)
  note ops = my_contract_names [OF assms] my_contract_exec [OF assms this] my_contract_hash [OF assms]
    truncation_guard_local [OF assms]
  show ?thesis
    unfolding my_Checksum_def my_resultColumns_def
    by (auto simp: split_beta intro!: effect_intros my_readOnly_harmless [OF assms] ops)
qed

section \<open>Truncated checksums\<close>

lemma check_warnings_iff:
  "is_ok (check_warnings ws) \<longleftrightarrow> (\<forall>l m. Inr (l, 1260, m) \<notin> set (takeWhile is_ok ws))"
proof (induction ws rule: check_warnings.induct)
  case (3 level code msg ws)
  then show ?case by (cases "code = 1260") (simp, blast, auto)
qed auto

lemma truncation_guard_ok:
  assumes "truncation_guard db w = (Inr u, w')"
    and "db_int db ''SELECT @@warning_count'' w = (Inr n, w1)" and "n > 0"
    and "db_warnings db w1 = (Inr ws, w2)"
  shows "Inr (l, 1260, m) \<notin> set (takeWhile is_ok ws)"
proof -
  have "check_warnings ws = Inr u" using assms by (simp add: truncation_guard_def)
  then show ?thesis using check_warnings_iff [of ws] by (metis is_ok_simps(1))
qed

section \<open>Plans\<close>

text \<open>The table objects that the walk visits, in its order.\<close>

function my_plan_tables :: "json_map \<Rightarrow> json_map list"
  and my_key_tables :: "json_map \<Rightarrow> string list \<Rightarrow> json_map list"
  and my_item_tables :: "json list \<Rightarrow> json_map list" where
  "my_plan_tables node =
     (case get_map node ''table'' of
        Some ti \<Rightarrow> ti # my_plan_tables ti
      | None \<Rightarrow> my_key_tables node mysqlPlanChildKeys)"
| "my_key_tables node [] = []"
| "my_key_tables node (key # keys) =
     (case map_of node key of
        Some (JObj child) \<Rightarrow> (if key \<noteq> ''table'' then my_plan_tables child else [])
      | Some (JArr items) \<Rightarrow> my_item_tables items
      | _ \<Rightarrow> []) @ my_key_tables node keys"
| "my_item_tables [] = []"
| "my_item_tables (it # items) =
     (case it of JObj m \<Rightarrow> my_plan_tables m | _ \<Rightarrow> []) @ my_item_tables items"
  by pat_completeness auto
termination
  by (relation "measures
      [\<lambda>x. case x of Inl n \<Rightarrow> object_size n | Inr (Inl (n, _)) \<Rightarrow> object_size n
         | Inr (Inr js) \<Rightarrow> size_list size js,
       \<lambda>x. case x of Inl _ \<Rightarrow> 100 | Inr (Inl (n, keys)) \<Rightarrow> length keys | Inr (Inr js) \<Rightarrow> length js]")
    (auto simp: mysqlPlanChildKeys_def object_size_def [symmetric]
      dest: get_map_size get_items_size get_child_size)

declare my_plan_tables.simps [simp del] my_key_tables.simps [simp del] my_item_tables.simps [simp del]

definition reports :: "json_map list \<Rightarrow> plan \<Rightarrow> plan \<Rightarrow> bool" where
  "reports ts p p' \<longleftrightarrow>
     node_types p' = node_types p @ map my_table_label ts \<and>
     seq_scan_tables p' = seq_scan_tables p @ concat (map my_full_scan ts) \<and>
     estimated_rows p' = estimated_rows p + sum_list (map my_table_rows ts) \<and>
     total_cost p' = total_cost p"

lemma reports_Nil [simp]: "reports [] p p"
  by (simp add: reports_def)

lemma reports_append: "reports ts p p' \<Longrightarrow> reports us p' p'' \<Longrightarrow> reports (ts @ us) p p''"
  by (simp add: reports_def)

lemma reports_note: "reports ts (snd (my_note_table d ti s)) p' \<Longrightarrow> reports (ti # ts) (snd s) p'"
  by (simp add: reports_def my_note_table_def)

lemma walkMySQLPlan_reports:
  "reports (my_plan_tables n) (snd s) (snd (walkMySQLPlan n d s))"
  "set keys \<subseteq> set mysqlPlanChildKeys \<Longrightarrow> reports (my_key_tables n keys) (snd s) (snd (walk_my_keys n keys d s))"
  "reports (my_item_tables items) (snd s) (snd (walk_my_items items d s))"
proof (induction n d s and n keys d s and items d s rule: walkMySQLPlan_walk_my_keys_walk_my_items.induct)
  case (1 node depth s)
  then show ?case
    by (cases "get_map node ''table''")
      (simp_all add: walkMySQLPlan.simps my_plan_tables.simps reports_note)
next
  case (2 node depth s)
  then show ?case by (simp add: walk_my_keys.simps my_key_tables.simps)
next
  case (3 node key keys depth s)
  have cost: "key \<noteq> ''cost_info''" using "3.prems" by (auto simp: mysqlPlanChildKeys_def)
  let ?ts = "case map_of node key of
        Some (JObj child) \<Rightarrow> (if key \<noteq> ''table'' then my_plan_tables child else [])
      | Some (JArr items) \<Rightarrow> my_item_tables items | _ \<Rightarrow> []"
  let ?s = "case map_of node key of
          Some (JObj child) \<Rightarrow>
            (if key \<noteq> ''cost_info'' \<and> key \<noteq> ''table''
             then walkMySQLPlan child (depth + 1) (fst s @ indent_of depth @ key @ nl, snd s) else s)
        | Some (JArr items) \<Rightarrow> walk_my_items items depth s | _ \<Rightarrow> s"
  have "reports ?ts (snd s) (snd ?s)"
  proof (cases "map_of node key")
    case (Some v)
    then show ?thesis using 3 cost by (cases v) auto
  qed simp
  moreover have "reports (my_key_tables node keys) (snd ?s) (snd (walk_my_keys node keys depth ?s))"
    using 3 by simp
  ultimately show ?case
    unfolding walk_my_keys.simps(2) my_key_tables.simps(2) by (rule reports_append)
next
  case (4 depth s)
  then show ?case by (simp add: walk_my_items.simps my_item_tables.simps)
next
  case (5 it items depth s)
  let ?s = "case it of JObj m \<Rightarrow> walkMySQLPlan m (depth + 1) s | _ \<Rightarrow> s"
  have "reports (case it of JObj m \<Rightarrow> my_plan_tables m | _ \<Rightarrow> []) (snd s) (snd ?s)"
    using 5 by (cases it) simp_all
  moreover have "reports (my_item_tables items) (snd ?s) (snd (walk_my_items items depth ?s))"
    using 5 by simp
  ultimately show ?case
    unfolding walk_my_items.simps(2) my_item_tables.simps(2) by (rule reports_append)
qed

section \<open>Index columns\<close>

definition my_row_key :: "my_index_row \<Rightarrow> string \<times> string" where
  "my_row_key row = (case row of (tab, idx, _) \<Rightarrow> (to_lower tab, idx))"

definition my_row_column :: "my_index_row \<Rightarrow> string list" where
  "my_row_column row = (case row of (_, _, Some c, _) \<Rightarrow> [c] | _ \<Rightarrow> [])"

definition columns_of :: "(string \<times> string) \<Rightarrow> my_indexes \<Rightarrow> string list" where
  "columns_of k acc = (case map_of acc k of Some i \<Rightarrow> idx_columns i | None \<Rightarrow> [])"



lemma my_add_index_row_columns:
  "columns_of k (snd (my_add_index_row row st)) =
     columns_of k (snd st) @ (if my_row_key row = k then my_row_column row else [])"
proof -
  obtain tab idx col seq nu card byName acc where row: "row = (tab, idx, col, seq, nu, card)" and st: "st = (byName, acc)"
    by (metis prod.exhaust)
  show ?thesis
    by (cases col; cases "map_of acc (to_lower tab, idx)")
      (auto simp: row st my_add_index_row_def my_row_key_def my_row_column_def columns_of_def Let_def
        AList.map_of_map_entry update_conv' split: option.split)
qed

lemma my_index_scan_columns:
  "scan_rows my_add_index_row rows fin st = Inr st' \<Longrightarrow>
   columns_of k (snd st') = columns_of k (snd st) @
     concat (map my_row_column (filter (\<lambda>r. my_row_key r = k) (map projr rows)))"
proof (induction rows arbitrary: st)
  case Nil
  then show ?case by (cases fin) auto
next
  case (Cons r rows)
  then obtain row where r: "r = Inr row" by (cases r) auto
  with Cons show ?case by (simp add: my_add_index_row_columns)
qed

section \<open>Properties\<close>

text \<open>A server for the witnesses: the state is the transaction flag and a clock.\<close>

definition demo_sqldb :: "(bool \<times> int) sqldb" where
  "demo_sqldb =
     \<lparr>db_begin = \<lambda>w. (Inr (), (True, snd w)), db_rollback = \<lambda>w. (Inr (), (False, snd w)),
      db_exec = \<lambda>s w. (Inr (), w),
      db_tables = \<lambda>a w. (Inr ([], None), w), db_columns = \<lambda>a w. (Inr ([], None), w),
      db_indexes = \<lambda>a w. (Inr ([], None), w), db_text = \<lambda>s w. (Inr ''{}'', w),
      db_hash = \<lambda>s w. (Inr (''h'', 2), w), db_int = \<lambda>s w. (Inr 0, w),
      db_drain = \<lambda>s w. (Inr (2, None), (fst w, snd w + 1500)), db_names = \<lambda>s w. (Inr [''a''], w),
      db_warnings = \<lambda>w. (Inr [], w), db_clock = snd\<rparr>"

lemma demo_my_contract: "my_contract demo_sqldb (\<lambda>_. ()) fst sql"
  by (simp add: my_contract_def tx_local_def demo_sqldb_def)

text \<open>
  Everything the optimizer runs on a MySQL target leaves the database as it was and leaves no
  transaction open, whether it succeeds or fails: an introspection, an EXPLAIN, a timed measurement
  and a checksum; an index experiment is refused as a missing capability without touching it.
\<close>
theorem mysql_engine_harmless:
  assumes "my_contract db committed in_tx sql"
  shows "harmless committed in_tx (my_Introspect db tim tabs) \<and>
    harmless committed in_tx (my_Explain db tim js sql) \<and>
    harmless committed in_tx (my_Measure db tim js sql runs) \<and>
    harmless committed in_tx (my_Checksum db tim sql ord) \<and>
    (\<exists>err. my_WithHypotheticalIndex ddl w = (Inl err, w) \<and> errors_is err ErrNoHypotheticalIndexes)"
  using my_Introspect_harmless [OF assms] my_Explain_harmless [OF assms] my_Measure_harmless [OF assms]
    my_Checksum_harmless [OF assms]
  by (simp add: my_WithHypotheticalIndex_def)

lemma mysql_engine_harmless_witness:
  "harmless (\<lambda>_. ()) fst (my_Measure demo_sqldb default_timings \<lparr>json_value = \<lambda>_. Inr (JObj []), show_number = \<lambda>_. ''''\<rparr>
     ''SELECT 1'' 3)"
  by (rule mysql_engine_harmless [OF demo_my_contract, THEN conjunct2, THEN conjunct2, THEN conjunct1])


definition demo_mysql_plan :: json where
  "demo_mysql_plan = JObj [(''query_block'', JObj
     [(''cost_info'', JObj [(''query_cost'', JStr ''1043.45'')]),
      (''nested_loop'', JArr
        [JObj [(''table'', JObj [(''table_name'', JStr ''o''), (''access_type'', JStr ''ALL''),
           (''rows_examined_per_scan'', JNum 100)])],
         JObj [(''table'', JObj [(''table_name'', JStr ''u''), (''access_type'', JStr ''eq_ref''),
           (''key'', JStr ''PRIMARY''), (''rows_examined_per_scan'', JNum 1)])]])])]"

definition demo_mysql_json :: json_lib where
  "demo_mysql_json = \<lparr>json_value = \<lambda>_. Inr demo_mysql_plan, show_number = \<lambda>_. ''''\<rparr>"


text \<open>
  The cost of a MySQL plan is always zero. MySQL prints \<open>query_cost\<close> as a JSON string, and
  \<open>toFloat\<close> of a string is 0, so \<open>TotalCost\<close> never carries the cost the comment speaks of.
\<close>
theorem parseMySQLPlan_cost_lost:
  assumes "unmarshal_object js raw = Inr doc" and "get_map doc ''query_block'' = Some qb"
    and "get_map qb ''cost_info'' = Some ci" and "map_of ci ''query_cost'' = Some (JStr cost)"
  shows "\<exists>p. parseMySQLPlan js raw = Inr p \<and> total_cost p = 0"
proof -
  let ?p = "\<lparr>raw_plan = raw, plan_summary = '''', total_cost = floatField ci ''query_cost'',
      startup_cost = 0, estimated_rows = 0, node_types = [], seq_scan_tables = []\<rparr>"
  have "reports (my_plan_tables qb) ?p (snd (walkMySQLPlan qb 0 ('''', ?p)))"
    using walkMySQLPlan_reports(1) [of qb "('''', ?p)" 0] by simp
  then show ?thesis
    by (simp add: parseMySQLPlan_def assms Let_def case_prod_beta reports_def floatField_def)
qed

lemma parseMySQLPlan_cost_lost_witness:
  "\<exists>p. parseMySQLPlan demo_mysql_json ''raw'' = Inr p \<and> total_cost p = 0"
proof -
  obtain doc qb ci where "unmarshal_object demo_mysql_json ''raw'' = Inr doc" "get_map doc ''query_block'' = Some qb"
      "get_map qb ''cost_info'' = Some ci" "map_of ci ''query_cost'' = Some (JStr ''1043.45'')"
    by (simp add: unmarshal_object_def demo_mysql_json_def demo_mysql_plan_def decode_object_def get_map_def)
  then show ?thesis by (rule parseMySQLPlan_cost_lost)
qed



text \<open>
  The columns of a MySQL index come out in index order: after a complete scan of the STATISTICS
  rows, the columns recorded for an index are the column names of exactly its rows, in row order
  (expression parts, which have no column name, are left out).
\<close>
theorem mysql_index_columns:
  assumes "scan_rows my_add_index_row rows fin (byName, []) = Inr (byName', acc)"
  shows "columns_of k acc = concat (map my_row_column (filter (\<lambda>r. my_row_key r = k) (map projr rows)))"
  using my_index_scan_columns [OF assms, of k] by (simp add: columns_of_def)

lemma mysql_index_columns_witness:
  "columns_of (''t'', ''i'') (snd (projr (scan_rows my_add_index_row
      [Inr (''t'', ''i'', Some ''b'', 1, 1, 9), Inr (''t'', ''j'', Some ''c'', 1, 1, 9), Inr (''t'', ''i'', Some ''a'', 2, 1, 9)]
      None ([], [])))) = [''b'', ''a'']"
proof -
  let ?rows = "[Inr (''t'', ''i'', Some ''b'', 1, 1, 9), Inr (''t'', ''j'', Some ''c'', 1, 1, 9),
      Inr (''t'', ''i'', Some ''a'', 2, 1, 9)] :: my_index_row result list"
  obtain byName acc where r: "scan_rows my_add_index_row ?rows None ([], []) = Inr (byName, acc)"
    by (cases "projr (scan_rows my_add_index_row ?rows None ([], []))") simp
  show ?thesis
    using mysql_index_columns [OF r, of "(''t'', ''i'')"]
    by (simp add: r [simplified] my_row_key_def my_row_column_def to_lower_def lower_char_def char_code_def)
qed

text \<open>
  The MySQL row hash does not identify rows. Whatever the separator and the NULL sentinel are,
  two different rows of the same width have the same text: a cell may contain the separator, and a
  cell may contain the sentinel that stands for NULL.
\<close>
theorem mysql_row_text_collides:
  "my_row_text sep null_text [Some (a @ sep @ b), Some c] = my_row_text sep null_text [Some a, Some (b @ sep @ c)] \<and>
   my_row_text sep null_text [None, x] = my_row_text sep null_text [Some null_text, x]"
  by (simp add: my_row_text_def)

end
