(* ===== verification/Pool.thy ===== *)
theory Pool
  imports Db_Effects
begin

text \<open>
  Connection pools.  \<open>store.Open\<close> and \<open>NewPostgres\<close> open a \<open>pgxpool\<close> and \<open>NewMySQL\<close> a \<open>sql.DB\<close> in the same
  way: the connection string is parsed, limits are set, the pool is made and pinged, and a pool that
  does not answer is closed again.  The two libraries are parameters; a pool is a number.
\<close>

section \<open>The libraries\<close>

record pool_config =
  pc_target :: string
  MaxConns :: int
  MaxConnLifetime :: int

record 'w pool_lib =
  pool_ParseConfig :: "string \<Rightarrow> pool_config result"
  pool_NewWithConfig :: "pool_config \<Rightarrow> 'w \<Rightarrow> nat result \<times> 'w"
  pool_Ping :: "nat \<Rightarrow> 'w \<Rightarrow> unit result \<times> 'w"
  pool_Close :: "nat \<Rightarrow> 'w \<Rightarrow> 'w"
  pool_Exec :: "nat \<Rightarrow> string \<Rightarrow> 'w \<Rightarrow> unit result \<times> 'w"

record 'w sql_lib =
  sql_Open :: "string \<Rightarrow> string \<Rightarrow> 'w \<Rightarrow> nat result \<times> 'w"
  sql_SetMaxOpenConns :: "nat \<Rightarrow> int \<Rightarrow> 'w \<Rightarrow> 'w"
  sql_SetMaxIdleConns :: "nat \<Rightarrow> int \<Rightarrow> 'w \<Rightarrow> 'w"
  sql_SetConnMaxLifetime :: "nat \<Rightarrow> int \<Rightarrow> 'w \<Rightarrow> 'w"
  sql_PingContext :: "nat \<Rightarrow> int \<Rightarrow> 'w \<Rightarrow> unit result \<times> 'w"  \<comment> \<open>with the timeout of its context\<close>
  sql_Close :: "nat \<Rightarrow> 'w \<Rightarrow> 'w"

section \<open>Opening\<close>

definition open_pool :: "'w pool_lib \<Rightarrow> int \<Rightarrow> int \<Rightarrow> string \<Rightarrow> 'w \<Rightarrow> nat result \<times> 'w" where
  "open_pool lib conns lifetime dsn w =
     (case pool_ParseConfig lib dsn of
        Inl err \<Rightarrow> (Inl err, w)
      | Inr cfg \<Rightarrow>
          case pool_NewWithConfig lib (cfg\<lparr>MaxConns := conns, MaxConnLifetime := lifetime\<rparr>) w of
            (Inl err, w1) \<Rightarrow> (Inl err, w1)
          | (Inr p, w1) \<Rightarrow>
              case pool_Ping lib p w1 of
                (Inl err, w2) \<Rightarrow> (Inl err, pool_Close lib p w2)
              | (Inr _, w2) \<Rightarrow> (Inr p, w2))"

definition open_sql :: "'w sql_lib \<Rightarrow> string \<Rightarrow> 'w \<Rightarrow> nat result \<times> 'w" where
  "open_sql lib dsn w =
     (case sql_Open lib ''mysql'' dsn w of
        (Inl err, w1) \<Rightarrow> (Inl (wrap_error ''open mysql: '' err ''''), w1)
      | (Inr db, w1) \<Rightarrow>
          let w2 = sql_SetConnMaxLifetime lib db (3600 * second)
                (sql_SetMaxIdleConns lib db 2 (sql_SetMaxOpenConns lib db 4 w1))
          in case sql_PingContext lib db (10 * second) w2 of
              (Inl err, w3) \<Rightarrow> (Inl (wrap_error ''ping mysql: '' err ''''), sql_Close lib db w3)
            | (Inr _, w3) \<Rightarrow> (Inr db, w3))"

section \<open>The metadata store\<close>

definition store_Open :: "'w pool_lib \<Rightarrow> string \<Rightarrow> 'w \<Rightarrow> nat result \<times> 'w" where
  "store_Open lib = open_pool lib 8 (3600 * second)"

definition store_Close :: "'w pool_lib \<Rightarrow> nat \<Rightarrow> 'w \<Rightarrow> 'w" where
  "store_Close lib = pool_Close lib"

definition store_Ping :: "'w pool_lib \<Rightarrow> nat \<Rightarrow> 'w \<Rightarrow> unit result \<times> 'w" where
  "store_Ping lib = pool_Ping lib"

text \<open>\<open>schemaSQL\<close> is the text of \<open>schema.sql\<close>.\<close>

definition store_Migrate :: "'w pool_lib \<Rightarrow> string \<Rightarrow> nat \<Rightarrow> 'w \<Rightarrow> unit result \<times> 'w" where
  "store_Migrate lib schemaSQL p = pool_Exec lib p schemaSQL"

section \<open>Retrying\<close>

text \<open>
  \<open>openStoreWithRetry\<close> and \<open>openTargetWithRetry\<close>: thirty attempts, two seconds apart.  \<open>wait\<close> is the
  \<open>select\<close> on the context and the timer; its error is that of the context.
\<close>

fun open_attempts :: "nat \<Rightarrow> ('w \<Rightarrow> 'a result \<times> 'w) \<Rightarrow> (int \<Rightarrow> 'w \<Rightarrow> unit result \<times> 'w) \<Rightarrow> go_error \<Rightarrow> 'w \<Rightarrow> 'a result \<times> 'w" where
  "open_attempts 0 connect wait lastErr w = (Inl lastErr, w)"
| "open_attempts (Suc n) connect wait lastErr w =
     (case connect w of
        (Inr x, w1) \<Rightarrow> (Inr x, w1)
      | (Inl err, w1) \<Rightarrow>
          case wait (2 * second) w1 of
            (Inl ctxErr, w2) \<Rightarrow> (Inl ctxErr, w2)
          | (Inr _, w2) \<Rightarrow> open_attempts n connect wait err w2)"

definition open_with_retry :: "('w \<Rightarrow> 'a result \<times> 'w) \<Rightarrow> (int \<Rightarrow> 'w \<Rightarrow> unit result \<times> 'w) \<Rightarrow> 'w \<Rightarrow> 'a result \<times> 'w" where
  "open_with_retry connect wait = open_attempts 30 connect wait (new_error '''')"

section \<open>No pool is leaked\<close>

text \<open>
  The documented behaviour of the libraries, with \<open>live\<close> the number of open pools: making a pool opens
  one if it succeeds, closing one closes it, nothing else opens or closes any.
\<close>

definition counts_pools :: "'w pool_lib \<Rightarrow> ('w \<Rightarrow> int) \<Rightarrow> bool" where
  "counts_pools lib live \<longleftrightarrow>
     (\<forall>cfg w. live (snd (pool_NewWithConfig lib cfg w)) = live w + of_bool (is_ok (fst (pool_NewWithConfig lib cfg w)))) \<and>
     (\<forall>p w. live (snd (pool_Ping lib p w)) = live w) \<and> (\<forall>p w. live (pool_Close lib p w) = live w - 1)"

definition counts_dbs :: "'w sql_lib \<Rightarrow> ('w \<Rightarrow> int) \<Rightarrow> bool" where
  "counts_dbs lib live \<longleftrightarrow>
     (\<forall>drv dsn w. live (snd (sql_Open lib drv dsn w)) = live w + of_bool (is_ok (fst (sql_Open lib drv dsn w)))) \<and>
     (\<forall>db n w. live (sql_SetMaxOpenConns lib db n w) = live w) \<and> (\<forall>db n w. live (sql_SetMaxIdleConns lib db n w) = live w) \<and>
     (\<forall>db n w. live (sql_SetConnMaxLifetime lib db n w) = live w) \<and>
     (\<forall>db n w. live (snd (sql_PingContext lib db n w)) = live w) \<and> (\<forall>db w. live (sql_Close lib db w) = live w - 1)"

text \<open>Opening leaves one pool more if it succeeds, and none if it fails.\<close>

definition opens_one :: "('w \<Rightarrow> int) \<Rightarrow> ('w \<Rightarrow> 'a result \<times> 'w) \<Rightarrow> bool" where
  "opens_one live f \<longleftrightarrow> (\<forall>w. live (snd (f w)) = live w + of_bool (is_ok (fst (f w))))"

lemma opens_oneD: "opens_one live f \<Longrightarrow> f w = (r, w') \<Longrightarrow> live w' = live w + of_bool (is_ok r)"
  by (metis opens_one_def fst_conv snd_conv)



lemma open_pool_one:
  assumes "counts_pools lib live"
  shows "opens_one live (open_pool lib conns lifetime dsn)"
  unfolding opens_one_def
proof
  fix w
  have new: "pool_NewWithConfig lib cfg w = (r, w') \<Longrightarrow> live w' = live w + of_bool (is_ok r)" for cfg r w'
    using assms by (metis counts_pools_def fst_conv snd_conv)
  have ping: "pool_Ping lib p w1 = (r, w') \<Longrightarrow> live w' = live w1" for p r w1 w'
    using assms by (metis counts_pools_def snd_conv)
  have close: "live (pool_Close lib p w1) = live w1 - 1" for p w1 using assms by (simp add: counts_pools_def)
  show "live (snd (open_pool lib conns lifetime dsn w)) =
      live w + of_bool (is_ok (fst (open_pool lib conns lifetime dsn w)))"
    by (auto simp: open_pool_def close split: sum.split prod.split dest!: new ping)
qed

lemma open_sql_one:
  assumes "counts_dbs lib live"
  shows "opens_one live (open_sql lib dsn)"
  unfolding opens_one_def
proof
  fix w
  have new: "sql_Open lib drv dsn w = (r, w') \<Longrightarrow> live w' = live w + of_bool (is_ok r)" for drv r w'
    using assms by (metis counts_dbs_def fst_conv snd_conv)
  have ping: "sql_PingContext lib p n w1 = (r, w') \<Longrightarrow> live w' = live w1" for p n r w1 w'
    using assms by (metis counts_dbs_def snd_conv)
  have rest: "live (sql_SetMaxOpenConns lib db n w1) = live w1" "live (sql_SetMaxIdleConns lib db n w1) = live w1"
    "live (sql_SetConnMaxLifetime lib db n w1) = live w1" "live (sql_Close lib db w1) = live w1 - 1" for db n w1
    using assms by (simp_all add: counts_dbs_def)
  show "live (snd (open_sql lib dsn w)) = live w + of_bool (is_ok (fst (open_sql lib dsn w)))"
    by (auto simp: open_sql_def Let_def rest split: sum.split prod.split dest!: new ping)
qed

lemma open_attempts_one:
  assumes "opens_one live connect" and "\<And>t w. live (snd (wait t w)) = live w"
  shows "opens_one live (open_attempts n connect wait lastErr)"
  unfolding opens_one_def
proof
  fix w
  show "live (snd (open_attempts n connect wait lastErr w)) =
      live w + of_bool (is_ok (fst (open_attempts n connect wait lastErr w)))"
  proof (induction n arbitrary: lastErr w)
    case (Suc n)
    obtain r w1 where c: "connect w = (r, w1)" by fastforce
    obtain s w2 where t: "wait (2 * second) w1 = (s, w2)" by fastforce
    have "live w2 = live w1" using assms(2) t by (metis snd_conv)
    then show ?case using opens_oneD [OF assms(1) c] Suc.IH [of _ w2]
      by (cases r; cases s) (simp_all add: c t)
  qed simp
qed

lemma open_with_retry_one:
  "opens_one live connect \<Longrightarrow> (\<And>t w. live (snd (wait t w)) = live w) \<Longrightarrow> opens_one live (open_with_retry connect wait)"
  unfolding open_with_retry_def by (rule open_attempts_one)

end
