(* ===== verification/Engine_Open.thy ===== *)
theory Engine_Open
  imports Engine_Postgres_Facts Engine_MySQL_Facts Pool
begin

text \<open>
  \<open>internal/engine/open.go\<close>: choosing the engine for a connection string.  The libraries
  of the connections, with the driver that works on an open pool, are the parameter \<open>connector\<close>.
\<close>

definition DialectForDSN :: "string \<Rightarrow> string result" where
  "DialectForDSN dsn =
     (let s = trim_space dsn in
      if has_prefix s ''postgres://'' \<or> has_prefix s ''postgresql://'' then Inr ''postgres''
      else if has_prefix s ''mysql://'' then Inr ''mysql''
      else if str_contains s ''@tcp('' \<or> str_contains s ''@unix('' then Inr ''mysql''
      else if str_contains s ''host='' \<and> str_contains s ''dbname='' then Inr ''postgres''
      else Inl (new_error ''cannot infer dialect from DSN; set TARGET_DIALECT to postgres or mysql''))"

definition normaliseMySQLDSN :: "string \<Rightarrow> string" where
  "normaliseMySQLDSN dsn = trim_prefix (trim_space dsn) ''mysql://''"

record 'w connector =
  con_pool :: "'w pool_lib"
  con_sql :: "'w sql_lib"
  pgx_of :: "nat \<Rightarrow> 'w pgx"
  sqldb_of :: "nat \<Rightarrow> 'w sqldb"

text \<open>\<open>NewPostgres\<close> and \<open>NewMySQL\<close>, with the engine they return.\<close>

definition NewPostgres :: "'w connector \<Rightarrow> json_lib \<Rightarrow> string \<Rightarrow> timings \<Rightarrow> 'w \<Rightarrow> 'w engine result \<times> 'w" where
  "NewPostgres con js dsn tim =
     bind_io (open_pool (con_pool con) 6 (30 * 60 * second) dsn) (\<lambda>p. return_io (postgres_engine (pgx_of con p) tim js))"

definition NewMySQL :: "'w connector \<Rightarrow> json_lib \<Rightarrow> string \<Rightarrow> timings \<Rightarrow> 'w \<Rightarrow> 'w engine result \<times> 'w" where
  "NewMySQL con js dsn tim =
     bind_io (open_sql (con_sql con) dsn) (\<lambda>db. return_io (mysql_engine (sqldb_of con db) tim js))"

definition Open :: "'w connector \<Rightarrow> json_lib \<Rightarrow> string \<Rightarrow> string \<Rightarrow> timings \<Rightarrow> 'w \<Rightarrow> 'w engine result \<times> 'w" where
  "Open con js dsn dialect tim w =
     (case (if dialect = '''' then DialectForDSN dsn else Inr dialect) of
        Inl err \<Rightarrow> (Inl err, w)
      | Inr d \<Rightarrow>
          if to_lower d = ''postgres'' \<or> to_lower d = ''postgresql'' then NewPostgres con js dsn tim w
          else if to_lower d = ''mysql'' then NewMySQL con js (normaliseMySQLDSN dsn) tim w
          else (Inl (new_error (''unsupported dialect '' @ go_quote d)), w))"

lemma DialectForDSN_known: "DialectForDSN dsn = Inr d \<Longrightarrow> d = ''postgres'' \<or> d = ''mysql''"
  by (auto simp: DialectForDSN_def Let_def split: if_splits)

lemma dialect_texts [simp]: "to_lower ''postgres'' = ''postgres''" "to_lower ''mysql'' = ''mysql''"
  by code_simp+

text \<open>An engine that opens is one of the two, so the facts of the interface hold for it.\<close>

lemma Open_engine:
  assumes "Open con js dsn dialect tim w = (Inr eng, w')"
  shows "(\<exists>drv. eng = postgres_engine drv tim js) \<or> (\<exists>db. eng = mysql_engine db tim js)"
  using assms by (auto simp: Open_def NewPostgres_def NewMySQL_def bind_io_Inr split: if_splits sum.splits)

lemma Open_target_engine: "Open con js dsn dialect tim w = (Inr eng, w') \<Longrightarrow> target_engine eng"
  using Open_engine [of con js dsn dialect tim w eng w'] postgres.target_engine_axioms mysql.target_engine_axioms
  by auto

text \<open>
  The dialect that is inferred from a connection string opens the engine of that dialect: with
  no dialect given, a connection string that is recognised either fails to connect or yields an
  engine whose \<open>Dialect()\<close> is the inferred one.
\<close>
theorem Open_inferred_dialect:
  assumes "DialectForDSN dsn = Inr d" and "Open con js dsn '''' tim w = (Inr eng, w')"
  shows "eng_dialect eng = d"
  using assms DialectForDSN_known [OF assms(1)]
  by (auto simp: Open_def NewPostgres_def NewMySQL_def bind_io_Inr postgres_engine_def mysql_engine_def)

text \<open>Libraries for the witnesses: every connection succeeds, the world counts the pools.\<close>

definition demo_pools :: "(bool \<times> nat) pool_lib" where
  "demo_pools =
     \<lparr>pool_ParseConfig = \<lambda>dsn. Inr \<lparr>pc_target = dsn, MaxConns = 4, MaxConnLifetime = 0\<rparr>,
      pool_NewWithConfig = \<lambda>cfg w. (Inr 1, w), pool_Ping = \<lambda>p w. (Inr (), w), pool_Close = \<lambda>p w. w,
      pool_Exec = \<lambda>p s w. (Inr (), w)\<rparr>"

definition refusing_sqldb :: "'w sqldb" where
  "refusing_sqldb =
     (let e = new_error ''down'' in
      \<lparr>db_begin = \<lambda>w. (Inl e, w), db_rollback = \<lambda>w. (Inl e, w), db_exec = \<lambda>s w. (Inl e, w),
       db_tables = \<lambda>a w. (Inl e, w), db_columns = \<lambda>a w. (Inl e, w), db_indexes = \<lambda>a w. (Inl e, w),
       db_text = \<lambda>s w. (Inl e, w), db_hash = \<lambda>s w. (Inl e, w), db_int = \<lambda>s w. (Inl e, w),
       db_drain = \<lambda>s w. (Inl e, w), db_names = \<lambda>s w. (Inl e, w), db_warnings = \<lambda>w. (Inl e, w),
       db_clock = \<lambda>w. 0\<rparr>)"

definition refusing_pgx :: "'w pgx" where
  "refusing_pgx =
     (let e = new_error ''down'' in
      \<lparr>pool_acquire = \<lambda>w. (Inl e, w), conn_release = \<lambda>w. w, begin_tx = \<lambda>ro w. (Inl e, w), tx_exec = \<lambda>s w. (Inl e, w),
       tx_query_text = \<lambda>s w. (Inl e, w), tx_query_hash = \<lambda>s w. (Inl e, w), tx_rollback = \<lambda>w. w,
       query_table_stats = \<lambda>a w. (Inl e, w), query_columns = \<lambda>a w. (Inl e, w), query_indexes = \<lambda>a w. (Inl e, w)\<rparr>)"

definition demo_connector :: "(bool \<times> nat) connector" where
  "demo_connector =
     \<lparr>con_pool = demo_pools,
      con_sql = \<lparr>sql_Open = \<lambda>drv dsn w. (Inl (new_error ''down''), w), sql_SetMaxOpenConns = \<lambda>db n w. w,
        sql_SetMaxIdleConns = \<lambda>db n w. w, sql_SetConnMaxLifetime = \<lambda>db n w. w,
        sql_PingContext = \<lambda>db n w. (Inr (), w), sql_Close = \<lambda>db w. w\<rparr>,
      pgx_of = \<lambda>p. demo_pgx, sqldb_of = \<lambda>db. refusing_sqldb\<rparr>"

lemma Open_inferred_dialect_witness:
  "\<exists>eng. Open demo_connector demo_json ''postgres://db/app'' '''' demo_timings (False, 0) = (Inr eng, (False, 0)) \<and>
     eng_dialect eng = ''postgres''"
proof -
  have d: "DialectForDSN ''postgres://db/app'' = Inr ''postgres''" by code_simp
  have "Open demo_connector demo_json ''postgres://db/app'' '''' demo_timings (False, 0) =
      (Inr (postgres_engine demo_pgx demo_timings demo_json), (False, 0))"
    by (simp add: Open_def d NewPostgres_def bind_io_def open_pool_def demo_connector_def demo_pools_def)
  with Open_inferred_dialect [OF d this] show ?thesis by simp
qed

end
