(* ===== verification/Pg_Tree.thy ===== *)
theory Pg_Tree
  imports QF_Prelude
begin

text \<open>
  The part of libpg_query's parse tree that the program inspects, as data, and
  \<open>internal/sqlparse/walk.go\<close>: the depth-first traversal that shows every node to a visitor.
  Node types the program never looks into are \<open>OtherNode\<close>; every constructor carries the child
  nodes of the message, so the traversal reaches all of them.  A nil message is \<open>None\<close>.
\<close>

datatype stmt_kind =
    InsertStmt | UpdateStmt | DeleteStmt | MergeStmt | CreateStmt | DropStmt | TruncateStmt
  | CopyStmt | ExplainStmt | TransactionStmt | VariableSetStmt | UnlistedStmt

datatype a_const = Sval string | Ival int | Fval string | Boolval bool | OtherConst

datatype sublink_type = ANY_SUBLINK | EXISTS_SUBLINK | ALL_SUBLINK | EXPR_SUBLINK | OTHER_SUBLINK

datatype set_operation = SETOP_NONE | SETOP_UNION | SETOP_INTERSECT | SETOP_EXCEPT

datatype pg_node =
    EmptyNode
  | SelectNode pg_select
  | StmtNode stmt_kind "pg_node list"
  | CteNode string "pg_node option" "pg_node list"
      \<comment> \<open>name, query, the other children\<close>
  | RangeVarNode string string "string option" "pg_node list"
      \<comment> \<open>schema, relation, alias, the alias's column names\<close>
  | ResTargetNode string "pg_node list" "pg_node option"
      \<comment> \<open>name, indirection, value\<close>
  | ColumnRefNode "pg_node list"
  | AStarNode
  | StringNode string
  | AExprNode "pg_node list" "pg_node option" "pg_node option"
      \<comment> \<open>operator name, left and right operand\<close>
  | FuncCallNode "pg_node list" "pg_node list" "pg_node list"
      \<comment> \<open>function name, arguments, the other children\<close>
  | TypeCastNode "pg_node option" "pg_node list option" "pg_node list"
      \<comment> \<open>argument, names of the type (None: no type name), its modifiers\<close>
  | AConstNode a_const
  | SubLinkNode sublink_type "pg_node option" "pg_node list" "pg_node option"
      \<comment> \<open>kind, test expression, operator name, subselect\<close>
  | OtherNode "pg_node list"
and pg_select = PgSelect
    (distinct_clause: "pg_node list")
    (into_clause: "pg_node list option")
    (target_list: "pg_node list")
    (from_clause: "pg_node list")
    (where_clause: "pg_node option")
    (group_clause: "pg_node list")
    (having_clause: "pg_node option")
    (window_clause: "pg_node list")
    (values_lists: "pg_node list")
    (sort_clause: "pg_node list")
    (limit_offset: "pg_node option")
    (limit_count: "pg_node option")
    (locking_clause: "pg_node list")
    (with_clause: "pg_node list option")
    (set_op: set_operation)
    (larg: "pg_select option")
    (rarg: "pg_select option")

definition opt_list :: "'a option \<Rightarrow> 'a list" where
  "opt_list x = (case x of None \<Rightarrow> [] | Some y \<Rightarrow> [y])"

definition opt_concat :: "'a list option \<Rightarrow> 'a list" where
  "opt_concat x = (case x of None \<Rightarrow> [] | Some ys \<Rightarrow> ys)"

lemma set_opt_list [simp]: "set (opt_list x) = set_option x"
  by (cases x) (auto simp: opt_list_def)

lemma set_opt_concat: "set (opt_concat x) = (\<Union>ys \<in> set_option x. set ys)"
  by (cases x) (auto simp: opt_concat_def)

text \<open>
  The child nodes of a \<open>SelectStmt\<close> message in the order of its fields.  \<open>larg\<close> and \<open>rarg\<close> are
  messages and not nodes: the traversal goes through them without a visit.
\<close>

primrec select_children :: "pg_select \<Rightarrow> pg_node list" where
  "select_children (PgSelect dc ic tg fc wh gc hv wc vl sc lo lc lk wi op la ra) =
     dc @ opt_concat ic @ tg @ fc @ opt_list wh @ gc @ opt_list hv @ wc @ vl @ sc @ opt_list lo @
     opt_list lc @ lk @ opt_concat wi @
     (case map_option select_children la of None \<Rightarrow> [] | Some ns \<Rightarrow> ns) @
     (case map_option select_children ra of None \<Rightarrow> [] | Some ns \<Rightarrow> ns)"

fun node_children :: "pg_node \<Rightarrow> pg_node list" where
  "node_children EmptyNode = []"
| "node_children (SelectNode s) = select_children s"
| "node_children (StmtNode k cs) = cs"
| "node_children (CteNode n q cs) = opt_list q @ cs"
| "node_children (RangeVarNode sn rn al cs) = cs"
| "node_children (ResTargetNode n ind v) = ind @ opt_list v"
| "node_children (ColumnRefNode fs) = fs"
| "node_children AStarNode = []"
| "node_children (StringNode s) = []"
| "node_children (AExprNode nm l r) = nm @ opt_list l @ opt_list r"
| "node_children (FuncCallNode fn args cs) = fn @ args @ cs"
| "node_children (TypeCastNode a nms cs) = opt_list a @ opt_concat nms @ cs"
| "node_children (AConstNode c) = []"
| "node_children (SubLinkNode t te on ss) = opt_list te @ on @ opt_list ss"
| "node_children (OtherNode cs) = cs"

lemma size_list_member: "x \<in> set xs \<Longrightarrow> size x < size_list size xs"
  by (induction xs) auto

lemma size_option_member: "x \<in> set_option y \<Longrightarrow> size x < size_option size y"
  by (cases y) auto

lemma size_concat_member: "x \<in> set (opt_concat z) \<Longrightarrow> size x < size_option (size_list size) z"
  by (cases z) (auto simp: opt_concat_def dest: size_list_member)

lemmas size_members = size_list_member size_option_member size_concat_member

lemma select_children_size: "n \<in> set (select_children s) \<Longrightarrow> size n < size s"
proof (induction "size s" arbitrary: s rule: less_induct)
  case less
  obtain dc ic tg fc wh gc hv wc vl sc lo lc lk wi op la ra
    where s: "s = PgSelect dc ic tg fc wh gc hv wc vl sc lo lc lk wi op la ra"
    by (cases s)
  have ih: "size n < size t" if "la = Some t \<or> ra = Some t" and "n \<in> set (select_children t)" for t
    using that by (intro less.hyps) (auto simp: s)
  consider "n \<in> set dc \<union> set (opt_concat ic) \<union> set tg \<union> set fc \<union> set_option wh \<union> set gc \<union> set_option hv"
    | "n \<in> set wc \<union> set vl \<union> set sc \<union> set_option lo \<union> set_option lc \<union> set lk \<union> set (opt_concat wi)"
    | t where "la = Some t \<or> ra = Some t" and "n \<in> set (select_children t)"
    using less.prems by (auto simp: s split: option.splits)
  then show ?case
  proof cases
    case 1
    then show ?thesis by (auto simp: s dest!: size_members)
  next
    case 2
    then show ?thesis by (auto simp: s dest!: size_members)
  next
    case 3
    from ih [OF 3] 3(1) show ?thesis by (auto simp: s)
  qed
qed

lemma node_children_size: "n \<in> set (node_children m) \<Longrightarrow> size n < size m"
  by (cases m) (auto dest: size_list_member size_option_member size_concat_member select_children_size)

text \<open>
  \<open>walkMessage\<close> and \<open>visitValueMessage\<close>: the nodes below a message, in the order they are
  visited; a node equal to the empty node is not shown to the visitor.
\<close>

function walkMessage :: "pg_node \<Rightarrow> pg_node list" where
  "walkMessage n =
     concat (map (\<lambda>c. (if c = EmptyNode then [] else [c]) @ walkMessage c) (node_children n))"
  by pat_completeness auto
termination
  by (relation "measure size") (auto simp: node_children_size)

declare walkMessage.simps [simp del]

text \<open>\<open>walk\<close>: the root, then everything below it.\<close>

definition walk_nodes :: "pg_node \<Rightarrow> pg_node list" where
  "walk_nodes n = n # walkMessage n"

text \<open>
  A visitor is a closure that changes captured variables, so walking with it is a fold of the
  visitor over the visited nodes; \<open>WalkTree\<close> does so for every statement of a tree, and nothing
  for a statement without one.
\<close>

definition walk :: "pg_node \<Rightarrow> (pg_node \<Rightarrow> 's \<Rightarrow> 's) \<Rightarrow> 's \<Rightarrow> 's" where
  "walk n visit s = fold visit (walk_nodes n) s"

definition WalkTree :: "pg_node list option \<Rightarrow> (pg_node \<Rightarrow> 's \<Rightarrow> 's) \<Rightarrow> 's \<Rightarrow> 's" where
  "WalkTree tree visit s =
     (case tree of None \<Rightarrow> s | Some stmts \<Rightarrow> fold (\<lambda>raw. walk raw visit) stmts s)"

lemma WalkTree_fold:
  "WalkTree tree visit s = fold visit (concat (map walk_nodes (opt_concat tree))) s"
proof (cases tree)
  case (Some stmts)
  have "fold (\<lambda>raw. walk raw visit) stmts s = fold visit (concat (map walk_nodes stmts)) s"
    by (induction stmts arbitrary: s) (simp_all add: walk_def)
  with Some show ?thesis by (simp add: WalkTree_def opt_concat_def)
qed (simp add: WalkTree_def opt_concat_def)

text \<open>The nodes below a node, as the closure of the child relation.\<close>

inductive below :: "pg_node \<Rightarrow> pg_node \<Rightarrow> bool" where
  child: "c \<in> set (node_children n) \<Longrightarrow> below n c"
| deeper: "c \<in> set (node_children n) \<Longrightarrow> below c d \<Longrightarrow> below n d"

lemma below_iff: "below n d \<longleftrightarrow> (\<exists>c \<in> set (node_children n). c = d \<or> below c d)"
  by (subst below.simps) auto

lemma set_walkMessage: "set (walkMessage n) = {d. below n d \<and> d \<noteq> EmptyNode}"
proof (induction n rule: walkMessage.induct)
  case (1 n)
  have mem: "d \<in> set ((if c = EmptyNode then [] else [c]) @ xs) \<longleftrightarrow> (c = d \<and> d \<noteq> EmptyNode) \<or> d \<in> set xs"
    for c d xs by auto
  have ih: "d \<in> set (walkMessage c) \<longleftrightarrow> below c d \<and> d \<noteq> EmptyNode"
    if "c \<in> set (node_children n)" for c d
    using 1 [OF that] by simp
  have "d \<in> set (walkMessage n) \<longleftrightarrow> below n d \<and> d \<noteq> EmptyNode" for d
    unfolding below_iff [of n d] using ih
    by (simp only: walkMessage.simps [of n] set_concat set_map UN_iff bex_simps mem) blast
  then show ?case by (simp add: set_eq_iff)
qed

lemma set_walk_nodes: "set (walk_nodes n) = insert n {d. below n d \<and> d \<noteq> EmptyNode}"
  by (simp add: walk_nodes_def set_walkMessage)

lemma below_trans: "below a b \<Longrightarrow> below b c \<Longrightarrow> below a c"
  by (induction rule: below.induct) (auto intro: below.intros)

end
