(* ===== verification/Sql_Statement.thy ===== *)
theory Sql_Statement
  imports Pg_Tree
begin

text \<open>
  The dialect-neutral half of \<open>internal/sqlparse/sqlparse.go\<close>: the \<open>Statement\<close> and
  \<open>TableRef\<close> types, and \<open>SameShapeAs\<close>, the structural gate in front of the execution gate.
\<close>

section \<open>Types\<close>

type_synonym sql_dialect = string

definition DialectPostgres :: sql_dialect where "DialectPostgres = ''postgres''"
definition DialectMySQL :: sql_dialect where "DialectMySQL = ''mysql''"

lemma dialects_differ [simp]: "DialectPostgres \<noteq> DialectMySQL" "DialectMySQL \<noteq> DialectPostgres"
  "DialectMySQL \<noteq> []" "DialectPostgres \<noteq> []"
  by (simp_all add: DialectPostgres_def DialectMySQL_def)

record table_ref =
  ref_schema :: string
  ref_name :: string
  ref_alias :: string

definition Qualified :: "table_ref \<Rightarrow> string" where
  "Qualified t =
     (if ref_schema t \<noteq> '''' \<and> ref_schema t \<noteq> ''public''
      then ref_schema t @ ''.'' @ ref_name t else ref_name t)"

record statement =
  st_sql :: string
  st_dialect :: sql_dialect
  st_normalized :: string
  st_fingerprint :: string
  st_tables :: "table_ref list"
  st_cte_names :: "string list"
  st_output_cols :: "string list"
  st_has_limit :: bool
  st_has_order_by :: bool
  st_select_star :: bool
  st_tree :: "pg_node list option"

text \<open>The package's two sentinels with their texts.\<close>

definition err_not_read_only :: go_error where
  "err_not_read_only =
     GoError ''only read-only SELECT statements can be optimized'' [ErrNotReadOnly]"

definition err_multiple_statements :: go_error where
  "err_multiple_statements = GoError ''exactly one statement is required'' [ErrMultipleStatements]"

lemma errors_is_sentinels [simp]:
  "errors_is err_not_read_only s \<longleftrightarrow> s = ErrNotReadOnly"
  "errors_is err_multiple_statements s \<longleftrightarrow> s = ErrMultipleStatements"
  by (simp_all add: err_not_read_only_def err_multiple_statements_def)

section \<open>The shape gate\<close>

text \<open>
  \<open>tableSet\<close> builds a map from lower-cased qualified names; here it is the list of its keys, each
  once.  Go visits a map in an unspecified order; that order decides only which offending table
  an error names.
\<close>

definition tableSet :: "table_ref list \<Rightarrow> string list" where
  "tableSet refs = remdups (map (\<lambda>r. to_lower (Qualified r)) refs)"

text \<open>The loop over the output columns: the position and names of the first mismatch.\<close>

fun column_mismatch :: "nat \<Rightarrow> string list \<Rightarrow> string list \<Rightarrow> (nat \<times> string \<times> string) option" where
  "column_mismatch i (a # as) (b # bs) =
     (if a \<noteq> '''' \<and> b \<noteq> '''' \<and> \<not> equal_fold a b then Some (i, a, b)
      else column_mismatch (Suc i) as bs)"
| "column_mismatch i _ _ = None"

definition SameShapeAs :: "statement \<Rightarrow> statement \<Rightarrow> go_error option" where
  "SameShapeAs s other =
     (if length (st_output_cols s) \<noteq> length (st_output_cols other)
      then Some (new_error (''output column count differs: '' @ show_nat (length (st_output_cols s)) @
        '' vs '' @ show_nat (length (st_output_cols other))))
      else
        case (if \<not> st_select_star s \<and> \<not> st_select_star other
              then column_mismatch 0 (st_output_cols s) (st_output_cols other) else None) of
          Some (i, a, b) \<Rightarrow>
            Some (new_error (''output column '' @ show_nat (i + 1) @ '' differs: '' @ go_quote a @
              '' vs '' @ go_quote b))
        | None \<Rightarrow>
            (let origTables = tableSet (st_tables s); newTables = tableSet (st_tables other) in
             case find (\<lambda>t. t \<notin> set origTables) newTables of
               Some t \<Rightarrow> Some (new_error (''candidate reads table '' @ go_quote t @
                 '' which the original does not''))
             | None \<Rightarrow>
                 (case find (\<lambda>t. t \<notin> set newTables) origTables of
                    Some t \<Rightarrow> Some (new_error (''candidate drops table '' @ go_quote t @
                      ''; result equivalence must be proven''))
                  | None \<Rightarrow> None)))"

section \<open>What the gate decides\<close>

definition names_compatible :: "string list \<Rightarrow> string list \<Rightarrow> bool" where
  "names_compatible as bs \<longleftrightarrow>
     list_all2 (\<lambda>a b. a = '''' \<or> b = '''' \<or> equal_fold a b) as bs"

definition table_names :: "statement \<Rightarrow> string set" where
  "table_names s = (\<lambda>r. to_lower (Qualified r)) ` set (st_tables s)"

lemma set_tableSet [simp]: "set (tableSet refs) = (\<lambda>r. to_lower (Qualified r)) ` set refs"
  by (simp add: tableSet_def)

lemma column_mismatch_None:
  "length as = length bs \<Longrightarrow> column_mismatch i as bs = None \<longleftrightarrow> names_compatible as bs"
proof (induction as bs arbitrary: i rule: list_induct2)
  case Nil
  then show ?case by (simp add: names_compatible_def)
next
  case (Cons a as b bs)
  then show ?case by (auto simp: names_compatible_def)
qed

lemma find_None_subset: "find (\<lambda>t. t \<notin> A) xs = None \<longleftrightarrow> set xs \<subseteq> A"
  by (auto simp: find_None_iff)

lemma SameShapeAs_None_iff:
  "SameShapeAs s other = None \<longleftrightarrow>
     length (st_output_cols s) = length (st_output_cols other) \<and>
     (st_select_star s \<or> st_select_star other \<or>
      names_compatible (st_output_cols s) (st_output_cols other)) \<and>
     table_names s = table_names other"
proof (cases "length (st_output_cols s) = length (st_output_cols other)")
  case True
  have tabs: "(find (\<lambda>t. t \<notin> set (tableSet (st_tables s))) (tableSet (st_tables other)) = None \<and>
      find (\<lambda>t. t \<notin> set (tableSet (st_tables other))) (tableSet (st_tables s)) = None) \<longleftrightarrow>
      table_names s = table_names other"
    by (auto simp only: find_None_subset set_tableSet table_names_def)
  show ?thesis
    using True tabs column_mismatch_None [OF True, of 0]
    by (auto simp: SameShapeAs_def Let_def split: option.splits)
next
  case False
  then show ?thesis by (simp add: SameShapeAs_def)
qed

lemma SameShapeAs_chain: "SameShapeAs s other = Some e \<Longrightarrow> err_chain e = []"
  by (auto simp: SameShapeAs_def new_error_def Let_def split: if_splits option.splits)

end
