(* ===== verification/Sqlparse_Postgres.thy ===== *)
theory Sqlparse_Postgres
  imports Sql_Statement "HOL-Library.Char_ord" "HOL-Library.List_Lexorder" "HOL-Library.Multiset"
begin

text \<open>
  \<open>internal/sqlparse/sqlparse.go\<close>, the PostgreSQL path: \<open>Parse\<close> and the walks over the parse
  tree that decide whether a statement is read-only and what it touches.  libpg_query itself is
  the parameter \<open>pg_query\<close>: its parser, normalizer and fingerprint.
\<close>

record pg_query =
  pg_parse :: "string \<Rightarrow> pg_node list result"
  pg_normalize :: "string \<Rightarrow> string result"
  pg_fingerprint :: "string \<Rightarrow> string result"

section \<open>Statement kinds and data-modifying CTEs\<close>

fun nodeKind :: "pg_node option \<Rightarrow> string" where
  "nodeKind None = ''nil''"
| "nodeKind (Some (SelectNode s)) = ''SelectStmt''"
| "nodeKind (Some (StmtNode k cs)) =
     (case k of
        InsertStmt \<Rightarrow> ''InsertStmt'' | UpdateStmt \<Rightarrow> ''UpdateStmt''
      | DeleteStmt \<Rightarrow> ''DeleteStmt'' | MergeStmt \<Rightarrow> ''MergeStmt''
      | CreateStmt \<Rightarrow> ''CreateStmt'' | DropStmt \<Rightarrow> ''DropStmt''
      | TruncateStmt \<Rightarrow> ''TruncateStmt'' | CopyStmt \<Rightarrow> ''CopyStmt''
      | ExplainStmt \<Rightarrow> ''ExplainStmt'' | TransactionStmt \<Rightarrow> ''TransactionStmt''
      | VariableSetStmt \<Rightarrow> ''VariableSetStmt'' | UnlistedStmt \<Rightarrow> ''unsupported statement'')"
| "nodeKind (Some _) = ''unsupported statement''"

definition read_only_refusal :: "string \<Rightarrow> go_error" where
  "read_only_refusal detail = wrap_error '''' err_not_read_only detail"

lemma read_only_refusal_is [simp]: "errors_is (read_only_refusal d) s \<longleftrightarrow> s = ErrNotReadOnly"
  by (simp add: read_only_refusal_def)

lemma with_clause_size: "with_clause s = Some ctes \<Longrightarrow> size_list size ctes < size s"
  by (cases s) auto

lemma arm_size: "larg s = Some t \<or> rarg s = Some t \<Longrightarrow> size t < size s"
  by (cases s) auto

text \<open>The loop of \<open>rejectDataModifyingCTEs\<close>, over the common table expressions of one clause.\<close>

function rejectDataModifyingCTEs :: "pg_select \<Rightarrow> go_error option"
  and reject_ctes :: "pg_node list \<Rightarrow> go_error option" where
  "rejectDataModifyingCTEs sel =
     (case with_clause sel of None \<Rightarrow> None | Some ctes \<Rightarrow> reject_ctes ctes)"
| "reject_ctes [] = None"
| "reject_ctes (cte # ctes) =
     (case cte of
        CteNode ctename (Some ctequery) rest \<Rightarrow>
          (case ctequery of
             SelectNode inner \<Rightarrow>
               (case rejectDataModifyingCTEs inner of
                  Some err \<Rightarrow> Some err
                | None \<Rightarrow> reject_ctes ctes)
           | _ \<Rightarrow> Some (read_only_refusal ('': CTE '' @ go_quote ctename @ '' contains a '' @
                    nodeKind (Some ctequery))))
      | _ \<Rightarrow> reject_ctes ctes)"
  by pat_completeness auto
termination
  by (relation "measure (\<lambda>x. case x of Inl sel \<Rightarrow> size sel | Inr ctes \<Rightarrow> size_list size ctes)")
    (auto dest: with_clause_size)

declare rejectDataModifyingCTEs.simps [simp del]
declare reject_ctes.simps [simp del]

section \<open>Names, tables, output columns\<close>

definition cteNames :: "pg_select \<Rightarrow> string list" where
  "cteNames sel =
     (case with_clause sel of
        None \<Rightarrow> []
      | Some ctes \<Rightarrow>
          concat (map (\<lambda>cte. case cte of CteNode n q cs \<Rightarrow> [to_lower n] | _ \<Rightarrow> []) ctes))"

definition ref_key :: "table_ref \<Rightarrow> string" where
  "ref_key ref = to_lower (Qualified ref) @ ''|'' @ to_lower (ref_alias ref)"

text \<open>The visitor closure of \<open>collectTables\<close>; its state is the \<open>seen\<close> set and the output.\<close>

fun collect_visit :: "string list \<Rightarrow> pg_node \<Rightarrow> string list \<times> table_ref list \<Rightarrow>
    string list \<times> table_ref list" where
  "collect_visit cte (RangeVarNode schemaname relname alias cs) (seen, out) =
     (if to_lower relname \<in> set cte \<and> schemaname = '''' then (seen, out)
      else
        let ref = \<lparr>ref_schema = schemaname, ref_name = relname,
                   ref_alias = (case alias of None \<Rightarrow> '''' | Some a \<Rightarrow> a)\<rparr>;
            key = ref_key ref
        in if key \<in> set seen then (seen, out) else (key # seen, out @ [ref]))"
| "collect_visit cte _ st = st"

text \<open>\<open>sort.Slice\<close> by qualified name; entries with equal names keep their order.\<close>

definition collectTables :: "pg_node \<Rightarrow> string list \<Rightarrow> table_ref list" where
  "collectTables node ctes =
     sort_key Qualified (snd (walk node (collect_visit ctes) ([], [])))"

fun inferColumnName :: "pg_node option \<Rightarrow> string" where
  "inferColumnName (Some (ColumnRefNode fs)) =
     (if fs = [] then ''''
      else case last fs of
             StringNode sval \<Rightarrow> sval
           | AStarNode \<Rightarrow> ''*''
           | _ \<Rightarrow> '''')"
| "inferColumnName _ = ''''"

definition target_columns :: "pg_node list \<Rightarrow> string list" where
  "target_columns targets =
     concat (map (\<lambda>target. case target of
         ResTargetNode name ind val \<Rightarrow> [if name \<noteq> '''' then name else inferColumnName val]
       | _ \<Rightarrow> []) targets)"

function outputColumns :: "pg_select \<Rightarrow> string list" where
  "outputColumns sel =
     (case (set_op sel \<noteq> SETOP_NONE, larg sel) of
        (True, Some l) \<Rightarrow> outputColumns l
      | _ \<Rightarrow> target_columns (target_list sel))"
  by pat_completeness auto
termination
  by (relation "measure size") (auto intro: arm_size)

declare outputColumns.simps [simp del]

definition is_star_target :: "pg_node \<Rightarrow> bool" where
  "is_star_target target =
     (case target of
        ResTargetNode name ind (Some (ColumnRefNode fs)) \<Rightarrow> list_ex (\<lambda>f. f = AStarNode) fs
      | _ \<Rightarrow> False)"

function hasSelectStar :: "pg_select \<Rightarrow> bool" where
  "hasSelectStar sel =
     (if set_op sel \<noteq> SETOP_NONE
      then (case larg sel of None \<Rightarrow> False | Some l \<Rightarrow> hasSelectStar l) \<or>
           (case rarg sel of None \<Rightarrow> False | Some r \<Rightarrow> hasSelectStar r)
      else list_ex is_star_target (target_list sel))"
  by pat_completeness auto
termination
  by (relation "measure size") (auto intro: arm_size)

declare hasSelectStar.simps [simp del]

section \<open>Parse\<close>

definition Parse :: "pg_query \<Rightarrow> string \<Rightarrow> statement result" where
  "Parse pg sql =
     (let trimmed = trim_space sql in
      if trimmed = '''' then Inl (new_error ''empty statement'')
      else case pg_parse pg trimmed of
        Inl err \<Rightarrow> Inl (wrap_error ''parse: '' err '''')
      | Inr stmts \<Rightarrow>
          if length stmts \<noteq> 1
          then Inl (wrap_error '''' err_multiple_statements ('': found '' @ show_nat (length stmts)))
          else
            let raw = hd stmts in
            case raw of
              SelectNode sel \<Rightarrow>
                (case rejectDataModifyingCTEs sel of
                   Some err \<Rightarrow> Inl err
                 | None \<Rightarrow>
                     if into_clause sel \<noteq> None
                     then Inl (read_only_refusal '': SELECT INTO creates a table'')
                     else if locking_clause sel \<noteq> []
                     then Inl (read_only_refusal
                            '': locking clauses (FOR UPDATE/SHARE) take row locks'')
                     else
                       let ctes = cteNames sel in
                       Inr \<lparr>st_sql = trimmed,
                            st_dialect = DialectPostgres,
                            st_normalized =
                              (case pg_normalize pg trimmed of Inl _ \<Rightarrow> trimmed | Inr n \<Rightarrow> n),
                            st_fingerprint =
                              (case pg_fingerprint pg trimmed of Inl _ \<Rightarrow> '''' | Inr f \<Rightarrow> f),
                            st_tables = collectTables raw ctes,
                            st_cte_names = ctes,
                            st_output_cols = outputColumns sel,
                            st_has_limit = (limit_count sel \<noteq> None),
                            st_has_order_by = (sort_clause sel \<noteq> []),
                            st_select_star = hasSelectStar sel,
                            st_tree = Some stmts\<rparr>)
            | _ \<Rightarrow> Inl (read_only_refusal ('' (statement type: '' @ nodeKind (Some raw) @ '')'')))"

section \<open>What an accepted statement is\<close>

text \<open>
  The queries that the \<open>WITH\<close> clause of a select defines, and those that the \<open>WITH\<close> clauses of
  selects among them define, and so on.
\<close>

definition cte_queries :: "pg_node list \<Rightarrow> pg_node list" where
  "cte_queries ctes =
     concat (map (\<lambda>cte. case cte of CteNode n q cs \<Rightarrow> opt_list q | _ \<Rightarrow> []) ctes)"

inductive with_reaches :: "pg_select \<Rightarrow> pg_node \<Rightarrow> bool" where
  own: "with_clause sel = Some ctes \<Longrightarrow> q \<in> set (cte_queries ctes) \<Longrightarrow> with_reaches sel q"
| nested: "with_clause sel = Some ctes \<Longrightarrow> SelectNode inner \<in> set (cte_queries ctes) \<Longrightarrow>
    with_reaches inner q \<Longrightarrow> with_reaches sel q"

inductive_cases with_reachesE: "with_reaches sel q"

definition is_select :: "pg_node \<Rightarrow> bool" where
  "is_select q = (case q of SelectNode _ \<Rightarrow> True | _ \<Rightarrow> False)"

lemma is_select_simps [simp]: "is_select (SelectNode s)"
  by (simp add: is_select_def)

lemma is_select_iff: "is_select q \<longleftrightarrow> (\<exists>s. q = SelectNode s)"
  by (cases q) (simp_all add: is_select_def)

lemma cte_queries_simps:
  "cte_queries [] = []"
  "cte_queries (c # cs) = (case c of CteNode n q ds \<Rightarrow> opt_list q | _ \<Rightarrow> []) @ cte_queries cs"
  by (simp_all add: cte_queries_def)

lemma cte_queries_size: "q \<in> set (cte_queries ctes) \<Longrightarrow> size q < size_list size ctes"
proof (induction ctes)
  case (Cons c ctes)
  then show ?case by (cases c) (auto simp: cte_queries_simps dest: size_option_member)
qed (simp add: cte_queries_simps)

lemma reject_ctes_None:
  "reject_ctes ctes = None \<longleftrightarrow>
     list_all (\<lambda>q. case q of SelectNode s \<Rightarrow> rejectDataModifyingCTEs s = None | _ \<Rightarrow> False)
       (cte_queries ctes)"
proof (induction ctes)
  case Nil
  then show ?case by (simp add: reject_ctes.simps cte_queries_simps)
next
  case (Cons c ctes)
  show ?case
  proof (cases "\<exists>n q cs. c = CteNode n (Some q) cs")
    case True
    then obtain n q cs where c: "c = CteNode n (Some q) cs" by blast
    show ?thesis
      by (cases q) (simp_all add: c reject_ctes.simps(2) cte_queries_simps Cons.IH
          opt_list_def split: option.split)
  next
    case False
    then show ?thesis
      by (cases c) (auto simp: reject_ctes.simps(2) cte_queries_simps Cons.IH
          opt_list_def split: option.splits)
  qed
qed

lemma rejectDataModifyingCTEs_None:
  "rejectDataModifyingCTEs sel = None \<longleftrightarrow> (\<forall>q. with_reaches sel q \<longrightarrow> is_select q)"
proof (induction "size sel" arbitrary: sel rule: less_induct)
  case less
  show ?case
  proof (cases "with_clause sel")
    case None
    then show ?thesis
      by (auto simp: rejectDataModifyingCTEs.simps elim: with_reachesE)
  next
    case (Some ctes)
    have ih: "rejectDataModifyingCTEs s = None \<longleftrightarrow> (\<forall>q. with_reaches s q \<longrightarrow> is_select q)"
      if "SelectNode s \<in> set (cte_queries ctes)" for s
      using cte_queries_size [OF that] with_clause_size [OF Some] by (intro less.hyps) simp
    have "rejectDataModifyingCTEs sel = None \<longleftrightarrow> (\<forall>q \<in> set (cte_queries ctes).
        is_select q \<and> (\<forall>s. q = SelectNode s \<longrightarrow> rejectDataModifyingCTEs s = None))"
      using Some
      by (auto simp: rejectDataModifyingCTEs.simps reject_ctes_None list_all_iff is_select_def
          split: pg_node.splits)
    also have "\<dots> \<longleftrightarrow> (\<forall>q \<in> set (cte_queries ctes).
        is_select q \<and> (\<forall>s r. q = SelectNode s \<longrightarrow> with_reaches s r \<longrightarrow> is_select r))"
      using ih by blast
    also have "\<dots> \<longleftrightarrow> (\<forall>q. with_reaches sel q \<longrightarrow> is_select q)"
    proof -
      have "with_reaches sel q \<longleftrightarrow> q \<in> set (cte_queries ctes) \<or>
          (\<exists>s. SelectNode s \<in> set (cte_queries ctes) \<and> with_reaches s q)" for q
        using Some by (subst with_reaches.simps) auto
      then show ?thesis by (simp only:) blast
    qed
    finally show ?thesis .
  qed
qed

text \<open>
  The top-level conditions under which \<open>Parse\<close> accepts a select: no data-modifying CTE, no
  \<open>INTO\<close>, no locking clause.
\<close>

definition clean_select :: "pg_select \<Rightarrow> bool" where
  "clean_select sel \<longleftrightarrow>
     rejectDataModifyingCTEs sel = None \<and> into_clause sel = None \<and> locking_clause sel = []"

lemma Parse_ok_cond:
  "is_ok (Parse pg sql) \<longleftrightarrow>
     trim_space sql \<noteq> '''' \<and>
     (\<exists>sel. pg_parse pg (trim_space sql) = Inr [SelectNode sel] \<and> clean_select sel)"
proof (cases "trim_space sql = '''' \<or> (\<exists>e. pg_parse pg (trim_space sql) = Inl e)")
  case True
  then show ?thesis by (auto simp: Parse_def is_ok_def Let_def)
next
  case False
  then obtain stmts where p: "pg_parse pg (trim_space sql) = Inr stmts"
    and ne: "trim_space sql \<noteq> ''''"
    by (cases "pg_parse pg (trim_space sql)") auto
  show ?thesis
  proof (cases "\<exists>raw. stmts = [raw]")
    case True
    then obtain raw where stmts: "stmts = [raw]" by blast
    show ?thesis
      by (cases raw) (simp_all add: Parse_def p ne stmts is_ok_def Let_def clean_select_def
          split: option.split)
  next
    case False
    then have "length stmts \<noteq> 1" by (simp add: length_Suc_conv)
    with False show ?thesis by (auto simp: Parse_def p ne is_ok_def Let_def)
  qed
qed

lemma Parse_okE:
  assumes "Parse pg sql = Inr st"
  obtains sel where "pg_parse pg (trim_space sql) = Inr [SelectNode sel]" "clean_select sel"
    "st_sql st = trim_space sql" "st_dialect st = DialectPostgres"
    "st_tables st = collectTables (SelectNode sel) (cteNames sel)"
    "st_cte_names st = cteNames sel" "st_output_cols st = outputColumns sel"
    "st_has_limit st = (limit_count sel \<noteq> None)" "st_has_order_by st = (sort_clause sel \<noteq> [])"
    "st_select_star st = hasSelectStar sel" "st_tree st = Some [SelectNode sel]"
proof -
  have "is_ok (Parse pg sql)" using assms by simp
  then obtain sel where sel: "pg_parse pg (trim_space sql) = Inr [SelectNode sel]"
      "clean_select sel" and ne: "trim_space sql \<noteq> ''''"
    by (auto simp: Parse_ok_cond)
  show ?thesis
    using assms ne sel that [OF sel] by (auto simp: Parse_def Let_def clean_select_def)
qed

text \<open>A statement that is not a select is refused with the read-only sentinel.\<close>

lemma Parse_not_select:
  assumes "trim_space sql \<noteq> ''''" and "pg_parse pg (trim_space sql) = Inr [raw]"
    and "\<not> is_select raw"
  shows "\<exists>e. Parse pg sql = Inl e \<and> errors_is e ErrNotReadOnly"
  using assms by (cases raw) (simp_all add: Parse_def is_select_def Let_def)

lemma reject_ctes_sentinel:
  assumes "\<And>s e. SelectNode s \<in> set (cte_queries ctes) \<Longrightarrow> rejectDataModifyingCTEs s = Some e \<Longrightarrow>
      errors_is e ErrNotReadOnly"
    and "reject_ctes ctes = Some e"
  shows "errors_is e ErrNotReadOnly"
  using assms
proof (induction ctes)
  case (Cons c ctes)
  show ?case
  proof (cases "\<exists>n q cs. c = CteNode n (Some q) cs")
    case True
    then obtain n q cs where c: "c = CteNode n (Some q) cs" by blast
    show ?thesis
    proof (cases q)
      case (SelectNode s)
      with Cons show ?thesis
        by (cases "rejectDataModifyingCTEs s")
          (auto simp: c reject_ctes.simps cte_queries_simps opt_list_def)
    qed (use Cons.prems(2) c in \<open>auto simp: reject_ctes.simps\<close>)
  next
    case False
    then have "reject_ctes (c # ctes) = reject_ctes ctes"
      by (auto simp: reject_ctes.simps split: pg_node.splits option.splits)
    with Cons.prems(2) have r: "reject_ctes ctes = Some e" by simp
    show ?thesis
      by (rule Cons.IH [OF Cons.prems(1) r]) (simp_all add: cte_queries_simps)
  qed
qed (simp add: reject_ctes.simps)

lemma rejectDataModifyingCTEs_sentinel:
  "rejectDataModifyingCTEs sel = Some e \<Longrightarrow> errors_is e ErrNotReadOnly"
proof (induction "size sel" arbitrary: sel e rule: less_induct)
  case less
  then obtain ctes where ctes: "with_clause sel = Some ctes" and r: "reject_ctes ctes = Some e"
    by (auto simp: rejectDataModifyingCTEs.simps split: option.splits)
  show ?case
  proof (rule reject_ctes_sentinel [OF _ r])
    fix s e'
    assume "SelectNode s \<in> set (cte_queries ctes)" and "rejectDataModifyingCTEs s = Some e'"
    with cte_queries_size [of "SelectNode s" ctes] with_clause_size [OF ctes]
    show "errors_is e' ErrNotReadOnly" by (intro less.hyps [of s]) auto
  qed
qed

section \<open>The table list\<close>

text \<open>The references among some nodes that are not references to a CTE.\<close>

definition node_refs :: "string list \<Rightarrow> pg_node \<Rightarrow> table_ref list" where
  "node_refs cte n =
     (case n of
        RangeVarNode sn rn al cs \<Rightarrow>
          if to_lower rn \<in> set cte \<and> sn = '''' then []
          else [\<lparr>ref_schema = sn, ref_name = rn,
                 ref_alias = (case al of None \<Rightarrow> '''' | Some a \<Rightarrow> a)\<rparr>]
      | _ \<Rightarrow> [])"

definition table_refs :: "string list \<Rightarrow> pg_node list \<Rightarrow> table_ref list" where
  "table_refs cte ns = concat (map (node_refs cte) ns)"

lemma node_refs_mem:
  "ref \<in> set (node_refs cte n) \<longleftrightarrow>
     (\<exists>sn rn al cs. n = RangeVarNode sn rn al cs \<and> \<not> (to_lower rn \<in> set cte \<and> sn = '''') \<and>
        ref = \<lparr>ref_schema = sn, ref_name = rn, ref_alias = (case al of None \<Rightarrow> '''' | Some a \<Rightarrow> a)\<rparr>)"
  by (cases n) (auto simp: node_refs_def)

lemma table_refs_mem: "ref \<in> set (table_refs cte ns) \<longleftrightarrow> (\<exists>n \<in> set ns. ref \<in> set (node_refs cte n))"
  by (simp add: table_refs_def)

lemma fold_collect_visit:
  "snd (fold (collect_visit cte) ns (seen, out)) = out @ dedup_by ref_key seen (table_refs cte ns)"
proof (induction ns arbitrary: seen out)
  case Nil
  then show ?case by (simp add: table_refs_def)
next
  case (Cons n ns)
  then show ?case by (cases n) (simp_all add: table_refs_def node_refs_def Let_def)
qed

lemma collectTables_eq:
  "collectTables node ctes = sort_key Qualified (dedup_by ref_key [] (table_refs ctes (walk_nodes node)))"
  by (simp add: collectTables_def walk_def fold_collect_visit)

lemma collectTables_facts:
  "sorted (map Qualified (collectTables node ctes))"
  "distinct (map ref_key (collectTables node ctes))"
  "set (collectTables node ctes) \<subseteq> set (table_refs ctes (walk_nodes node))"
  "ref_key ` set (collectTables node ctes) = ref_key ` set (table_refs ctes (walk_nodes node))"
proof -
  let ?d = "dedup_by ref_key [] (table_refs ctes (walk_nodes node))"
  show "sorted (map Qualified (collectTables node ctes))"
    by (simp add: collectTables_eq)
  have "mset (map ref_key (collectTables node ctes)) = mset (map ref_key ?d)"
    by (simp add: collectTables_eq)
  then show "distinct (map ref_key (collectTables node ctes))"
    using distinct_dedup_by mset_eq_imp_distinct_iff by blast
  show "set (collectTables node ctes) \<subseteq> set (table_refs ctes (walk_nodes node))"
    by (simp add: collectTables_eq set_dedup_by)
  show "ref_key ` set (collectTables node ctes) = ref_key ` set (table_refs ctes (walk_nodes node))"
    by (simp add: collectTables_eq dedup_by_keys)
qed

end
