(* ===== verification/Sqlparse_MySQL.thy ===== *)
theory Sqlparse_MySQL
  imports Sql_Statement
begin

text \<open>
  \<open>internal/sqlparse/mysql.go\<close>: the MySQL path.  TiDB's parser is the parameter \<open>tidb\<close>; its
  syntax tree is data, each node with its children in the order \<open>Accept\<close> visits them, and
  \<open>Accept\<close> is the documented visitor protocol of its \<open>ast\<close> package: \<open>Enter\<close> before the
  children (and it may skip them), \<open>Leave\<close> after them, and the walk ends when \<open>Leave\<close> says so.
\<close>

section \<open>The tree and its visitor protocol\<close>

datatype my_dml = MyInsertStmt | MyUpdateStmt | MyDeleteStmt | MyLoadDataStmt

text \<open>A select field: is it a wildcard, its alias, the name if it is a bare column.\<close>

datatype my_field = MyField (wild_card: bool) (as_name: string) (field_column: "string option")

record my_select =
  lock_type :: "bool option"      \<comment> \<open>\<open>LockInfo\<close>: None is nil, Some False is \<open>SelectLockNone\<close>\<close>
  select_into :: bool
  limit :: bool
  order_items :: "nat option"     \<comment> \<open>\<open>OrderBy\<close> and the number of its items\<close>
  select_fields :: "my_field list option"

datatype my_node =
    MySelectStmt my_select "my_node list"
  | MySetOprStmt bool "my_node list"
      \<comment> \<open>does the set operation carry an ORDER BY of its own\<close>
  | MyDmlStmt my_dml "my_node list"
  | MyWithClause "string list" "my_node list"
  | MyTableSource my_node string
  | MyTableName string string "my_node list"
  | MyOtherNode string "my_node list"

fun my_children :: "my_node \<Rightarrow> my_node list" where
  "my_children (MySelectStmt s cs) = cs"
| "my_children (MySetOprStmt o1 cs) = cs"
| "my_children (MyDmlStmt k cs) = cs"
| "my_children (MyWithClause ns cs) = cs"
| "my_children (MyTableSource src al) = [src]"
| "my_children (MyTableName sn n cs) = cs"
| "my_children (MyOtherNode t cs) = cs"

lemma my_children_size: "c \<in> set (my_children n) \<Longrightarrow> size c < size n"
  by (cases n) (auto dest: size_list_member)

lemma my_children_list_size: "size_list size (my_children n) \<le> size n"
  by (cases n) auto

record 's my_visitor =
  enter :: "my_node \<Rightarrow> 's \<Rightarrow> 's \<times> bool"
  leave :: "'s \<Rightarrow> bool"

function Accept :: "'s my_visitor \<Rightarrow> my_node \<Rightarrow> 's \<Rightarrow> 's \<times> bool"
  and accept_list :: "'s my_visitor \<Rightarrow> my_node list \<Rightarrow> 's \<Rightarrow> 's \<times> bool" where
  "Accept v n s =
     (case enter v n s of
        (s1, skip) \<Rightarrow>
          if skip then (s1, leave v s1)
          else case accept_list v (my_children n) s1 of
                 (s2, ok) \<Rightarrow> if \<not> ok then (s2, False) else (s2, leave v s2))"
| "accept_list v [] s = (s, True)"
| "accept_list v (c # cs) s =
     (case Accept v c s of (s1, ok) \<Rightarrow> if \<not> ok then (s1, False) else accept_list v cs s1)"
  by pat_completeness auto
termination
  by (relation "measure (\<lambda>x. case x of Inl (v, n, s) \<Rightarrow> 2 * size n + 1 | Inr (v, cs, s) \<Rightarrow> 2 * size_list size cs)")
    (auto simp: le_imp_less_Suc my_children_list_size)

declare Accept.simps [simp del] accept_list.simps [simp del]

section \<open>The write-form guard\<close>

fun my_type_name :: "my_node \<Rightarrow> string" where
  "my_type_name (MySelectStmt s cs) = ''*ast.SelectStmt''"
| "my_type_name (MySetOprStmt o1 cs) = ''*ast.SetOprStmt''"
| "my_type_name (MyDmlStmt k cs) =
     (case k of MyInsertStmt \<Rightarrow> ''*ast.InsertStmt'' | MyUpdateStmt \<Rightarrow> ''*ast.UpdateStmt''
      | MyDeleteStmt \<Rightarrow> ''*ast.DeleteStmt'' | MyLoadDataStmt \<Rightarrow> ''*ast.LoadDataStmt'')"
| "my_type_name (MyWithClause ns cs) = ''*ast.WithClause''"
| "my_type_name (MyTableSource src al) = ''*ast.TableSource''"
| "my_type_name (MyTableName sn n cs) = ''*ast.TableName''"
| "my_type_name (MyOtherNode t cs) = t"

definition my_refusal :: "string \<Rightarrow> go_error" where
  "my_refusal detail = wrap_error '''' err_not_read_only detail"

definition guard_enter :: "my_node \<Rightarrow> go_error option \<Rightarrow> go_error option \<times> bool" where
  "guard_enter n err =
     (if err \<noteq> None then (err, True)
      else case n of
        MySelectStmt s cs \<Rightarrow>
          if lock_type s = Some True
          then (Some (my_refusal '': locking clauses (FOR UPDATE / LOCK IN SHARE MODE) take row locks''), True)
          else if select_into s
          then (Some (my_refusal '': SELECT ... INTO writes outside the result set''), True)
          else (None, False)
      | MyDmlStmt k cs \<Rightarrow> (Some (my_refusal ('': statement contains a '' @ my_type_name n)), True)
      | _ \<Rightarrow> (None, False))"

definition mysqlGuard :: "go_error option my_visitor" where
  "mysqlGuard = \<lparr>enter = guard_enter, leave = (\<lambda>err. err = None)\<rparr>"

definition rejectMySQLWriteForms :: "my_node \<Rightarrow> go_error option" where
  "rejectMySQLWriteForms n = fst (Accept mysqlGuard n None)"

section \<open>The collector\<close>

record my_collector =
  mc_tables :: "table_ref list"
  mc_cte_names :: "string list"
  mc_output_cols :: "string list"
  mc_select_star :: bool
  mc_has_limit :: bool
  mc_has_order_by :: bool
  mc_seen_top :: bool

definition mysqlColumnName :: "my_field \<Rightarrow> string" where
  "mysqlColumnName f =
     (if as_name f \<noteq> '''' then as_name f
      else case field_column f of Some c \<Rightarrow> c | None \<Rightarrow> '''')"

definition collect_fields :: "my_field list \<Rightarrow> my_collector \<Rightarrow> my_collector" where
  "collect_fields fs c =
     fold (\<lambda>f c. if wild_card f
                 then c\<lparr>mc_select_star := True, mc_output_cols := mc_output_cols c @ ['''']\<rparr>
                 else c\<lparr>mc_output_cols := mc_output_cols c @ [mysqlColumnName f]\<rparr>) fs c"

fun collector_enter :: "my_node \<Rightarrow> my_collector \<Rightarrow> my_collector \<times> bool" where
  "collector_enter (MyWithClause ns cs) c = (c\<lparr>mc_cte_names := mc_cte_names c @ ns\<rparr>, False)"
| "collector_enter (MyTableSource (MyTableName sn n cs) al) c =
     (c\<lparr>mc_tables := mc_tables c @ [\<lparr>ref_schema = sn, ref_name = n, ref_alias = al\<rparr>]\<rparr>, True)"
| "collector_enter (MyTableName sn n cs) c =
     (c\<lparr>mc_tables := mc_tables c @ [\<lparr>ref_schema = sn, ref_name = n, ref_alias = ''''\<rparr>]\<rparr>, False)"
| "collector_enter (MySelectStmt v cs) c =
     (if mc_seen_top c then (c, False)
      else
        let c1 = c\<lparr>mc_seen_top := True, mc_has_limit := limit v,
                   mc_has_order_by := (case order_items v of None \<Rightarrow> False | Some k \<Rightarrow> k > 0)\<rparr>
        in ((case select_fields v of None \<Rightarrow> c1 | Some fs \<Rightarrow> collect_fields fs c1), False))"
| "collector_enter n c = (c, False)"

definition mysqlCollector :: "my_collector my_visitor" where
  "mysqlCollector = \<lparr>enter = collector_enter, leave = (\<lambda>_. True)\<rparr>"

definition empty_collector :: my_collector where
  "empty_collector = \<lparr>mc_tables = [], mc_cte_names = [], mc_output_cols = [],
     mc_select_star = False, mc_has_limit = False, mc_has_order_by = False, mc_seen_top = False\<rparr>"

text \<open>\<open>dedupeTables\<close>: the keys of its \<open>seen\<close> map, with the NUL byte of the source.\<close>

definition bare_key :: "table_ref \<Rightarrow> string" where
  "bare_key t = to_lower (ref_schema t @ ''.'' @ ref_name t)"

definition full_key :: "table_ref \<Rightarrow> string" where
  "full_key t = to_lower (ref_schema t @ ''.'' @ ref_name t @ [CHR 0x00] @ ref_alias t)"

definition aliased_key :: "table_ref \<Rightarrow> string" where
  "aliased_key t = ''aliased'' @ [CHR 0x00] @ bare_key t"

fun dedupe_loop :: "string list \<Rightarrow> table_ref list \<Rightarrow> table_ref list" where
  "dedupe_loop seen [] = []"
| "dedupe_loop seen (t # ts) =
     (if full_key t \<in> set seen then dedupe_loop seen ts
      else if ref_alias t = '''' \<and> aliased_key t \<in> set seen then dedupe_loop seen ts
      else if ref_alias t = '''' then t # dedupe_loop (full_key t # seen) ts
      else t # dedupe_loop (full_key t # aliased_key t # seen) ts)"

definition dedupeTables :: "table_ref list \<Rightarrow> table_ref list" where
  "dedupeTables ts = dedupe_loop [] ts"

definition filterCTEs :: "table_ref list \<Rightarrow> string list \<Rightarrow> table_ref list" where
  "filterCTEs ts cte_names =
     (if cte_names = [] then dedupeTables ts
      else dedupeTables
        (filter (\<lambda>t. \<not> (ref_schema t = '''' \<and> to_lower (ref_name t) \<in> set (map to_lower cte_names))) ts))"

section \<open>ParseMySQL\<close>

record tidb =
  tidb_parse :: "string \<Rightarrow> (my_node list \<times> string list) result"
  tidb_normalize_digest :: "string \<Rightarrow> string \<times> string"

definition ParseMySQL :: "tidb \<Rightarrow> string \<Rightarrow> statement result" where
  "ParseMySQL p sql =
     (let trimmed = trim_space sql in
      if trimmed = '''' then Inl (new_error ''empty statement'')
      else case tidb_parse p trimmed of
        Inl err \<Rightarrow> Inl (wrap_error ''parse: '' err '''')
      | Inr (stmts, warns) \<Rightarrow>
          if length stmts \<noteq> 1
          then Inl (wrap_error '''' err_multiple_statements ('': found '' @ show_nat (length stmts)))
          else if warns \<noteq> []
          then Inl (new_error (''parse produced warnings, refusing: '' @ hd warns))
          else
            let r = hd stmts in
            if \<not> (case r of MySelectStmt s cs \<Rightarrow> True | MySetOprStmt o1 cs \<Rightarrow> True | _ \<Rightarrow> False)
            then Inl (my_refusal ('' (statement type: '' @ my_type_name r @ '')''))
            else case rejectMySQLWriteForms r of
              Some err \<Rightarrow> Inl err
            | None \<Rightarrow>
                let (normalized, digest) = tidb_normalize_digest p trimmed;
                    c = fst (Accept mysqlCollector r empty_collector)
                in Inr \<lparr>st_sql = trimmed, st_dialect = DialectMySQL,
                        st_normalized = normalized, st_fingerprint = digest,
                        st_tables = filterCTEs (mc_tables c) (mc_cte_names c),
                        st_cte_names = mc_cte_names c,
                        st_output_cols = mc_output_cols c,
                        st_has_limit = mc_has_limit c,
                        st_has_order_by = mc_has_order_by c,
                        st_select_star = mc_select_star c,
                        st_tree = None\<rparr>)"

section \<open>What the guard refuses\<close>

function my_nodes :: "my_node \<Rightarrow> my_node list" where
  "my_nodes n = n # concat (map my_nodes (my_children n))"
  by pat_completeness auto
termination
  by (relation "measure size") (auto simp: my_children_size)

declare my_nodes.simps [simp del]

definition write_form :: "my_node \<Rightarrow> bool" where
  "write_form n =
     (case n of
        MySelectStmt s cs \<Rightarrow> lock_type s = Some True \<or> select_into s
      | MyDmlStmt k cs \<Rightarrow> True
      | _ \<Rightarrow> False)"

lemma guard_enter_clean: "\<not> write_form n \<Longrightarrow> guard_enter n None = (None, False)"
  by (cases n) (simp_all add: guard_enter_def write_form_def)

lemma guard_enter_dirty:
  "write_form n \<Longrightarrow> \<exists>e. guard_enter n None = (Some e, True) \<and> errors_is e ErrNotReadOnly"
  by (cases n) (auto simp: guard_enter_def write_form_def my_refusal_def)

text \<open>What a walk of the guard over some nodes leaves: the first refusal, if there is one.\<close>

definition guard_spec :: "my_node list \<Rightarrow> go_error option \<times> bool \<Rightarrow> bool" where
  "guard_spec ns r \<longleftrightarrow>
     snd r = (fst r = None) \<and> (fst r = None \<longleftrightarrow> list_all (\<lambda>m. \<not> write_form m) ns) \<and>
     (\<forall>e. fst r = Some e \<longrightarrow> errors_is e ErrNotReadOnly)"

lemma guard_spec_list:
  "(\<And>c. c \<in> set cs \<Longrightarrow> guard_spec (my_nodes c) (Accept mysqlGuard c None)) \<Longrightarrow>
   guard_spec (concat (map my_nodes cs)) (accept_list mysqlGuard cs None)"
proof (induction cs)
  case Nil
  then show ?case by (simp add: accept_list.simps guard_spec_def)
next
  case (Cons c cs)
  obtain err ok where a: "Accept mysqlGuard c None = (err, ok)" by fastforce
  have c: "guard_spec (my_nodes c) (err, ok)" using Cons.prems [of c] a by simp
  have cs: "guard_spec (concat (map my_nodes cs)) (accept_list mysqlGuard cs None)"
    using Cons by simp
  show ?case
  proof (cases err)
    case None
    with a c cs show ?thesis by (simp add: accept_list.simps guard_spec_def)
  next
    case (Some e)
    with a c show ?thesis by (simp add: accept_list.simps guard_spec_def)
  qed
qed

lemma guard_spec_node: "guard_spec (my_nodes n) (Accept mysqlGuard n None)"
proof (induction n rule: my_nodes.induct)
  case (1 n)
  have kids: "guard_spec (concat (map my_nodes (my_children n))) (accept_list mysqlGuard (my_children n) None)"
    using 1 by (rule guard_spec_list)
  have guard: "enter mysqlGuard = guard_enter" "leave mysqlGuard = (\<lambda>err. err = None)"
    by (simp_all add: mysqlGuard_def)
  show ?case
  proof (cases "write_form n")
    case True
    then obtain e where e: "guard_enter n None = (Some e, True)" "errors_is e ErrNotReadOnly"
      using guard_enter_dirty by blast
    then show ?thesis
      using True by (simp add: Accept.simps guard guard_spec_def my_nodes.simps [of n])
  next
    case False
    then have "guard_enter n None = (None, False)"
      by (rule guard_enter_clean)
    with kids False show ?thesis
      by (auto simp: Accept.simps guard guard_spec_def my_nodes.simps [of n] split: prod.splits)
  qed
qed

lemma rejectMySQLWriteForms_None:
  "rejectMySQLWriteForms n = None \<longleftrightarrow> (\<forall>m \<in> set (my_nodes n). \<not> write_form m)"
  using guard_spec_node [of n] by (simp add: rejectMySQLWriteForms_def guard_spec_def list_all_iff)

lemma rejectMySQLWriteForms_sentinel:
  "rejectMySQLWriteForms n = Some e \<Longrightarrow> errors_is e ErrNotReadOnly"
  using guard_spec_node [of n] by (simp add: rejectMySQLWriteForms_def guard_spec_def)

section \<open>What the collector gathers\<close>

text \<open>
  The collector as a fold over the nodes it enters: every node but those below a table source
  that wraps a table name.
\<close>

definition is_leaf_source :: "my_node \<Rightarrow> bool" where
  "is_leaf_source n = (case n of MyTableSource (MyTableName sn nm cs) al \<Rightarrow> True | _ \<Rightarrow> False)"

function entered :: "my_node \<Rightarrow> my_node list" where
  "entered n = n # (if is_leaf_source n then [] else concat (map entered (my_children n)))"
  by pat_completeness auto
termination
  by (relation "measure size") (auto simp: my_children_size)

declare entered.simps [simp del]

definition collect_step :: "my_node \<Rightarrow> my_collector \<Rightarrow> my_collector" where
  "collect_step n c = fst (collector_enter n c)"

lemma collector_enter_skip: "snd (collector_enter n c) = is_leaf_source n"
  by (cases "(n, c)" rule: collector_enter.cases) (simp_all add: is_leaf_source_def Let_def)

lemma entered_leaf: "is_leaf_source n \<Longrightarrow> entered n = [n]"
  "\<not> is_leaf_source n \<Longrightarrow> entered n = n # concat (map entered (my_children n))"
  by (subst entered.simps, simp)+

lemma accept_list_collector:
  "(\<And>x c. x \<in> set cs \<Longrightarrow> Accept mysqlCollector x c = (fold collect_step (entered x) c, True)) \<Longrightarrow>
   accept_list mysqlCollector cs c = (fold collect_step (concat (map entered cs)) c, True)"
  by (induction cs arbitrary: c) (simp_all add: accept_list.simps)

lemma Accept_collector: "Accept mysqlCollector n c = (fold collect_step (entered n) c, True)"
proof (induction "size n" arbitrary: n c rule: less_induct)
  case less
  have kids: "accept_list mysqlCollector (my_children n) c =
      (fold collect_step (concat (map entered (my_children n))) c, True)" for c
    by (rule accept_list_collector) (simp add: less.hyps my_children_size)
  have col: "enter mysqlCollector = collector_enter" "leave mysqlCollector = (\<lambda>_. True)"
    by (simp_all add: mysqlCollector_def)
  obtain c1 skip where e: "collector_enter n c = (c1, skip)" by fastforce
  have "skip = is_leaf_source n" "c1 = collect_step n c"
    using collector_enter_skip [of n c] e by (simp_all add: collect_step_def)
  with e kids show ?case
    by (cases "is_leaf_source n") (simp_all add: Accept.simps col entered_leaf)
qed

lemma collect_fields_frame:
  "mc_has_order_by (collect_fields fs c) = mc_has_order_by c"
  "mc_has_limit (collect_fields fs c) = mc_has_limit c"
  "mc_seen_top (collect_fields fs c) = mc_seen_top c"
  by (induction fs arbitrary: c) (simp_all add: collect_fields_def)

lemma collect_step_seen:
  assumes "mc_seen_top c"
  shows "mc_seen_top (collect_step n c)" "mc_has_order_by (collect_step n c) = mc_has_order_by c"
    "mc_has_limit (collect_step n c) = mc_has_limit c"
  using assms by (cases "(n, c)" rule: collector_enter.cases; simp add: collect_step_def)+

lemma fold_collect_step_seen:
  assumes "mc_seen_top c"
  shows "mc_has_order_by (fold collect_step ns c) = mc_has_order_by c"
    and "mc_has_limit (fold collect_step ns c) = mc_has_limit c"
proof -
  have "mc_seen_top (fold collect_step ns c) \<and>
      mc_has_order_by (fold collect_step ns c) = mc_has_order_by c \<and>
      mc_has_limit (fold collect_step ns c) = mc_has_limit c"
    using assms
  proof (induction ns arbitrary: c)
    case (Cons n ns)
    then show ?case using collect_step_seen [of c n] by simp
  qed simp
  then show "mc_has_order_by (fold collect_step ns c) = mc_has_order_by c"
    and "mc_has_limit (fold collect_step ns c) = mc_has_limit c" by simp_all
qed

text \<open>Only a plain select at the top decides whether the statement is ordered or limited.\<close>

definition promises_order :: "my_select \<Rightarrow> bool" where
  "promises_order s = (case order_items s of None \<Rightarrow> False | Some k \<Rightarrow> k > 0)"

lemma collector_top_select:
  "mc_has_order_by (fst (Accept mysqlCollector (MySelectStmt s cs) empty_collector)) = promises_order s"
  "mc_has_limit (fst (Accept mysqlCollector (MySelectStmt s cs) empty_collector)) = limit s"
proof -
  let ?c = "collect_step (MySelectStmt s cs) empty_collector"
  have top: "mc_seen_top ?c" "mc_has_order_by ?c = promises_order s" "mc_has_limit ?c = limit s"
    by (auto simp: collect_step_def empty_collector_def Let_def collect_fields_frame
        promises_order_def split: option.splits)
  have "entered (MySelectStmt s cs) = MySelectStmt s cs # concat (map entered cs)"
    by (simp add: entered_leaf is_leaf_source_def)
  then show "mc_has_order_by (fst (Accept mysqlCollector (MySelectStmt s cs) empty_collector)) = promises_order s"
    and "mc_has_limit (fst (Accept mysqlCollector (MySelectStmt s cs) empty_collector)) = limit s"
    using fold_collect_step_seen [OF top(1), of "concat (map entered cs)"] top
    by (simp_all add: Accept_collector)
qed

lemma set_dedupe_loop: "set (dedupe_loop seen ts) \<subseteq> set ts"
proof (induction seen ts rule: dedupe_loop.induct)
  case (2 seen t ts)
  then show ?case by (cases "full_key t \<in> set seen"; cases "ref_alias t = ''''";
        cases "aliased_key t \<in> set seen") auto
qed simp

lemma dedupe_loop_seen: "full_key ` set (dedupe_loop seen ts) \<inter> set seen = {}"
proof (induction seen ts rule: dedupe_loop.induct)
  case (2 seen t ts)
  then show ?case by (cases "full_key t \<in> set seen"; cases "ref_alias t = ''''";
        cases "aliased_key t \<in> set seen") auto
qed simp

lemma distinct_dedupe_loop: "distinct (map full_key (dedupe_loop seen ts))"
proof (induction seen ts rule: dedupe_loop.induct)
  case (2 seen t ts)
  with dedupe_loop_seen [of "full_key t # seen" ts]
    dedupe_loop_seen [of "full_key t # aliased_key t # seen" ts] show ?case
    by (cases "full_key t \<in> set seen"; cases "ref_alias t = ''''";
        cases "aliased_key t \<in> set seen") auto
qed simp

end
