(* ===== verification/Sqlparse.thy ===== *)
theory Sqlparse
  imports Sqlparse_Postgres Sqlparse_MySQL
begin

text \<open>
  \<open>sqlparse.ParseDialect\<close>: the one entrance to both grammars.  The two parser libraries are fields of
  the parameter \<open>parsers\<close>.
\<close>

record parsers =
  pg_lib :: pg_query
  my_lib :: tidb

definition ParseDialect :: "parsers \<Rightarrow> string \<Rightarrow> sql_dialect \<Rightarrow> statement result" where
  "ParseDialect lib sql d =
     (if d = DialectMySQL then ParseMySQL (my_lib lib) sql
      else if d = DialectPostgres \<or> d = '''' then Parse (pg_lib lib) sql
      else Inl (new_error (''unknown dialect '' @ go_quote d)))"

lemma Parse_sql: "Parse pg sql = Inr st \<Longrightarrow> st_sql st = trim_space sql \<and> st_dialect st = DialectPostgres"
  by (auto simp: Parse_def Let_def split: if_splits sum.splits pg_node.splits option.splits)

lemma ParseMySQL_sql: "ParseMySQL p sql = Inr st \<Longrightarrow> st_sql st = trim_space sql \<and> st_dialect st = DialectMySQL"
  by (auto simp: ParseMySQL_def Let_def split: if_splits sum.splits option.splits prod.splits)

lemma ParseDialect_sql: "ParseDialect lib sql d = Inr st \<Longrightarrow> st_sql st = trim_space sql"
  by (auto simp: ParseDialect_def dest: Parse_sql ParseMySQL_sql split: if_splits)

lemma ParseDialect_dialect:
  "ParseDialect lib sql d = Inr st \<Longrightarrow> st_dialect st = (if d = DialectMySQL then DialectMySQL else DialectPostgres)"
  by (auto simp: ParseDialect_def dest: Parse_sql ParseMySQL_sql split: if_splits)

end
