(* ===== verification/Verify.thy ===== *)
theory Verify
  imports Sqlparse Engine_Types Db_Effects
begin

text \<open>
  \<open>internal/optimizer/verify.go\<close>: the verification loop.  A candidate is accepted only when it parses
  as a read-only statement of the same shape, returns the same result, and is measurably faster.
\<close>

section \<open>Types\<close>

datatype verdict = VerdictAccepted | VerdictRejected | VerdictError

datatype reject_reason =
    NoReason
  | ReasonUnparseable
  | ReasonNotReadOnly
  | ReasonShapeMismatch
  | ReasonResultMismatch
  | ReasonNotFaster
  | ReasonTimedOut
  | ReasonIdentical
  | ReasonExecutionError

definition reason_text :: "reject_reason \<Rightarrow> string" where
  "reason_text r =
     (case r of NoReason \<Rightarrow> ''''
      | ReasonUnparseable \<Rightarrow> ''candidate_does_not_parse''
      | ReasonNotReadOnly \<Rightarrow> ''candidate_is_not_read_only''
      | ReasonShapeMismatch \<Rightarrow> ''output_shape_differs''
      | ReasonResultMismatch \<Rightarrow> ''results_differ''
      | ReasonNotFaster \<Rightarrow> ''no_measurable_improvement''
      | ReasonTimedOut \<Rightarrow> ''candidate_timed_out''
      | ReasonIdentical \<Rightarrow> ''identical_to_original''
      | ReasonExecutionError \<Rightarrow> ''candidate_failed_to_execute'')"

record candidate =
  c_sql :: string
  c_source :: string
  c_rationale :: string

record vresult =
  r_candidate :: candidate
  r_verdict :: verdict
  r_reason :: reject_reason
  r_detail :: string
  r_baseline_ms :: real
  r_candidate_ms :: real
  r_speedup :: real
  r_improvement :: real
  r_baseline_cost :: real
  r_candidate_cost :: real
  r_identical :: bool
  r_row_count :: int
  r_candidate_plan :: string

record baseline =
  b_statement :: statement
  b_plan :: plan
  b_measured :: measurement
  b_checksum :: result_hash
  b_ordered :: bool

text \<open>The verifier's settings, apart from the engine and the logger.\<close>

record verifier =
  v_min_improvement :: real
  v_runs :: int
  v_dialect :: sql_dialect

section \<open>Helpers\<close>

definition improvementPct :: "real \<Rightarrow> real \<Rightarrow> real" where
  "improvementPct base cand = (if base \<le> 0 then 0 else (base - cand) / base * 100)"

definition normalizeSQL :: "string \<Rightarrow> string" where
  "normalizeSQL s = to_lower (str_join (str_fields s) '' '')"

definition shortHash :: "string \<Rightarrow> string" where
  "shortHash h = (if length h \<le> 12 then h else take 12 h)"

definition maxFloat :: "real \<Rightarrow> real \<Rightarrow> real" where
  "maxFloat a b = (if a > b then a else b)"

definition ms_change :: "real \<Rightarrow> real \<Rightarrow> string" where
  "ms_change a b = ''('' @ show_fixed 2 a @ ''ms '' @ utf8_arrow @ '' '' @ show_fixed 2 b @ ''ms''"

definition below_threshold_detail :: "real \<Rightarrow> real \<Rightarrow> real \<Rightarrow> real \<Rightarrow> string" where
  "below_threshold_detail pct a b floor_pct =
     show_fixed 1 pct @ ''% improvement '' @ ms_change a b @ '') is below the '' @ show_fixed 0 floor_pct @ ''% threshold''"

definition noise_detail :: "real \<Rightarrow> real \<Rightarrow> string" where
  "noise_detail improvement noise =
     ''the '' @ show_fixed 2 improvement @ ''ms improvement is within measurement noise (run-to-run spread was '' @
     show_fixed 2 noise @ ''ms); re-run with more iterations if this query matters''"

definition isFaster :: "verifier \<Rightarrow> measurement \<Rightarrow> measurement \<Rightarrow> bool \<times> string" where
  "isFaster v base cand =
     (let improvement = median_ms base - median_ms cand;
          pct = improvementPct (median_ms base) (median_ms cand);
          noise = maxFloat (spread_ms base) (spread_ms cand)
      in if pct < v_min_improvement v
         then (False, below_threshold_detail pct (median_ms base) (median_ms cand) (v_min_improvement v))
         else if improvement \<le> noise then (False, noise_detail improvement noise)
         else (True, ''''))"

section \<open>The baseline\<close>

definition timeout_message :: string where
  "timeout_message =
     ''the original query exceeded the statement timeout; raise QUERY_TIMEOUT or reduce the data set''"

definition prefixed :: "string \<Rightarrow> go_error \<Rightarrow> go_error" where
  "prefixed msg err = wrap_error msg err ''''"

definition EstablishBaseline :: "'w engine \<Rightarrow> statement \<Rightarrow> int \<Rightarrow> 'w \<Rightarrow> baseline result \<times> 'w" where
  "EstablishBaseline eng st runs =
     bind_io (map_err (prefixed ''baseline plan: '') (eng_explain eng (st_sql st)))
       (\<lambda>p. bind_io (map_err (prefixed ''baseline timing: '') (eng_measure eng (st_sql st) runs))
         (\<lambda>m. if timed_out m then (\<lambda>w. (Inl (new_error timeout_message), w))
           else bind_io (map_err (prefixed ''baseline checksum: '') (eng_checksum eng (st_sql st) (st_has_order_by st)))
             (\<lambda>h. return_io \<lparr>b_statement = st, b_plan = p, b_measured = m, b_checksum = h,
                b_ordered = st_has_order_by st\<rparr>)))"

section \<open>The gate\<close>

definition initial_result :: "baseline \<Rightarrow> candidate \<Rightarrow> vresult" where
  "initial_result base c =
     \<lparr>r_candidate = c, r_verdict = VerdictRejected, r_reason = NoReason, r_detail = '''',
      r_baseline_ms = median_ms (b_measured base), r_candidate_ms = 0, r_speedup = 0, r_improvement = 0,
      r_baseline_cost = total_cost (b_plan base), r_candidate_cost = 0, r_identical = False,
      r_row_count = row_count (b_checksum base), r_candidate_plan = ''''\<rparr>"

definition reject :: "reject_reason \<Rightarrow> string \<Rightarrow> vresult \<Rightarrow> vresult" where
  "reject reason detail res = res\<lparr>r_verdict := VerdictRejected, r_reason := reason, r_detail := detail\<rparr>"

definition mismatch_detail :: "result_hash \<Rightarrow> result_hash \<Rightarrow> string" where
  "mismatch_detail a b =
     ''the rewrite returns different data: original '' @ show_int (row_count a) @ '' rows (hash '' @
     shortHash (hash a) @ ''), candidate '' @ show_int (row_count b) @ '' rows (hash '' @ shortHash (hash b) @ '')''"

definition accept_detail :: "vresult \<Rightarrow> real \<Rightarrow> real \<Rightarrow> string" where
  "accept_detail res a b =
     show_fixed 1 (r_improvement res) @ ''% faster '' @ ms_change a b @ '', '' @ show_fixed 1 (r_speedup res) @
     ''x) with identical results over '' @ show_int (r_row_count res) @ '' rows''"

text \<open>The fields that step 5 fills in from the measurement of the candidate.\<close>

definition with_timing :: "baseline \<Rightarrow> measurement \<Rightarrow> vresult \<Rightarrow> vresult" where
  "with_timing base m res =
     (let b = median_ms (b_measured base);
          res1 = res\<lparr>r_candidate_ms := median_ms m\<rparr>;
          res2 = (case m_plan m of
              Some p \<Rightarrow> res1\<lparr>r_candidate_cost := total_cost p, r_candidate_plan := plan_summary p\<rparr>
            | None \<Rightarrow> res1);
          res3 = res2\<lparr>r_improvement := improvementPct b (median_ms m)\<rparr>
      in if median_ms m > 0 then res3\<lparr>r_speedup := b / median_ms m\<rparr> else res3)"

text \<open>Step 5: the timing of a candidate whose checksum agrees.\<close>

definition judge_timing :: "verifier \<Rightarrow> baseline \<Rightarrow> measurement \<Rightarrow> vresult \<Rightarrow> vresult" where
  "judge_timing v base m res =
     (if timed_out m then reject ReasonTimedOut ''the candidate exceeded the statement timeout'' res
      else let res1 = with_timing base m res in
        case isFaster v (b_measured base) m of
          (False, why) \<Rightarrow> reject ReasonNotFaster why res1
        | (True, _) \<Rightarrow>
            res1\<lparr>r_verdict := VerdictAccepted,
              r_detail := accept_detail res1 (median_ms (b_measured base)) (median_ms m)\<rparr>)"

text \<open>Steps 1 to 3, which execute nothing: the rejection, or nothing.\<close>

definition static_gate :: "parsers \<Rightarrow> verifier \<Rightarrow> baseline \<Rightarrow> candidate \<Rightarrow> (reject_reason \<times> string) option" where
  "static_gate lib v base c =
     (case ParseDialect lib (c_sql c) (v_dialect v) of
        Inl err \<Rightarrow>
          Some (if errors_is err ErrNotReadOnly then ReasonNotReadOnly else ReasonUnparseable, err_text err)
      | Inr st \<Rightarrow>
          if normalizeSQL (st_sql st) = normalizeSQL (st_sql (b_statement base))
          then Some (ReasonIdentical, ''the candidate is the original query'')
          else case SameShapeAs (b_statement base) st of
            Some err \<Rightarrow> Some (ReasonShapeMismatch, err_text err)
          | None \<Rightarrow> None)"

definition Verify :: "parsers \<Rightarrow> 'w engine \<Rightarrow> verifier \<Rightarrow> baseline \<Rightarrow> candidate \<Rightarrow> 'w \<Rightarrow> vresult \<times> 'w" where
  "Verify lib eng v base c w =
     (let res = initial_result base c in
      case static_gate lib v base c of
        Some (reason, detail) \<Rightarrow> (reject reason detail res, w)
      | None \<Rightarrow>
          case eng_checksum eng (c_sql c) (b_ordered base) w of
            (Inl err, w1) \<Rightarrow> (reject ReasonExecutionError (err_text err) res, w1)
          | (Inr h, w1) \<Rightarrow>
              if \<not> result_hash_equal (Some (b_checksum base)) (Some h)
              then (reject ReasonResultMismatch (mismatch_detail (b_checksum base) h) res, w1)
              else let res1 = res\<lparr>r_identical := True\<rparr> in
                case eng_measure eng (c_sql c) (v_runs v) w1 of
                  (Inl err, w2) \<Rightarrow> (reject ReasonExecutionError (err_text err) res1, w2)
                | (Inr m, w2) \<Rightarrow> (judge_timing v base m res1, w2))"

section \<open>Index experiments\<close>

record index_experiment =
  x_ddl :: string
  x_table :: string
  x_baseline_ms :: real
  x_with_index_ms :: real
  x_improvement :: real
  x_speedup :: real
  x_recommended :: bool
  x_detail :: string
  x_plan :: string
  x_build_ms :: int

definition not_worth_detail :: "real \<Rightarrow> real \<Rightarrow> real \<Rightarrow> string \<Rightarrow> string" where
  "not_worth_detail pct a b tab =
     ''measured '' @ show_fixed 1 pct @ ''% change '' @ ms_change a b @ '') '' @ utf8_dash @
     '' not worth the write cost. Every insert and update to '' @ tab @
     '' would maintain this index for no measured gain.''"

definition worth_detail :: "real \<Rightarrow> real \<Rightarrow> real \<Rightarrow> real \<Rightarrow> string" where
  "worth_detail pct a b speedup =
     ''measured '' @ show_fixed 1 pct @ ''% faster '' @ ms_change a b @ '', '' @ show_fixed 1 speedup @
     ''x) with the index in place. Build it with CREATE INDEX CONCURRENTLY in production to avoid taking a write lock.''"

text \<open>What the experiment is after the transaction: \<open>build\<close> and \<open>m\<close> are what the closure stored.\<close>

definition judge_index :: "verifier \<Rightarrow> baseline \<Rightarrow> string \<Rightarrow> string \<Rightarrow> int \<Rightarrow> measurement \<Rightarrow> index_experiment" where
  "judge_index v base ddl tab build m =
     (let b = median_ms (b_measured base); c = median_ms m;
          pct = improvementPct b c;
          speedup = (if c > 0 then b / c else 0);
          good = \<not> pct < v_min_improvement v
      in \<lparr>x_ddl = ddl, x_table = tab, x_baseline_ms = b, x_with_index_ms = c, x_improvement = pct,
          x_speedup = speedup, x_recommended = good,
          x_detail = (if good then worth_detail pct b c speedup else not_worth_detail pct b c tab),
          x_plan = (case m_plan m of Some p \<Rightarrow> plan_summary p | None \<Rightarrow> ''''), x_build_ms = build\<rparr>)"

text \<open>The closure: build time by the clock, then the measurement on the transaction.\<close>

definition index_body ::
    "('w \<Rightarrow> int) \<Rightarrow> 'w postgres_ops \<Rightarrow> verifier \<Rightarrow> baseline \<Rightarrow> int \<Rightarrow> 'w \<Rightarrow> (int \<times> measurement) result \<times> 'w" where
  "index_body clock pg v base start w =
     (let build = milliseconds (clock w - start) in
      case measure_in_tx pg (st_sql (b_statement base)) (v_runs v) w of
        (Inl err, w1) \<Rightarrow> (Inl err, w1)
      | (Inr m, w1) \<Rightarrow>
          if timed_out m then (Inl (new_error ''timed out while measuring with the index in place''), w1)
          else (Inr (build, m), w1))"

definition MeasureIndex ::
    "('w \<Rightarrow> int) \<Rightarrow> 'w engine \<Rightarrow> verifier \<Rightarrow> baseline \<Rightarrow> string \<Rightarrow> string \<Rightarrow> 'w \<Rightarrow> index_experiment result \<times> 'w" where
  "MeasureIndex clock eng v base ddl tab w =
     (case as_postgres eng of
        None \<Rightarrow> (Inl (new_error ''index experiments require the postgres engine''), w)
      | Some pg \<Rightarrow>
          let start = clock w in
          case with_hypothetical_index pg ddl (index_body clock pg v base start) w of
            (Inl err, w1) \<Rightarrow> (Inl err, w1)
          | (Inr (build, m), w1) \<Rightarrow> (Inr (judge_index v base ddl tab build m), w1))"

end
