(* ===== verification/Rules.thy ===== *)
theory Rules
  imports Sqlparse_Postgres Engine_Types
begin

text \<open>
  \<open>internal/rules/rules.go\<close>: the deterministic half of the optimizer.  It reads the parse tree, the
  schema and the executed plan, and produces findings with evidence, sometimes with a rewrite or an
  index to try.  A nil schema or measurement is \<open>None\<close>; the append-only \<open>Analysis\<close> that the methods
  fill is passed along.
\<close>

section \<open>Types\<close>

datatype severity = SeverityHigh | SeverityMedium | SeverityLow

definition severity_text :: "severity \<Rightarrow> string" where
  "severity_text s = (case s of SeverityHigh \<Rightarrow> ''high'' | SeverityMedium \<Rightarrow> ''medium'' | SeverityLow \<Rightarrow> ''low'')"

definition severityRank :: "severity \<Rightarrow> nat" where
  "severityRank s = (case s of SeverityHigh \<Rightarrow> 0 | SeverityMedium \<Rightarrow> 1 | SeverityLow \<Rightarrow> 2)"

text \<open>Severities are ordered as they are reported.\<close>

instantiation severity :: linorder
begin

definition less_eq_severity :: "severity \<Rightarrow> severity \<Rightarrow> bool" where
  "less_eq_severity a b \<longleftrightarrow> severityRank a \<le> severityRank b"

definition less_severity :: "severity \<Rightarrow> severity \<Rightarrow> bool" where
  "less_severity a b \<longleftrightarrow> severityRank a < severityRank b"

instance
  by intro_classes (auto simp: less_eq_severity_def less_severity_def severityRank_def split: severity.splits)

end

record finding =
  f_code :: string
  f_title :: string
  f_detail :: string
  f_severity :: severity
  f_table :: string
  f_columns :: "string list"
  f_evidence :: string
  f_rewrite :: string
  f_suggested_index :: string

text \<open>A composite literal that names only the first four fields.\<close>

definition new_finding :: "string \<Rightarrow> severity \<Rightarrow> string \<Rightarrow> string \<Rightarrow> finding" where
  "new_finding code sev title detail =
     \<lparr>f_code = code, f_title = title, f_detail = detail, f_severity = sev, f_table = '''', f_columns = [],
      f_evidence = '''', f_rewrite = '''', f_suggested_index = ''''\<rparr>"

record predicate =
  p_table :: string
  p_qualifier :: string
  p_column :: string
  p_operator :: string
  p_wrapped_by :: string
  p_cast_to :: string
  p_literal :: string
  p_is_join :: bool
  p_other_table :: string
  p_other_col :: string

record analysis =
  an_findings :: "finding list"
  an_predicates :: "predicate list"
  an_limitations :: "string list"

definition add_finding :: "finding \<Rightarrow> analysis \<Rightarrow> analysis" where
  "add_finding f a = a\<lparr>an_findings := an_findings a @ [f]\<rparr>"

section \<open>Helpers\<close>

definition qualify :: "string \<Rightarrow> string \<Rightarrow> string" where
  "qualify tab col = (if tab = '''' then col else tab @ ''.'' @ col)"

definition safe_char :: "char \<Rightarrow> bool" where
  "safe_char r \<longleftrightarrow> (97 \<le> char_code r \<and> char_code r \<le> 122) \<or> (48 \<le> char_code r \<and> char_code r \<le> 57) \<or>
     r = CHR ''_''"

definition sanitize :: "string \<Rightarrow> string" where
  "sanitize s = filter safe_char (to_lower s)"

definition humanCount :: "int \<Rightarrow> string" where
  "humanCount n =
     (if n \<ge> 1000000 then show_fixed 1 (of_int n / 1000000) @ ''M''
      else if n \<ge> 1000 then show_fixed 0 (of_int n / 1000) @ ''k''
      else show_int n)"

definition maxf :: "real \<Rightarrow> real \<Rightarrow> real" where
  "maxf a b = (if a > b then a else b)"

definition flipOperator :: "string \<Rightarrow> string" where
  "flipOperator op =
     (if op = ''<'' then ''>'' else if op = ''<='' then ''>='' else if op = ''>'' then ''<''
      else if op = ''>='' then ''<='' else op)"

definition indexLeadsWith :: "table \<Rightarrow> string \<Rightarrow> bool" where
  "indexLeadsWith t col =
     list_ex (\<lambda>idx. idx_columns idx \<noteq> [] \<and> equal_fold (hd (idx_columns idx)) col) (indexes t)"

definition describeIndexes :: "table \<Rightarrow> string" where
  "describeIndexes t =
     (if indexes t = [] then ''none''
      else str_join (map (\<lambda>idx. idx_name idx @ ''('' @ str_join (idx_columns idx) '', '' @ '')'') (indexes t)) '', '')"

definition predicateKind :: "predicate \<Rightarrow> string" where
  "predicateKind p = (if p_is_join p then ''join key'' else ''filter'')"

definition columnOf2 :: "table \<Rightarrow> string \<Rightarrow> column option" where
  "columnOf2 t name = find (\<lambda>c. equal_fold (col_name c) name) (columns t)"

section \<open>Reading the tree\<close>

record col_ref =
  cr_table :: string
  cr_column :: string

record side_info =
  si_ref :: col_ref
  si_wrapper :: string
  si_cast_to :: string

definition no_side :: side_info where
  "no_side = \<lparr>si_ref = \<lparr>cr_table = '''', cr_column = ''''\<rparr>, si_wrapper = '''', si_cast_to = ''''\<rparr>"

fun string_of_node :: "pg_node \<Rightarrow> string option" where
  "string_of_node (StringNode s) = Some s"
| "string_of_node _ = None"

definition string_parts :: "pg_node list \<Rightarrow> string list" where
  "string_parts fs = concat (map (\<lambda>f. opt_list (string_of_node f)) fs)"

definition columnRefName :: "pg_node list \<Rightarrow> col_ref" where
  "columnRefName fs =
     (let parts = string_parts fs in
      if length parts = 0 then \<lparr>cr_table = '''', cr_column = ''''\<rparr>
      else if length parts = 1 then \<lparr>cr_table = '''', cr_column = parts ! 0\<rparr>
      else \<lparr>cr_table = parts ! (length parts - 2), cr_column = parts ! (length parts - 1)\<rparr>)"

text \<open>\<open>funcName\<close> and \<open>typeName\<close>: the last part of a qualified name.\<close>

definition last_part :: "pg_node list \<Rightarrow> string" where
  "last_part fs = (let parts = string_parts fs in if parts = [] then '''' else last parts)"

definition funcName :: "pg_node list \<Rightarrow> string" where
  "funcName names = last_part names"

definition typeName :: "pg_node list option \<Rightarrow> string" where
  "typeName names = (case names of None \<Rightarrow> '''' | Some ns \<Rightarrow> last_part ns)"

definition operatorName :: "pg_node list \<Rightarrow> string" where
  "operatorName name =
     (if name = [] then '''' else case string_of_node (last name) of Some s \<Rightarrow> s | None \<Rightarrow> '''')"

function constText :: "pg_node option \<Rightarrow> string option" where
  "constText n =
     (case n of
        Some (TypeCastNode arg names mods) \<Rightarrow> constText arg
      | Some (AConstNode (Sval s)) \<Rightarrow> Some ([CHR 0x27] @ s @ [CHR 0x27])
      | Some (AConstNode (Ival i)) \<Rightarrow> Some (show_int i)
      | Some (AConstNode (Fval s)) \<Rightarrow> Some s
      | Some (AConstNode (Boolval b)) \<Rightarrow> Some (show_bool b)
      | _ \<Rightarrow> None)"
  by pat_completeness auto
termination
  by (relation "measure (size_option size)") auto

declare constText.simps [simp del]

function analyseSide :: "pg_node option \<Rightarrow> side_info option"
  and analyse_args :: "pg_node list \<Rightarrow> string \<Rightarrow> side_info option" where
  "analyseSide n =
     (case n of
        Some (ColumnRefNode fs) \<Rightarrow> Some (no_side\<lparr>si_ref := columnRefName fs\<rparr>)
      | Some (FuncCallNode names args rest) \<Rightarrow> analyse_args args (funcName names)
      | Some (TypeCastNode arg names mods) \<Rightarrow>
          (case analyseSide arg of
             None \<Rightarrow> None
           | Some inner \<Rightarrow> Some (inner\<lparr>si_cast_to := typeName names\<rparr>))
      | _ \<Rightarrow> None)"
| "analyse_args [] name = None"
| "analyse_args (arg # args) name =
     (case analyseSide (Some arg) of
        Some inner \<Rightarrow> Some (inner\<lparr>si_wrapper := name\<rparr>)
      | None \<Rightarrow> analyse_args args name)"
  by pat_completeness auto
termination
  by (relation "measure (\<lambda>x. case x of Inl n \<Rightarrow> size_option size n | Inr (args, _) \<Rightarrow> size_list size args + 1)")
    auto

declare analyseSide.simps [simp del] analyse_args.simps [simp del]

definition columnOf :: "pg_node option \<Rightarrow> col_ref" where
  "columnOf n = si_ref (case analyseSide n of Some i \<Rightarrow> i | None \<Rightarrow> no_side)"

section \<open>Predicates\<close>

definition predicate_key :: "predicate \<Rightarrow> string" where
  "predicate_key p =
     to_lower (str_join [p_table p, p_column p, p_operator p, p_wrapped_by p, p_literal p] ''|'')"

definition addPredicate :: "predicate \<Rightarrow> predicate list \<times> string list \<Rightarrow> predicate list \<times> string list" where
  "addPredicate p st =
     (case st of (out, seen) \<Rightarrow>
        if p_column p = '''' then (out, seen)
        else if predicate_key p \<in> set seen then (out, seen)
        else (out @ [p], predicate_key p # seen))"

definition join_predicate :: "string \<Rightarrow> side_info \<Rightarrow> side_info \<Rightarrow> predicate" where
  "join_predicate op this that =
     \<lparr>p_table = cr_table (si_ref this), p_qualifier = '''', p_column = cr_column (si_ref this),
      p_operator = op, p_wrapped_by = si_wrapper this, p_cast_to = si_cast_to this, p_literal = '''',
      p_is_join = True, p_other_table = cr_table (si_ref that), p_other_col = cr_column (si_ref that)\<rparr>"

definition filter_predicate :: "string \<Rightarrow> side_info \<Rightarrow> string option \<Rightarrow> predicate" where
  "filter_predicate op this lit =
     \<lparr>p_table = cr_table (si_ref this), p_qualifier = '''', p_column = cr_column (si_ref this),
      p_operator = op, p_wrapped_by = si_wrapper this, p_cast_to = si_cast_to this,
      p_literal = (case lit of Some l \<Rightarrow> l | None \<Rightarrow> ''''),
      p_is_join = False, p_other_table = '''', p_other_col = ''''\<rparr>"

definition comparison_operators :: "string list" where
  "comparison_operators = [''='', ''<'', ''<='', ''>'', ''>='', ''<>'', ''!='']"

text \<open>The predicates that one node contributes, in the order they are added.\<close>

fun node_predicates :: "pg_node \<Rightarrow> predicate list" where
  "node_predicates (AExprNode name lexpr rexpr) =
     (let op = operatorName name in
      if op \<notin> set comparison_operators then []
      else case (analyseSide lexpr, analyseSide rexpr) of
          (Some left, Some right) \<Rightarrow> [join_predicate op left right, join_predicate op right left]
        | (Some left, None) \<Rightarrow> [filter_predicate op left (constText rexpr)]
        | (None, Some right) \<Rightarrow> [filter_predicate (flipOperator op) right (constText lexpr)]
        | (None, None) \<Rightarrow> [])"
| "node_predicates _ = []"

definition extractPredicates :: "statement \<Rightarrow> predicate list" where
  "extractPredicates st =
     fst (WalkTree (st_tree st) (\<lambda>n acc. fold addPredicate (node_predicates n) acc) ([], []))"

text \<open>\<open>resolveTables\<close>: the alias map is built in order, later entries override earlier ones.\<close>

definition alias_map :: "table_ref list \<Rightarrow> (string \<rightharpoonup> string)" where
  "alias_map refs =
     fold (\<lambda>t m.
         (if ref_alias t \<noteq> '''' then m(to_lower (ref_alias t) \<mapsto> ref_name t) else m)
           (to_lower (ref_name t) \<mapsto> ref_name t)) refs Map.empty"

text \<open>
  The loop of \<open>resolveUnqualified\<close>: one candidate per matching column of each table, in order; the
  loop ends with the empty string when two candidates differ.
\<close>

fun pick_candidate :: "string \<Rightarrow> string list \<Rightarrow> string" where
  "pick_candidate found [] = found"
| "pick_candidate found (name # names) =
     (if found \<noteq> '''' \<and> \<not> equal_fold found name then '''' else pick_candidate name names)"

definition column_candidates :: "statement \<Rightarrow> schema \<Rightarrow> string \<Rightarrow> string list" where
  "column_candidates st sch col =
     concat (map (\<lambda>tref. case schema_table sch (ref_name tref) of
          None \<Rightarrow> []
        | Some t \<Rightarrow> map (\<lambda>_. tbl_name t) (filter (\<lambda>c. equal_fold (col_name c) col) (columns t)))
       (st_tables st))"

definition resolveUnqualified :: "statement \<Rightarrow> schema option \<Rightarrow> string \<Rightarrow> string" where
  "resolveUnqualified st sch col =
     (case sch of None \<Rightarrow> '''' | Some s \<Rightarrow> pick_candidate '''' (column_candidates st s col))"

definition resolve_alias :: "(string \<rightharpoonup> string) \<Rightarrow> string \<Rightarrow> string" where
  "resolve_alias alias t = (case alias (to_lower t) of Some real_name \<Rightarrow> real_name | None \<Rightarrow> t)"

definition resolve_predicate :: "statement \<Rightarrow> schema option \<Rightarrow> predicate \<Rightarrow> predicate" where
  "resolve_predicate st sch p =
     (let alias = alias_map (st_tables st) in
      p\<lparr>p_qualifier := p_table p,
        p_table := (if p_table p = '''' then resolveUnqualified st sch (p_column p)
                    else resolve_alias alias (p_table p)),
        p_other_table := (if p_other_table p \<noteq> '''' then resolve_alias alias (p_other_table p)
                          else p_other_table p)\<rparr>)"

definition resolveTables :: "predicate list \<Rightarrow> statement \<Rightarrow> schema option \<Rightarrow> predicate list" where
  "resolveTables preds st sch = map (resolve_predicate st sch) preds"

section \<open>Rewriting\<close>

definition squeeze :: "string \<Rightarrow> string" where
  "squeeze x = str_join (str_fields x) '' ''"

definition slice :: "string \<Rightarrow> nat \<Rightarrow> nat \<Rightarrow> string" where
  "slice s i j = take (j - i) (drop i s)"

text \<open>The windows that the fallback scan of \<open>replaceFold\<close> tries, in its order.\<close>

definition scan_windows :: "nat \<Rightarrow> nat \<Rightarrow> (nat \<times> nat) list" where
  "scan_windows n limit =
     concat (map (\<lambda>i. map (\<lambda>j. (i, j)) (filter (\<lambda>j. j - i \<le> limit) [i + 1..<n + 1])) [0..<n])"

definition replaceFold :: "string \<Rightarrow> string \<Rightarrow> string \<Rightarrow> string option" where
  "replaceFold s old replacement =
     (let target = squeeze old in
      case str_index (to_lower s) (to_lower target) of
        Some idx \<Rightarrow> Some (take idx s @ replacement @ drop (idx + length target) s)
      | None \<Rightarrow>
          (case find (\<lambda>(i, j). equal_fold (squeeze (slice s i j)) target)
                  (scan_windows (length s) (length target + 16)) of
             Some (i, j) \<Rightarrow> Some (take i s @ replacement @ drop j s)
           | None \<Rightarrow> None))"

definition dateLikeTypes :: "string list" where
  "dateLikeTypes =
     [''timestamp with time zone'', ''timestamp without time zone'', ''timestamptz'', ''timestamp'', ''date'']"

text \<open>The column check of \<open>rewriteDateEquality\<close>: a known column of another type refuses.\<close>

definition date_column_ok :: "schema option \<Rightarrow> predicate \<Rightarrow> bool" where
  "date_column_ok sch p =
     (case sch of None \<Rightarrow> True
      | Some s \<Rightarrow> (case schema_table s (p_table p) of
            None \<Rightarrow> True
          | Some t \<Rightarrow> list_all (\<lambda>c. \<not> (equal_fold (col_name c) (p_column p) \<and>
                to_lower (col_type c) \<notin> set dateLikeTypes)) (columns t)))"

definition quoted :: "string \<Rightarrow> string" where
  "quoted lit = [CHR 0x27] @ lit @ [CHR 0x27]"

definition date_pattern :: "string \<Rightarrow> string \<Rightarrow> string" where
  "date_pattern col lit = ''DATE('' @ col @ '') = '' @ quoted lit"

definition date_range :: "string \<Rightarrow> string \<Rightarrow> string" where
  "date_range col lit =
     col @ '' >= '' @ quoted lit @ ''::timestamptz AND '' @ col @ '' < '' @ quoted lit @
     ''::timestamptz + INTERVAL '' @ quoted ''1 day''"

definition rewriteDateEquality :: "statement \<Rightarrow> predicate \<Rightarrow> schema option \<Rightarrow> string option" where
  "rewriteDateEquality st p sch =
     (if p_operator p \<noteq> ''='' \<or> p_literal p = '''' then None
      else if to_lower (p_wrapped_by p) \<noteq> ''date'' then None
      else if \<not> date_column_ok sch p then None
      else let col = qualify (p_qualifier p) (p_column p);
               lit = trim_cutset (p_literal p) [CHR 0x27]
           in replaceFold (st_sql st) (date_pattern col lit) (date_range col lit))"

section \<open>The rules\<close>

text \<open>The fixed texts of the findings.\<close>

definition sargable_detail :: "string \<Rightarrow> string \<Rightarrow> string" where
  "sargable_detail wrapper col =
     ''The filter applies '' @ wrapper @ '' to '' @ col @ '' before comparing it. An index on '' @ col @
     '' stores the raw column values, so the planner cannot use it and must compute the expression for every row. '' @
     ''Either rewrite the predicate so the bare column is compared, or build an expression index on '' @
     wrapper @ ''('' @ col @ '') '' @ utf8_dash @
     '' the rewrite is almost always the better answer because it keeps the existing index useful for other queries.''"

definition star_detail :: string where
  "star_detail =
     ''SELECT * reads and transfers every column, which prevents index-only scans, '' @
     ''breaks when a column is added or reordered, and moves bytes the caller may not use.''"

definition wildcard_detail :: string where
  "wildcard_detail =
     ''A pattern beginning with % has no usable prefix, so a B-tree index cannot be '' @
     ''range-scanned and the planner falls back to reading every row. Options, in order of '' @
     ''preference: a trigram index (pg_trgm) on the column, a full-text search column, or '' @
     ''restructuring the query so the leading wildcard is not needed.''"

definition limit_detail :: string where
  "limit_detail =
     ''Without ORDER BY the rows returned are whichever the plan produced first. '' @
     ''That is stable enough to look correct in testing and changes the moment the planner '' @
     ''picks a different join order, an index is added, or the table grows. This is a '' @
     ''correctness finding, not a performance one.''"

definition not_in_detail :: string where
  "not_in_detail =
     ''If the subquery returns even one NULL, NOT IN yields no rows at all '' @ utf8_dash @ '' SQL's '' @
     ''three-valued logic makes '' @ [CHR 0x60] @ ''x NOT IN (1, NULL)'' @ [CHR 0x60] @
     '' unknown rather than true. NOT EXISTS '' @
     ''has the intended semantics and usually plans as an anti-join instead of a filter.''"

definition selectivity_detail :: string where
  "selectivity_detail =
     ''Indexing a column with very few distinct values costs write throughput '' @
     ''and disk without changing the plan, because reading most of the table through '' @
     ''an index is slower than scanning it.''"

definition missing_index_detail :: "string \<Rightarrow> string \<Rightarrow> string \<Rightarrow> string \<Rightarrow> string" where
  "missing_index_detail col kind tab rows =
     col @ '' is used as a '' @ kind @ '' but no index on '' @ tab @
     '' has it as its leading column, so the planner cannot seek on it. The table holds roughly '' @ rows @
     '' rows. The suggested index is measured before it is recommended '' @ utf8_dash @
     '' it is created inside a transaction that is rolled back.''"

definition seq_scan_detail :: string where
  "seq_scan_detail =
     ''The plan reads the whole table. With a selective filter this is usually a missing or unusable index.''"

definition estimate_detail :: string where
  "estimate_detail =
     ''The planner estimated a very different row count from what the query returned. '' @
     ''Plan choice depends on these estimates, so this often matters more than the query '' @
     ''text. Run ANALYZE on the tables; if the columns are correlated, CREATE STATISTICS '' @
     ''lets the planner model that.''"

definition spill_detail :: string where
  "spill_detail =
     ''The operation did not fit in work_mem and used temporary files. Either reduce the rows being sorted '' @
     ''(filter earlier, or push the LIMIT down) or raise work_mem for this workload.''"

definition dialect_limitation :: string where
  "dialect_limitation =
     ''predicate-level rules (non-sargable predicates, leading-wildcard LIKE, NOT IN subqueries) '' @
     ''are implemented against the PostgreSQL parse tree and did not run for this dialect''"

subsection \<open>Sargability\<close>

definition sargable_finding :: "statement \<Rightarrow> schema option \<Rightarrow> predicate \<Rightarrow> finding" where
  "sargable_finding st sch p =
     (let wrapper = (if p_wrapped_by p = '''' then ''cast to '' @ p_cast_to p else p_wrapped_by p);
          col = qualify (p_table p) (p_column p);
          f = (new_finding ''non-sargable-predicate'' SeverityHigh
                 (wrapper @ ''('' @ col @ '') in the filter prevents an index scan'')
                 (sargable_detail wrapper col))
              \<lparr>f_table := p_table p, f_columns := [p_column p],
               f_evidence := ''predicate: '' @ wrapper @ ''('' @ col @ '') '' @ p_operator p @ '' '' @ p_literal p\<rparr>
      in case rewriteDateEquality st p sch of
           Some rewrite \<Rightarrow> f\<lparr>f_rewrite := rewrite, f_detail := f_detail f @
             '' A rewrite has been generated and will be verified against the original results.''\<rparr>
         | None \<Rightarrow> f)"

definition checkSargability :: "statement \<Rightarrow> schema option \<Rightarrow> analysis \<Rightarrow> analysis" where
  "checkSargability st sch a =
     fold (\<lambda>p a. if p_wrapped_by p = '''' \<and> p_cast_to p = '''' then a
                 else add_finding (sargable_finding st sch p) a) (an_predicates a) a"

subsection \<open>Statement-level rules\<close>

definition checkSelectStar :: "statement \<Rightarrow> schema option \<Rightarrow> analysis \<Rightarrow> analysis" where
  "checkSelectStar st sch a =
     (if \<not> st_select_star st then a
      else let wide = (case sch of None \<Rightarrow> []
             | Some s \<Rightarrow> map (\<lambda>t. tbl_name t @ '' ('' @ show_nat (length (columns t)) @ '' columns)'')
                 (filter (\<lambda>t. length (columns t) \<ge> 10) (tables s)));
             detail = star_detail @
               (if wide \<noteq> [] then '' Affected tables: '' @ str_join wide '', '' @ ''.'' else '''')
         in add_finding (new_finding ''select-star'' SeverityMedium ''SELECT * reads every column'' detail) a)"

definition checkLimitWithoutOrder :: "statement \<Rightarrow> analysis \<Rightarrow> analysis" where
  "checkLimitWithoutOrder st a =
     (if st_has_limit st \<and> \<not> st_has_order_by st
      then add_finding (new_finding ''limit-without-order-by'' SeverityMedium
             ''LIMIT without ORDER BY returns an arbitrary subset'' limit_detail) a
      else a)"

definition is_like :: "string \<Rightarrow> bool" where
  "is_like op \<longleftrightarrow> op = [CHR 0x7E, CHR 0x7E] \<or> op = [CHR 0x7E, CHR 0x7E, CHR ''*'']"

definition wildcard_finding :: "pg_node option \<Rightarrow> string \<Rightarrow> finding" where
  "wildcard_finding lexpr lit =
     (let col = columnOf lexpr in
      (new_finding ''leading-wildcard-like'' SeverityHigh
         (''LIKE '' @ quoted (trim_cutset lit [CHR 0x27]) @ '' cannot use a B-tree index'') wildcard_detail)
      \<lparr>f_table := cr_table col, f_columns := [cr_column col],
       f_evidence := qualify (cr_table col) (cr_column col) @ '' LIKE '' @ lit\<rparr>)"

fun wildcard_visit :: "pg_node \<Rightarrow> analysis \<Rightarrow> analysis" where
  "wildcard_visit (AExprNode name lexpr rexpr) a =
     (if name = [] \<or> \<not> is_like (operatorName name) then a
      else case constText rexpr of
          Some lit \<Rightarrow>
            if has_prefix (trim_cutset lit [CHR 0x27]) ''%'' then add_finding (wildcard_finding lexpr lit) a
            else a
        | None \<Rightarrow> a)"
| "wildcard_visit _ a = a"

definition checkLeadingWildcard :: "statement \<Rightarrow> analysis \<Rightarrow> analysis" where
  "checkLeadingWildcard st a = WalkTree (st_tree st) wildcard_visit a"

definition not_in_finding :: finding where
  "not_in_finding = new_finding ''not-in-subquery'' SeverityMedium
     ''NOT IN with a subquery is a NULL trap and often a slow plan'' not_in_detail"

fun not_in_visit :: "pg_node \<Rightarrow> analysis \<Rightarrow> analysis" where
  "not_in_visit (SubLinkNode t te on ss) a =
     (if t \<noteq> ANY_SUBLINK then a else add_finding not_in_finding a)"
| "not_in_visit _ a = a"

definition checkNotIn :: "statement \<Rightarrow> analysis \<Rightarrow> analysis" where
  "checkNotIn st a = WalkTree (st_tree st) not_in_visit a"

subsection \<open>Missing indexes\<close>

definition index_ddl :: "table \<Rightarrow> string \<Rightarrow> string" where
  "index_ddl t col =
     ''CREATE INDEX idx_'' @ sanitize (tbl_name t) @ ''_'' @ sanitize col @ '' ON '' @ tbl_name t @
     '' ('' @ col @ '')''"

definition selectivity_finding :: "table \<Rightarrow> predicate \<Rightarrow> column \<Rightarrow> finding" where
  "selectivity_finding t p col =
     (new_finding ''low-selectivity-column'' SeverityLow
        (qualify (tbl_name t) (p_column p) @ '' has only ~'' @ show_fixed 0 (distinct_values col) @
         '' distinct values; an index would not help'') selectivity_detail)
     \<lparr>f_table := tbl_name t, f_columns := [p_column p]\<rparr>"

definition missing_index_finding :: "table \<Rightarrow> predicate \<Rightarrow> finding" where
  "missing_index_finding t p =
     (new_finding ''missing-index'' SeverityHigh
        (''No index leads with '' @ qualify (tbl_name t) (p_column p))
        (missing_index_detail (qualify (tbl_name t) (p_column p)) (predicateKind p) (tbl_name t)
           (humanCount (row_estimate t))))
     \<lparr>f_table := tbl_name t, f_columns := [p_column p],
      f_evidence := ''existing indexes: '' @ describeIndexes t,
      f_suggested_index := index_ddl t (p_column p)\<rparr>"

definition low_selectivity :: "table \<Rightarrow> predicate \<Rightarrow> column option" where
  "low_selectivity t p =
     (case columnOf2 t (p_column p) of
        Some col \<Rightarrow> if distinct_values col > 0 \<and> distinct_values col < 3 \<and> \<not> p_is_join p then Some col else None
      | None \<Rightarrow> None)"

text \<open>The body of the loop; the state is the analysis and the \<open>proposed\<close> set.\<close>

definition index_step :: "schema \<Rightarrow> predicate \<Rightarrow> analysis \<times> string list \<Rightarrow> analysis \<times> string list" where
  "index_step sch p st =
     (case st of (a, proposed) \<Rightarrow>
        if p_table p = '''' \<or> p_column p = '''' then st
        else case schema_table sch (p_table p) of
          None \<Rightarrow> st
        | Some t \<Rightarrow>
            if indexLeadsWith t (p_column p) then st
            else if row_estimate t < 1000 then st
            else case low_selectivity t p of
              Some col \<Rightarrow> (add_finding (selectivity_finding t p col) a, proposed)
            | None \<Rightarrow>
                let key = to_lower (tbl_name t @ ''.'' @ p_column p) in
                if key \<in> set proposed then st
                else (add_finding (missing_index_finding t p) a, key # proposed))"

definition checkMissingIndexes :: "schema option \<Rightarrow> analysis \<Rightarrow> analysis" where
  "checkMissingIndexes sch a =
     (case sch of None \<Rightarrow> a | Some s \<Rightarrow> fst (fold (index_step s) (an_predicates a) (a, [])))"

subsection \<open>The executed plan\<close>

definition scan_rows_of :: "schema option \<Rightarrow> string \<Rightarrow> int" where
  "scan_rows_of sch tab =
     (case sch of None \<Rightarrow> 0
      | Some s \<Rightarrow> (case schema_table s tab of Some t \<Rightarrow> row_estimate t | None \<Rightarrow> 0))"

definition seq_scan_step :: "measurement \<Rightarrow> schema option \<Rightarrow> string \<Rightarrow> analysis \<Rightarrow> analysis" where
  "seq_scan_step m sch tab a =
     (let rows = scan_rows_of sch tab in
      if rows < 50000 then a
      else add_finding
        ((new_finding ''seq-scan-large-table'' SeverityHigh
            (''Sequential scan on '' @ tab @ '' (~'' @ humanCount rows @ '' rows)'') seq_scan_detail)
         \<lparr>f_table := tab,
          f_evidence := ''execution time '' @ show_fixed 1 (median_ms m) @ ''ms, '' @ show_int (shared_read m) @
            '' blocks read from disk, '' @ show_int (shared_hit m) @ '' from cache''\<rparr>) a)"

definition check_estimate :: "measurement \<Rightarrow> plan \<Rightarrow> analysis \<Rightarrow> analysis" where
  "check_estimate m pl a =
     (if estimated_rows pl > 0 \<and> actual_rows m > 0
      then let ratio = actual_rows m / estimated_rows pl in
        if ratio > 10 \<or> ratio < 0.1
        then add_finding
          ((new_finding ''row-estimate-off'' SeverityMedium
              (''Planner estimate is off by '' @ show_fixed 0 (maxf ratio (1 / ratio)) @ ''x'') estimate_detail)
           \<lparr>f_evidence := ''estimated '' @ show_fixed 0 (estimated_rows pl) @ '' rows, actual '' @
              show_fixed 0 (actual_rows m) @ '' rows''\<rparr>) a
        else a
      else a)"

definition check_spill :: "measurement \<Rightarrow> analysis \<Rightarrow> analysis" where
  "check_spill m a =
     (if temp_written m > 0
      then add_finding
        ((new_finding ''sort-spilled-to-disk'' SeverityMedium ''A sort or hash spilled to disk'' spill_detail)
         \<lparr>f_evidence := show_int (temp_written m) @ '' temp blocks written (~'' @
            show_int (temp_written m * 8 div 1024) @ '' MB)''\<rparr>) a
      else a)"

definition checkPlan :: "measurement \<Rightarrow> schema option \<Rightarrow> analysis \<Rightarrow> analysis" where
  "checkPlan m sch a =
     (case m_plan m of None \<Rightarrow> a
      | Some pl \<Rightarrow> check_spill m (check_estimate m pl (fold (seq_scan_step m sch) (seq_scan_tables pl) a)))"

section \<open>Analyze and Summarize\<close>

definition Analyze :: "statement \<Rightarrow> schema option \<Rightarrow> measurement option \<Rightarrow> analysis" where
  "Analyze st sch m =
     (let a0 = \<lparr>an_findings = [], an_predicates = [], an_limitations = []\<rparr>;
          a1 = (if st_dialect st \<noteq> DialectMySQL
                then checkNotIn st (checkLeadingWildcard st (checkSargability st sch
                       (a0\<lparr>an_predicates := resolveTables (extractPredicates st) st sch\<rparr>)))
                else a0\<lparr>an_limitations := an_limitations a0 @ [dialect_limitation]\<rparr>);
          a2 = checkMissingIndexes sch (checkLimitWithoutOrder st (checkSelectStar st sch a1));
          a3 = (case m of Some mm \<Rightarrow> checkPlan mm sch a2 | None \<Rightarrow> a2)
      in a3\<lparr>an_findings := sort_key (\<lambda>f. severityRank (f_severity f)) (an_findings a3)\<rparr>)"

definition finding_text :: "finding \<Rightarrow> string" where
  "finding_text f =
     ''- ['' @ to_upper (severity_text (f_severity f)) @ ''] '' @ f_code f @ '': '' @ f_title f @ [CHR 0x0A] @
     (if f_evidence f \<noteq> '''' then ''    evidence: '' @ f_evidence f @ [CHR 0x0A] else '''') @
     (if f_suggested_index f \<noteq> '''' then ''    candidate index: '' @ f_suggested_index f @ [CHR 0x0A] else '''')"

definition rules_Summarize :: "analysis \<Rightarrow> string" where
  "rules_Summarize a =
     (if an_findings a = [] then ''(no rule-based findings)''
      else concat (map finding_text (an_findings a)))"

end
