(* ===== verification/Llm.thy ===== *)
theory Llm
  imports Plan_Json
begin

text \<open>
  \<open>internal/llm/gemini.go\<close>: the model client.  HTTP, the clock and JSON marshalling are the parameter
  \<open>http\<close>; the retry loop, the redaction of the API key and \<open>ExtractJSON\<close> are modelled.
\<close>

section \<open>The client\<close>

record llm_client =
  api_key :: string
  model_name :: string
  maxRetries :: nat
  retryBudget :: int  \<comment> \<open>nanoseconds\<close>

definition second_ns :: int where "second_ns = 1000000000"

definition new_client :: "string \<Rightarrow> string \<Rightarrow> llm_client" where
  "new_client key m = \<lparr>api_key = key, model_name = m, maxRetries = 5, retryBudget = 90 * second_ns\<rparr>"

definition Enabled :: "llm_client option \<Rightarrow> bool" where
  "Enabled c = (case c of None \<Rightarrow> False | Some cl \<Rightarrow> api_key cl \<noteq> '''')"

record usage =
  promptTokens :: int
  outputTokens :: int
  totalTokens :: int

record generation_config =
  gc_temperature :: real
  gc_max_output :: int
  gc_mime :: string
  gc_schema :: json

definition no_generation_config :: generation_config where
  "no_generation_config = \<lparr>gc_temperature = 0, gc_max_output = 0, gc_mime = '''', gc_schema = JNull\<rparr>"

record llm_request =
  rq_system :: string
  rq_prompt :: string
  rq_config :: generation_config

record llm_response =
  rs_text :: string
  rs_usage :: usage
  rs_latency :: int

record llm_part =
  part_text :: string
  part_thought :: bool

text \<open>What the decoded body of an answer holds: the parts of each candidate, the usage, the block reason.\<close>

record api_response =
  ar_candidates :: "llm_part list list"
  ar_usage :: usage
  ar_block_reason :: string

text \<open>
  \<open>http_new_request\<close> is \<open>http.NewRequestWithContext\<close>, which parses the URL.  One post yields an error or a
  status and the result of reading the body; \<open>http_wait\<close> is the \<open>select\<close> on the context and the timer.
\<close>

record 'w http =
  http_new_request :: "string \<Rightarrow> unit result"
  http_post :: "string \<Rightarrow> string \<Rightarrow> 'w \<Rightarrow> (int \<times> string result) result \<times> 'w"
  http_wait :: "int \<Rightarrow> 'w \<Rightarrow> unit result \<times> 'w"
  http_now :: "'w \<Rightarrow> int"
  marshal_request :: "llm_request \<Rightarrow> string result"
  decode_response :: "string \<Rightarrow> api_response result"

definition truncate :: "string \<Rightarrow> nat \<Rightarrow> string" where
  "truncate s n = (if length s \<le> n then s else take n s)"

definition redact :: "llm_client \<Rightarrow> go_error \<Rightarrow> go_error" where
  "redact c err =
     (if api_key c = '''' then err
      else if \<not> str_contains (err_text err) (api_key c) then err
      else new_error (replace_all (err_text err) (api_key c) ''REDACTED''))"

definition request_url :: "llm_client \<Rightarrow> string" where
  "request_url c =
     ''https://generativelanguage.googleapis.com/v1beta/models/'' @ model_name c @ '':generateContent?key='' @ api_key c"

definition backoff :: "nat \<Rightarrow> int" where
  "backoff attempt = (let wait = 2 ^ attempt * second_ns in if wait > 20 * second_ns then 20 * second_ns else wait)"

text \<open>What happens before an attempt: nothing before the first, then the deadline and the wait.\<close>

definition before_attempt :: "'w http \<Rightarrow> int \<Rightarrow> nat \<Rightarrow> go_error \<Rightarrow> 'w \<Rightarrow> unit result \<times> 'w" where
  "before_attempt h deadline attempt lastErr w =
     (if attempt = 0 then (Inr (), w)
      else if http_now h w > deadline then (Inl (wrap_error ''retry budget exhausted: '' lastErr ''''), w)
      else http_wait h (backoff attempt) w)"

datatype attempt_outcome = Retry go_error | Fail go_error | Answer api_response

text \<open>One request and what the loop makes of it: \<open>continue\<close>, \<open>return\<close> an error, or an answer.\<close>

definition attempt_once :: "'w http \<Rightarrow> llm_client \<Rightarrow> string \<Rightarrow> 'w \<Rightarrow> attempt_outcome \<times> 'w" where
  "attempt_once h c payload w =
     (case http_new_request h (request_url c) of Inl err \<Rightarrow> (Fail err, w) | Inr _ \<Rightarrow>
      case http_post h (request_url c) payload w of
        (Inl err, w1) \<Rightarrow> (Retry (redact c err), w1)
      | (Inr (status, Inl readErr), w1) \<Rightarrow> (Retry readErr, w1)
      | (Inr (status, Inr raw), w1) \<Rightarrow>
          (if status = 429 \<or> status \<ge> 500
           then Retry (new_error (''gemini '' @ show_int status @ '': '' @ truncate raw 200))
           else if status \<noteq> 200
           then Fail (new_error (''gemini '' @ show_int status @ '': '' @ truncate raw 400))
           else case decode_response h raw of
             Inl err \<Rightarrow> Fail (wrap_error ''decode response: '' err '''')
           | Inr ar \<Rightarrow>
               if ar_candidates ar = []
               then Fail (new_error (''model returned no candidates (block reason '' @ go_quote (ar_block_reason ar) @ '')''))
               else Answer ar, w1))"

definition answer_text :: "api_response \<Rightarrow> string" where
  "answer_text ar = concat (map part_text (filter (\<lambda>p. \<not> part_thought p) (hd (ar_candidates ar))))"

text \<open>The retry loop, with \<open>n\<close> attempts left; \<open>lastErr\<close> is nil before the first.\<close>

definition no_error :: go_error where "no_error = new_error ''%!w(<nil>)''"

fun generate_loop :: "'w http \<Rightarrow> llm_client \<Rightarrow> string \<Rightarrow> int \<Rightarrow> int \<Rightarrow> nat \<Rightarrow> nat \<Rightarrow> go_error \<Rightarrow> 'w \<Rightarrow>
    llm_response result \<times> 'w" where
  "generate_loop h c payload start deadline 0 attempt lastErr w =
     (Inl (wrap_error (''request failed after '' @ show_nat (maxRetries c + 1) @ '' attempts: '') lastErr ''''), w)"
| "generate_loop h c payload start deadline (Suc n) attempt lastErr w =
     (case before_attempt h deadline attempt lastErr w of
        (Inl err, w1) \<Rightarrow> (Inl err, w1)
      | (Inr _, w1) \<Rightarrow>
          case attempt_once h c payload w1 of
            (Retry err, w2) \<Rightarrow> generate_loop h c payload start deadline n (Suc attempt) err w2
          | (Fail err, w2) \<Rightarrow> (Inl err, w2)
          | (Answer ar, w2) \<Rightarrow>
              (Inr \<lparr>rs_text = answer_text ar, rs_usage = ar_usage ar, rs_latency = http_now h w2 - start\<rparr>, w2))"

definition Generate :: "'w http \<Rightarrow> llm_client option \<Rightarrow> llm_request \<Rightarrow> 'w \<Rightarrow> llm_response result \<times> 'w" where
  "Generate h client req w =
     (if \<not> Enabled client then (Inl (new_error ''GEMINI_API_KEY is not set''), w)
      else let c = the client in
        case marshal_request h req of
          Inl err \<Rightarrow> (Inl err, w)
        | Inr payload \<Rightarrow>
            let start = http_now h w; deadline = start + retryBudget c
            in generate_loop h c payload start deadline (maxRetries c + 1) 0 no_error w)"

section \<open>ExtractJSON\<close>

definition fence_text :: string where "fence_text = [CHR 0x60, CHR 0x60, CHR 0x60]"

text \<open>The content of the first code fence, when it is closed.\<close>

definition strip_fence :: "string \<Rightarrow> string" where
  "strip_fence s =
     (case str_index s fence_text of
        None \<Rightarrow> s
      | Some fence \<Rightarrow>
          let rest = drop (fence + 3) s;
              rest1 = (case str_index rest [CHR 0x0A] of Some nl_at \<Rightarrow> drop (nl_at + 1) rest | None \<Rightarrow> rest)
          in case str_index rest1 fence_text of
               Some fin \<Rightarrow> trim_space (take fin rest1)
             | None \<Rightarrow> s)"

text \<open>
  The scan for the closing character: depth, inside a string, after a backslash.  The result is the
  number of characters read when the depth returns to zero.
\<close>

fun scan_json :: "char \<Rightarrow> char \<Rightarrow> int \<Rightarrow> bool \<Rightarrow> bool \<Rightarrow> nat \<Rightarrow> string \<Rightarrow> nat option" where
  "scan_json opn cls depth inStr escaped n [] = None"
| "scan_json opn cls depth inStr escaped n (ch # cs) =
     (if escaped then scan_json opn cls depth inStr False (Suc n) cs
      else if ch = CHR 0x5C \<and> inStr then scan_json opn cls depth inStr True (Suc n) cs
      else if ch = CHR 0x22 then scan_json opn cls depth (\<not> inStr) False (Suc n) cs
      else if inStr then scan_json opn cls depth inStr False (Suc n) cs
      else if ch = opn then scan_json opn cls (depth + 1) inStr False (Suc n) cs
      else if ch = cls then
        (if depth - 1 = 0 then Some (Suc n) else scan_json opn cls (depth - 1) inStr False (Suc n) cs)
      else scan_json opn cls depth inStr False (Suc n) cs)"

definition is_open :: "char \<Rightarrow> bool" where
  "is_open c \<longleftrightarrow> c = CHR 0x7B \<or> c = CHR ''[''"

definition closer :: "char \<Rightarrow> char" where
  "closer opn = (if opn = CHR ''['' then CHR '']'' else CHR 0x7D)"

definition ExtractJSON :: "string \<Rightarrow> string option" where
  "ExtractJSON s =
     (let body = dropWhile (\<lambda>c. \<not> is_open c) (strip_fence (trim_space s)) in
      case body of
        [] \<Rightarrow> None
      | opn # _ \<Rightarrow> map_option (\<lambda>n. take n body) (scan_json opn (closer opn) 0 False False 0 body))"

end
