(* ===== verification/Optimizer.thy ===== *)
theory Optimizer
  imports Verify Rules Llm
begin

text \<open>
  \<open>internal/optimizer/optimizer.go\<close>: the pipeline of one optimisation run: parse, introspect, measure
  the baseline, apply the rules, ask the model, verify every candidate, try the suggested indexes,
  summarise.  Logging is left out.  A nil dereference unwinds the whole run; it is the error
  \<open>nil_dereference\<close> here.
\<close>

section \<open>Types\<close>

record options =
  o_max_candidates :: int
  o_min_improvement :: real
  o_runs :: int
  o_test_indexes :: bool
  o_max_index_tests :: int
  o_skip_llm :: bool

definition DefaultOptions :: options where
  "DefaultOptions =
     \<lparr>o_max_candidates = 4, o_min_improvement = 10, o_runs = 5, o_test_indexes = True,
      o_max_index_tests = 3, o_skip_llm = False\<rparr>"

record baseline_report =
  br_median :: real
  br_min :: real
  br_max :: real
  br_cost :: real
  br_row_count :: int
  br_actual_rows :: real
  br_plan :: string

record report =
  rp_original :: string
  rp_fingerprint :: string
  rp_dialect :: string
  rp_schema :: schema
  rp_findings :: "finding list"
  rp_limitations :: "string list"
  rp_baseline :: baseline_report
  rp_candidates :: "vresult list"
  rp_indexes :: "index_experiment list"
  rp_best :: "vresult option"
  rp_llm_used :: bool
  rp_llm_model :: string
  rp_prompt_tokens :: int
  rp_output_tokens :: int
  rp_duration :: int
  rp_summary :: string

text \<open>
  An optimizer with its parts.  \<open>decode_proposals\<close> is the JSON decoding of the model's envelope to
  pairs of statement and rationale.
\<close>

record 'w optimizer =
  op_engine :: "'w engine"
  op_llm :: "llm_client option"
  op_opts :: options
  op_dialect :: sql_dialect
  op_parsers :: parsers
  op_http :: "'w http"
  op_clock :: "'w \<Rightarrow> int"
  decode_proposals :: "string \<Rightarrow> (string \<times> string) list result"

definition nil_dereference :: go_error where
  "nil_dereference = new_error ''runtime error: invalid memory address or nil pointer dereference''"

section \<open>The proposer\<close>

definition newline :: string where "newline = [CHR 0x0A]"


definition column_line :: "column \<Rightarrow> string" where
  "column_line c =
     ''  '' @ pad_right 24 (col_name c) @ '' '' @ pad_right 28 (col_type c) @ '' '' @
     (if nullable c then ''NULL'' else ''NOT NULL'') @ ''  (n_distinct='' @ show_fixed 0 (distinct_values c) @
     '', null_frac='' @ show_fixed 2 (null_fraction c) @ '')'' @ newline"

definition table_block :: "table \<Rightarrow> string" where
  "table_block t =
     ''TABLE '' @ tbl_name t @ ''  (~'' @ show_int (row_estimate t) @ '' rows, '' @
     show_int (go_quot (total_bytes t) (1024 * 1024)) @ '' MB)'' @ newline @
     concat (map column_line (columns t)) @
     (if indexes t = [] then ''  INDEXES: none'' @ newline
      else ''  INDEXES:'' @ newline @
        concat (map (\<lambda>i. ''    '' @ definition_of i @ ''  ('' @ show_int (scans i) @ '' scans so far)'' @ newline)
          (indexes t))) @ newline"

definition code_fence :: string where "code_fence = [CHR 0x60, CHR 0x60, CHR 0x60]"

definition star_note :: string where
  "star_note =
     newline @ ''Note: this query uses SELECT *. Narrowing the select list changes the result '' @
     ''set and will fail verification, so do not propose it '' @ utf8_dash @ '' it is reported separately as a '' @
     ''finding for a human to act on.'' @ newline"

definition buildProposerPrompt :: "statement \<Rightarrow> schema \<Rightarrow> baseline \<Rightarrow> plan \<Rightarrow> analysis \<Rightarrow> int \<Rightarrow> string" where
  "buildProposerPrompt st sch base p a maxCandidates =
     ''Query to optimise:'' @ newline @ newline @ code_fence @ ''sql'' @ newline @ st_sql st @ newline @ code_fence @
     newline @ newline @ ''Schema of the tables it touches:'' @ newline @ newline @
     concat (map table_block (tables sch)) @
     ''Current plan (EXPLAIN ANALYZE, median of '' @ show_int (m_runs (b_measured base)) @ '' runs: '' @
     show_fixed 2 (median_ms (b_measured base)) @ ''ms, returning '' @ show_int (row_count (b_checksum base)) @
     '' rows):'' @ newline @ newline @ code_fence @ newline @ plan_summary p @ newline @ code_fence @ newline @ newline @
     ''Static analysis has already found:'' @ newline @ rules_Summarize a @ newline @
     newline @ ''Propose up to '' @ show_int maxCandidates @ '' rewrites. Every one will be executed and its results compared '' @
     ''byte for byte against the original before it is shown to anyone, so a rewrite that changes '' @
     ''the result set is wasted effort rather than a risk.'' @ newline @
     (if st_select_star st then star_note else '''')"

text \<open>The system prompt, whatever the dialect of the target is.\<close>

definition proposerSystem :: string where
  "proposerSystem =
    ''You rewrite PostgreSQL queries to run faster. You are one source of candidates in a '' @
    ''system that verifies every one of them by execution, so propose freely but never claim '' @
    ''a rewrite is safe '' @ utf8_dash @ '' that is decided by measurement, not by you.'' @ newline @ newline @
    ''Hard requirements for every candidate:'' @ newline @
    ''- It must return EXACTLY the same rows, with the same columns in the same order, as the '' @
    ''original. The system compares result checksums and discards anything that differs.'' @ newline @
    ''- It must be a single read-only SELECT. Never emit INSERT, UPDATE, DELETE, CREATE, or a '' @
    ''data-modifying CTE.'' @ newline @
    ''- It must be valid PostgreSQL that runs against the schema given. Do not invent '' @
    ''columns, tables or functions.'' @ newline @ newline @ ''What is worth proposing:'' @ newline @
    ''- Making a predicate sargable so an index can be used: replace a function or cast '' @
    ''wrapping an indexed column with an equivalent range or expression on the bare column.'' @ newline @
    ''- Replacing a correlated subquery with a join, or a join with EXISTS, where the row '' @
    ''multiplicity is genuinely unchanged.'' @ newline @
    ''- Replacing NOT IN with NOT EXISTS where the NULL semantics permit it.'' @ newline @
    ''- Pushing a filter or a LIMIT down so fewer rows are produced before an expensive step.'' @ newline @
    ''- Removing a join whose table contributes no columns and cannot change row multiplicity.'' @ newline @
    ''- Replacing DISTINCT with a grouping or an EXISTS where that is what the query actually '' @ ''means.'' @
    newline @ ''- Restructuring an OR across different columns into a UNION ALL of two selective '' @
    ''branches, where the branches cannot overlap.'' @ newline @ newline @ ''What is not worth proposing:'' @
    newline @ ''- Cosmetic changes: aliasing, formatting, reordering the select list.'' @ newline @
    ''- Adding LIMIT, changing ORDER BY, or anything else that changes which rows come back. '' @
    ''That is not an optimisation, it is a different query.'' @ newline @
    ''- Hints or planner settings. This system recommends queries and indexes, not session '' @
    ''configuration.'' @ newline @ newline @
    ''If the query is already well formed and you have no substantive rewrite, return an '' @
    ''empty candidate list. That is a useful and correct answer.''"

definition candidateSchema :: json where
  "candidateSchema =
     JObj [(''type'', JStr ''object''),
       (''properties'', JObj [(''candidates'', JObj [(''type'', JStr ''array''),
         (''items'', JObj [(''type'', JStr ''object''),
           (''properties'', JObj [(''sql'', JObj [(''type'', JStr ''string'')]),
             (''rationale'', JObj [(''type'', JStr ''string'')])]),
           (''required'', JArr [JStr ''sql'', JStr ''rationale''])])])]),
       (''required'', JArr [JStr ''candidates''])]"

definition proposal_request :: "statement \<Rightarrow> schema \<Rightarrow> baseline \<Rightarrow> plan \<Rightarrow> analysis \<Rightarrow> int \<Rightarrow> llm_request" where
  "proposal_request st sch base p a maxCandidates =
     \<lparr>rq_system = proposerSystem, rq_prompt = buildProposerPrompt st sch base p a maxCandidates,
      rq_config = \<lparr>gc_temperature = 1 / 5, gc_max_output = 0, gc_mime = ''application/json'', gc_schema = candidateSchema\<rparr>\<rparr>"

text \<open>The loop over the proposals: blank ones are skipped, the loop ends when enough are taken.\<close>

fun take_proposals :: "int \<Rightarrow> candidate list \<Rightarrow> (string \<times> string) list \<Rightarrow> candidate list" where
  "take_proposals cap out [] = out"
| "take_proposals cap out ((sql, rationale) # ps) =
     (if trim_space sql = '''' then take_proposals cap out ps
      else let out1 = out @ [\<lparr>c_sql = trim_space sql, c_source = ''llm'', c_rationale = rationale\<rparr>]
        in if int (length out1) \<ge> cap then out1 else take_proposals cap out1 ps)"

definition propose ::
    "'w optimizer \<Rightarrow> statement \<Rightarrow> schema \<Rightarrow> baseline \<Rightarrow> plan \<Rightarrow> analysis \<Rightarrow> 'w \<Rightarrow> (candidate list \<times> usage) result \<times> 'w" where
  "propose opt st sch base p a w =
     (let req = proposal_request st sch base p a (o_max_candidates (op_opts opt)) in
      case Generate (op_http opt) (op_llm opt) req w of
        (Inl err, w1) \<Rightarrow> (Inl err, w1)
      | (Inr resp, w1) \<Rightarrow>
          let raw = (case ExtractJSON (rs_text resp) of Some j \<Rightarrow> j | None \<Rightarrow> rs_text resp) in
          case decode_proposals opt raw of
            Inl err \<Rightarrow> (Inl (wrap_error ''proposer returned unusable JSON: '' err ''''), w1)
          | Inr ps \<Rightarrow> (Inr (take_proposals (o_max_candidates (op_opts opt)) [] ps, rs_usage resp), w1))"

section \<open>Index experiments\<close>

definition unmeasured_detail :: string where
  "unmeasured_detail =
     ''candidate identified but NOT measured: this engine cannot create and roll back an index, '' @
     ''so there is no evidence it would help. Measure it on a replica before creating it.''"

definition failed_experiment :: "finding \<Rightarrow> string \<Rightarrow> index_experiment" where
  "failed_experiment f detail =
     \<lparr>x_ddl = f_suggested_index f, x_table = f_table f, x_baseline_ms = 0, x_with_index_ms = 0,
      x_improvement = 0, x_speedup = 0, x_recommended = False, x_detail = detail, x_plan = '''', x_build_ms = 0\<rparr>"

definition run_experiment ::
    "'w optimizer \<Rightarrow> verifier \<Rightarrow> baseline \<Rightarrow> finding \<Rightarrow> 'w \<Rightarrow> index_experiment \<times> 'w" where
  "run_experiment opt v base f w =
     (case MeasureIndex (op_clock opt) (op_engine opt) v base (f_suggested_index f) (f_table f) w of
        (Inl err, w1) \<Rightarrow>
          (if errors_is err ErrNoHypotheticalIndexes then failed_experiment f unmeasured_detail
           else failed_experiment f (''could not be measured: '' @ err_text err), w1)
      | (Inr e, w1) \<Rightarrow> (e, w1))"

fun index_loop :: "'w optimizer \<Rightarrow> verifier \<Rightarrow> baseline \<Rightarrow> int \<Rightarrow> index_experiment list \<Rightarrow> finding list \<Rightarrow>
    'w \<Rightarrow> index_experiment list \<times> 'w" where
  "index_loop opt v base tested out [] w = (out, w)"
| "index_loop opt v base tested out (f # fs) w =
     (if f_suggested_index f = '''' then index_loop opt v base tested out fs w
      else if tested \<ge> o_max_index_tests (op_opts opt) then (out, w)
      else case run_experiment opt v base f w of
          (e, w1) \<Rightarrow> index_loop opt v base (tested + 1) (out @ [e]) fs w1)"

definition runIndexExperiments ::
    "'w optimizer \<Rightarrow> verifier \<Rightarrow> baseline \<Rightarrow> analysis \<Rightarrow> 'w \<Rightarrow> index_experiment list \<times> 'w" where
  "runIndexExperiments opt v base a w =
     (case index_loop opt v base 0 [] (an_findings a) w of
        (out, w1) \<Rightarrow> (sort_key (\<lambda>e. - x_improvement e) out, w1))"

section \<open>The run\<close>

definition rule_candidates :: "analysis \<Rightarrow> candidate list" where
  "rule_candidates a =
     map (\<lambda>f. \<lparr>c_sql = f_rewrite f, c_source = ''rule:'' @ f_code f, c_rationale = f_title f\<rparr>)
       (filter (\<lambda>f. f_rewrite f \<noteq> '''') (an_findings a))"

text \<open>The loop that verifies the candidates; \<open>seen\<close> holds the normalized texts.\<close>

fun verify_all :: "parsers \<Rightarrow> 'w engine \<Rightarrow> verifier \<Rightarrow> baseline \<Rightarrow> string list \<Rightarrow> vresult list \<Rightarrow> candidate list \<Rightarrow>
    'w \<Rightarrow> vresult list \<times> 'w" where
  "verify_all lib eng v base seen out [] w = (out, w)"
| "verify_all lib eng v base seen out (c # cs) w =
     (if normalizeSQL (c_sql c) \<in> set seen then verify_all lib eng v base seen out cs w
      else case Verify lib eng v base c w of
          (r, w1) \<Rightarrow> verify_all lib eng v base (normalizeSQL (c_sql c) # seen) (out @ [r]) cs w1)"

definition pick_best :: "vresult \<Rightarrow> vresult option \<Rightarrow> vresult option" where
  "pick_best r best =
     (if r_verdict r \<noteq> VerdictAccepted then best
      else case best of
          None \<Rightarrow> Some r
        | Some b \<Rightarrow> if r_improvement r > r_improvement b then Some r else best)"

definition best_of :: "vresult list \<Rightarrow> vresult option" where
  "best_of rs = fold pick_best rs None"

definition baseline_of :: "baseline \<Rightarrow> baseline_report" where
  "baseline_of base =
     \<lparr>br_median = median_ms (b_measured base), br_min = min_ms (b_measured base), br_max = max_ms (b_measured base),
      br_cost = total_cost (b_plan base), br_row_count = row_count (b_checksum base),
      br_actual_rows = actual_rows (b_measured base),
      br_plan = (case m_plan (b_measured base) of Some p \<Rightarrow> plan_summary p | None \<Rightarrow> '''')\<rparr>"

definition count_where :: "('a \<Rightarrow> bool) \<Rightarrow> 'a list \<Rightarrow> string" where
  "count_where p xs = show_nat (length (filter p xs))"

definition summarize :: "report \<Rightarrow> string" where
  "summarize rep =
     trim_space
       (''Baseline '' @ show_fixed 2 (br_median (rp_baseline rep)) @ ''ms over '' @
        show_int (br_row_count (rp_baseline rep)) @ '' rows. '' @
        show_nat (length (rp_candidates rep)) @ '' candidate(s) tested, '' @
        count_where (\<lambda>c. r_verdict c = VerdictAccepted) (rp_candidates rep) @ '' verified faster, '' @
        count_where (\<lambda>c. r_verdict c \<noteq> VerdictAccepted) (rp_candidates rep) @ '' rejected. '' @
        (case rp_best rep of
           Some b \<Rightarrow> ''Best rewrite: '' @ show_fixed 1 (r_improvement b) @ ''% faster '' @
             ms_change (br_median (rp_baseline rep)) (r_candidate_ms b) @ '') with identical results. ''
         | None \<Rightarrow> if length (rp_candidates rep) > 0
             then ''No rewrite was proven faster with identical results. '' else '''') @
        (if length (rp_indexes rep) > 0
         then count_where x_recommended (rp_indexes rep) @ '' of '' @ show_nat (length (rp_indexes rep)) @
           '' candidate index(es) measured as worthwhile.'' else ''''))"

text \<open>
  The candidates of a run, with what the model contributed: the flag, its name and the tokens.
\<close>

record proposal_phase =
  pp_candidates :: "candidate list"
  pp_used :: bool
  pp_model :: string
  pp_prompt :: int
  pp_output :: int

definition gather_candidates ::
    "'w optimizer \<Rightarrow> statement \<Rightarrow> schema \<Rightarrow> baseline \<Rightarrow> analysis \<Rightarrow> 'w \<Rightarrow> proposal_phase result \<times> 'w" where
  "gather_candidates opt st sch base a w =
     (let none = \<lparr>pp_candidates = rule_candidates a, pp_used = False, pp_model = '''', pp_prompt = 0, pp_output = 0\<rparr> in
      if o_skip_llm (op_opts opt) \<or> \<not> Enabled (op_llm opt) then (Inr none, w)
      else case m_plan (b_measured base) of
          None \<Rightarrow> (Inl nil_dereference, w)
        | Some p \<Rightarrow>
            case propose opt st sch base p a w of
              (Inl err, w1) \<Rightarrow> (Inr none, w1)
            | (Inr (proposed, u), w1) \<Rightarrow>
                (Inr \<lparr>pp_candidates = rule_candidates a @ proposed, pp_used = True,
                   pp_model = model_name (the (op_llm opt)), pp_prompt = promptTokens u, pp_output = outputTokens u\<rparr>, w1))"

definition run_verifier :: "'w optimizer \<Rightarrow> verifier" where
  "run_verifier opt =
     \<lparr>v_min_improvement = o_min_improvement (op_opts opt), v_runs = o_runs (op_opts opt), v_dialect = op_dialect opt\<rparr>"

text \<open>The phases after the baseline.\<close>

definition run_phases ::
    "'w optimizer \<Rightarrow> int \<Rightarrow> statement \<Rightarrow> schema \<Rightarrow> baseline \<Rightarrow> 'w \<Rightarrow> report result \<times> 'w" where
  "run_phases opt start st sch base w =
     (let a = Analyze st (Some sch) (Some (b_measured base)); v = run_verifier opt in
      case gather_candidates opt st sch base a w of
        (Inl err, w1) \<Rightarrow> (Inl err, w1)
      | (Inr pp, w1) \<Rightarrow>
          case verify_all (op_parsers opt) (op_engine opt) v base [normalizeSQL (st_sql st)] [] (pp_candidates pp) w1 of
            (results, w2) \<Rightarrow>
              case (if o_test_indexes (op_opts opt) then runIndexExperiments opt v base a w2 else ([], w2)) of
                (exps, w3) \<Rightarrow>
                  let rep = \<lparr>rp_original = st_sql st, rp_fingerprint = st_fingerprint st,
                        rp_dialect = eng_dialect (op_engine opt), rp_schema = sch, rp_findings = an_findings a,
                        rp_limitations = an_limitations a, rp_baseline = baseline_of base,
                        rp_candidates = results, rp_indexes = exps, rp_best = best_of results,
                        rp_llm_used = pp_used pp, rp_llm_model = pp_model pp, rp_prompt_tokens = pp_prompt pp,
                        rp_output_tokens = pp_output pp, rp_duration = milliseconds (op_clock opt w3 - start),
                        rp_summary = ''''\<rparr>
                  in (Inr (rep\<lparr>rp_summary := summarize rep\<rparr>), w3))"

definition Run :: "'w optimizer \<Rightarrow> string \<Rightarrow> 'w \<Rightarrow> report result \<times> 'w" where
  "Run opt sql w =
     (let start = op_clock opt w in
      case ParseDialect (op_parsers opt) sql (op_dialect opt) of
        Inl err \<Rightarrow> (Inl err, w)
      | Inr st \<Rightarrow>
          case eng_introspect (op_engine opt) (map Qualified (st_tables st)) w of
            (Inl err, w1) \<Rightarrow> (Inl (wrap_error ''introspect: '' err ''''), w1)
          | (Inr sch, w1) \<Rightarrow>
              case EstablishBaseline (op_engine opt) st (o_runs (op_opts opt)) w1 of
                (Inl err, w2) \<Rightarrow> (Inl err, w2)
              | (Inr base, w2) \<Rightarrow> run_phases opt start st sch base w2)"

end
