(* ===== verification/Verify_Facts.thy ===== *)
theory Verify_Facts
  imports Verify
begin

text \<open>
  What the verification loop promises: the exact condition under which a candidate is accepted, that
  nothing is executed before the static gate passes, and, for any engine that keeps the
  \<open>target_engine\<close> contract, that accepted means strictly faster.
\<close>

section \<open>The pieces\<close>

lemma reject_simps [simp]:
  "r_verdict (reject r d x) = VerdictRejected" "r_reason (reject r d x) = r" "r_detail (reject r d x) = d"
  "r_identical (reject r d x) = r_identical x" "r_candidate (reject r d x) = r_candidate x"
  "r_improvement (reject r d x) = r_improvement x" "r_candidate_ms (reject r d x) = r_candidate_ms x"
  by (simp_all add: reject_def)

lemma initial_simps [simp]:
  "r_verdict (initial_result b c) = VerdictRejected" "r_candidate (initial_result b c) = c"
  "r_identical (initial_result b c) = False" "r_row_count (initial_result b c) = row_count (b_checksum b)"
  "r_baseline_ms (initial_result b c) = median_ms (b_measured b)"
  by (simp_all add: initial_result_def)

lemma with_timing_simps [simp]:
  "r_verdict (with_timing b m res) = r_verdict res" "r_candidate (with_timing b m res) = r_candidate res"
  "r_identical (with_timing b m res) = r_identical res" "r_row_count (with_timing b m res) = r_row_count res"
  "r_candidate_ms (with_timing b m res) = median_ms m" "r_baseline_ms (with_timing b m res) = r_baseline_ms res"
  "r_improvement (with_timing b m res) = improvementPct (median_ms (b_measured b)) (median_ms m)"
  by (simp_all add: with_timing_def Let_def split: option.split)

text \<open>When a timing counts as an improvement.\<close>

definition real_improvement :: "verifier \<Rightarrow> measurement \<Rightarrow> measurement \<Rightarrow> bool" where
  "real_improvement v b m \<longleftrightarrow>
     v_min_improvement v \<le> improvementPct (median_ms b) (median_ms m) \<and>
     spread_ms b < median_ms b - median_ms m \<and> spread_ms m < median_ms b - median_ms m"

lemma isFaster_iff: "fst (isFaster v b m) \<longleftrightarrow> real_improvement v b m"
  by (auto simp: isFaster_def real_improvement_def Let_def maxFloat_def)

lemma judge_timing_accepted:
  "r_verdict (judge_timing v base m res) = VerdictAccepted \<longleftrightarrow>
     \<not> timed_out m \<and> real_improvement v (b_measured base) m"
  by (auto simp: judge_timing_def Let_def isFaster_iff [symmetric] split: prod.split bool.split)

lemma judge_timing_fields:
  assumes "r_verdict (judge_timing v base m res) = VerdictAccepted"
  shows "r_identical (judge_timing v base m res) = r_identical res"
    "r_candidate_ms (judge_timing v base m res) = median_ms m"
    "r_improvement (judge_timing v base m res) = improvementPct (median_ms (b_measured base)) (median_ms m)"
    "r_candidate (judge_timing v base m res) = r_candidate res"
  using assms by (simp_all add: judge_timing_def Let_def split: prod.splits bool.splits if_splits)

text \<open>What a run of the gate that ends in acceptance looks like.\<close>

definition accepting_run :: "parsers \<Rightarrow> 'w engine \<Rightarrow> verifier \<Rightarrow> baseline \<Rightarrow> candidate \<Rightarrow> 'w \<Rightarrow>
    statement \<Rightarrow> result_hash \<Rightarrow> 'w \<Rightarrow> measurement \<Rightarrow> 'w \<Rightarrow> bool" where
  "accepting_run lib eng v base c w st h w1 m w2 \<longleftrightarrow>
     ParseDialect lib (c_sql c) (v_dialect v) = Inr st \<and>
     normalizeSQL (st_sql st) \<noteq> normalizeSQL (st_sql (b_statement base)) \<and>
     SameShapeAs (b_statement base) st = None \<and>
     eng_checksum eng (c_sql c) (b_ordered base) w = (Inr h, w1) \<and>
     h = b_checksum base \<and>
     eng_measure eng (c_sql c) (v_runs v) w1 = (Inr m, w2) \<and>
     \<not> timed_out m \<and> real_improvement v (b_measured base) m"

lemma static_gate_None:
  "static_gate lib v base c = None \<longleftrightarrow>
     (\<exists>st. ParseDialect lib (c_sql c) (v_dialect v) = Inr st \<and>
        normalizeSQL (st_sql st) \<noteq> normalizeSQL (st_sql (b_statement base)) \<and>
        SameShapeAs (b_statement base) st = None)"
  by (auto simp: static_gate_def split: sum.split option.split)

lemma Verify_accepted_run:
  assumes "Verify lib eng v base c w = (res, w')" and "r_verdict res = VerdictAccepted"
  shows "\<exists>st h w1 m. accepting_run lib eng v base c w st h w1 m w' \<and>
    res = judge_timing v base m ((initial_result base c)\<lparr>r_identical := True\<rparr>)"
proof -
  have none: "static_gate lib v base c = None"
    using assms by (cases "static_gate lib v base c") (auto simp: Verify_def Let_def)
  then obtain st where st: "ParseDialect lib (c_sql c) (v_dialect v) = Inr st"
      "normalizeSQL (st_sql st) \<noteq> normalizeSQL (st_sql (b_statement base))"
      "SameShapeAs (b_statement base) st = None"
    by (auto simp: static_gate_None)
  obtain r1 w1 where c: "eng_checksum eng (c_sql c) (b_ordered base) w = (r1, w1)" by fastforce
  obtain h where h: "r1 = Inr h" using assms none c by (cases r1) (auto simp: Verify_def Let_def)
  have eq: "result_hash_equal (Some (b_checksum base)) (Some h)"
    using assms none c h by (auto simp: Verify_def Let_def split: if_splits)
  obtain r2 w2 where m: "eng_measure eng (c_sql c) (v_runs v) w1 = (r2, w2)" by fastforce
  obtain mm where mm: "r2 = Inr mm" using assms none c h eq m by (cases r2) (auto simp: Verify_def Let_def)
  have res: "res = judge_timing v base mm ((initial_result base c)\<lparr>r_identical := True\<rparr>)" "w' = w2"
    using assms none c h eq m mm by (auto simp: Verify_def Let_def)
  with assms(2) have "\<not> timed_out mm \<and> real_improvement v (b_measured base) mm"
    by (simp add: judge_timing_accepted)
  with st c h eq m mm res show ?thesis
    by (auto simp: accepting_run_def result_hash_equal_iff)
qed

lemma accepting_run_accepted:
  assumes "accepting_run lib eng v base c w st h w1 m w'"
  shows "Verify lib eng v base c w = (judge_timing v base m ((initial_result base c)\<lparr>r_identical := True\<rparr>), w')"
proof -
  have "static_gate lib v base c = None"
    using assms by (auto simp: accepting_run_def static_gate_None)
  then show ?thesis
    using assms by (simp add: Verify_def accepting_run_def result_hash_equal_iff)
qed

section \<open>Facts for every engine that keeps the contract\<close>

context target_engine
begin

lemma baseline_consistent:
  "EstablishBaseline eng st runs w = (Inr base, w') \<Longrightarrow>
   consistent_measurement (b_measured base) \<and> \<not> timed_out (b_measured base) \<and>
   b_ordered base = st_has_order_by st \<and> ordered (b_checksum base) = b_ordered base \<and> b_statement base = st"
  by (auto simp: EstablishBaseline_def bind_io_Inr split: if_splits dest: measure_consistent checksum_ordered)

lemma accepted_strictly_faster:
  assumes "consistent_measurement (b_measured base)" and "Verify lib eng v base c w = (res, w')"
    and "r_verdict res = VerdictAccepted"
  shows "r_candidate_ms res < median_ms (b_measured base)"
proof -
  obtain st h w1 m where run: "accepting_run lib eng v base c w st h w1 m w'"
    and res: "res = judge_timing v base m ((initial_result base c)\<lparr>r_identical := True\<rparr>)"
    using Verify_accepted_run [OF assms(2,3)] by blast
  have "spread_ms m < median_ms (b_measured base) - median_ms m"
    using run by (simp add: accepting_run_def real_improvement_def)
  moreover have "0 \<le> spread_ms m"
    using run by (auto simp: accepting_run_def intro: measure_spread_nonneg)
  ultimately show ?thesis using judge_timing_fields(2) assms(3) res by simp
qed

end

section \<open>Normalization\<close>

lemma normalizeSQL_idem: "normalizeSQL (normalizeSQL s) = normalizeSQL s"
proof -
  let ?ws = "map to_lower (str_fields s)"
  have "str_fields (str_join ?ws '' '') = ?ws"
    by (rule str_fields_join) (auto dest!: str_fields_words simp: list_all_iff to_lower_def)
  then have "str_fields (normalizeSQL s) = ?ws" by (simp add: normalizeSQL_def to_lower_join)
  then show ?thesis by (simp add: normalizeSQL_def to_lower_join comp_def)
qed

lemma str_fields_append_space: "list_all is_space x \<Longrightarrow> str_fields (u @ x) = str_fields u"
proof (induction u rule: str_fields.induct)
  case (1 u)
  let ?t = "dropWhile is_space u"
  show ?case
  proof (cases "?t = []")
    case True
    then have "list_all is_space u" by (simp add: list_all_iff)
    then show ?thesis using 1(2) by (simp add: str_fields_all_space)
  next
    case False
    then obtain c where "c \<in> set u" "\<not> is_space c" by auto
    then have dw: "dropWhile is_space (u @ x) = ?t @ x" by (rule dropWhile_append1)
    have x: "x = [] \<or> is_space (hd x)" using 1(2) by (cases x) auto
    have tw: "takeWhile (\<lambda>c. \<not> is_space c) (?t @ x) = takeWhile (\<lambda>c. \<not> is_space c) ?t"
      using x by (cases x) (auto simp: takeWhile_append, metis takeWhile_eq_all_conv)
    have rest: "dropWhile (\<lambda>c. \<not> is_space c) (?t @ x) = dropWhile (\<lambda>c. \<not> is_space c) ?t @ x"
      using x by (cases x) (auto simp: dropWhile_append)
    have "str_fields (u @ x) = takeWhile (\<lambda>c. \<not> is_space c) ?t # str_fields (dropWhile (\<lambda>c. \<not> is_space c) ?t @ x)"
      using False by (simp only: str_fields.simps [of "u @ x"] Let_def dw tw rest) (simp del: dropWhile_eq_Nil_conv)
    also have "\<dots> = str_fields u"
      using False 1(1) [OF refl False 1(2)]
      by (simp only: str_fields.simps [of u] Let_def) (simp del: dropWhile_eq_Nil_conv)
    finally show ?thesis .
  qed
qed

lemma normalizeSQL_trim: "normalizeSQL (trim_space s) = normalizeSQL s"
proof -
  have left: "str_fields (dropWhile is_space s) = str_fields s" for s
    by (induction s) (simp_all add: str_fields_space)
  have right: "str_fields (trim_right is_space s) = str_fields s" for s
  proof -
    have "rev s = takeWhile is_space (rev s) @ dropWhile is_space (rev s)" by simp
    then have "s = trim_right is_space s @ rev (takeWhile is_space (rev s))"
      unfolding trim_right_def by (metis rev_append rev_rev_ident)
    moreover have "list_all is_space (rev (takeWhile is_space (rev s)))"
      by (auto simp: list_all_iff dest: set_takeWhileD)
    ultimately show ?thesis using str_fields_append_space by metis
  qed
  show ?thesis by (simp add: normalizeSQL_def trim_space_def trim_func_def trim_left_def left right)
qed

section \<open>Properties\<close>

text \<open>
  An engine and parsers for the witnesses: the state counts the operations, the original takes 100 ms
  and every other text 10 ms.
\<close>

definition empty_select :: pg_select where
  "empty_select = PgSelect [] None [] [] None [] None [] [] [] None None [] None SETOP_NONE None None"

definition demo_parsers :: parsers where
  "demo_parsers =
     \<lparr>pg_lib = \<lparr>pg_parse = \<lambda>s. Inr [SelectNode empty_select], pg_normalize = \<lambda>s. Inr s, pg_fingerprint = \<lambda>s. Inr s\<rparr>,
      my_lib = \<lparr>tidb_parse = \<lambda>s. Inl (new_error s), tidb_normalize_digest = \<lambda>s. (s, s)\<rparr>\<rparr>"

definition demo_engine :: "nat engine" where
  "demo_engine =
     \<lparr>eng_introspect = \<lambda>t w. (Inr \<lparr>tables = []\<rparr>, w + 1),
      eng_explain = \<lambda>s w. (Inl (new_error ''off''), w + 1),
      eng_measure = \<lambda>s r w. (Inr (set_stats [if s = ''SELECT 1'' then 100 else 10] (new_measurement r)), w + 1),
      eng_checksum = \<lambda>s ord w. (Inr \<lparr>hash = ''h'', row_count = 1, ordered = ord\<rparr>, w + 1),
      eng_dialect = ''postgres'', as_postgres = None\<rparr>"

definition demo_verifier :: verifier where
  "demo_verifier = \<lparr>v_min_improvement = 10, v_runs = 5, v_dialect = DialectPostgres\<rparr>"

definition demo_baseline :: baseline where
  "demo_baseline =
     \<lparr>b_statement = projr (ParseDialect demo_parsers ''SELECT 1'' DialectPostgres),
      b_plan = \<lparr>raw_plan = '''', plan_summary = '''', total_cost = 0, startup_cost = 0, estimated_rows = 0,
        node_types = [], seq_scan_tables = []\<rparr>,
      b_measured = set_stats [100] (new_measurement 5), b_checksum = \<lparr>hash = ''h'', row_count = 1, ordered = False\<rparr>,
      b_ordered = False\<rparr>"

definition demo_candidate :: candidate where
  "demo_candidate = \<lparr>c_sql = ''SELECT 2'', c_source = ''llm'', c_rationale = ''''\<rparr>"

lemma demo_parse:
  "\<exists>st. ParseDialect demo_parsers s DialectPostgres = Inr st" if "trim_space s \<noteq> ''''" for s
proof -
  have "is_ok (Parse (pg_lib demo_parsers) s)"
    unfolding Parse_ok_cond using that
    by (simp add: demo_parsers_def clean_select_def rejectDataModifyingCTEs.simps empty_select_def)
  then show ?thesis by (simp add: ParseDialect_def is_ok_iff)
qed

lemma demo_statements:
  "\<exists>st1 st2. ParseDialect demo_parsers ''SELECT 1'' DialectPostgres = Inr st1 \<and>
     ParseDialect demo_parsers ''SELECT 2'' DialectPostgres = Inr st2 \<and> SameShapeAs st1 st2 = None \<and>
     st_sql st1 = ''SELECT 1'' \<and> st_sql st2 = ''SELECT 2''"
proof -
  have t: "trim_space ''SELECT 1'' = ''SELECT 1''" "trim_space ''SELECT 2'' = ''SELECT 2''" by code_simp+
  obtain st1 where p1: "ParseDialect demo_parsers ''SELECT 1'' DialectPostgres = Inr st1" using demo_parse t by force
  obtain st2 where p2: "ParseDialect demo_parsers ''SELECT 2'' DialectPostgres = Inr st2" using demo_parse t by force
  have P: "Parse (pg_lib demo_parsers) ''SELECT 1'' = Inr st1" "Parse (pg_lib demo_parsers) ''SELECT 2'' = Inr st2"
    using p1 p2 by (simp_all add: ParseDialect_def)
  have sel: "st_output_cols st1 = st_output_cols st2 \<and> st_tables st1 = st_tables st2"
  proof -
    obtain a where a: "pg_parse (pg_lib demo_parsers) (trim_space ''SELECT 1'') = Inr [SelectNode a]"
        "st_tables st1 = collectTables (SelectNode a) (cteNames a)" "st_output_cols st1 = outputColumns a"
      using Parse_okE [OF P(1)] by metis
    obtain b where b: "pg_parse (pg_lib demo_parsers) (trim_space ''SELECT 2'') = Inr [SelectNode b]"
        "st_tables st2 = collectTables (SelectNode b) (cteNames b)" "st_output_cols st2 = outputColumns b"
      using Parse_okE [OF P(2)] by metis
    have "a = b" using a(1) b(1) by (simp add: demo_parsers_def)
    then show ?thesis using a b by simp
  qed
  then have shape: "SameShapeAs st1 st2 = None"
    by (auto simp: SameShapeAs_None_iff table_names_def names_compatible_def intro!: list.rel_refl)
  moreover have "st_sql st1 = ''SELECT 1''" "st_sql st2 = ''SELECT 2''"
    using ParseDialect_sql [OF p1] ParseDialect_sql [OF p2] t by simp_all
  ultimately show ?thesis using p1 p2 by blast
qed

lemma demo_accepting:
  "\<exists>st h w1 m w2. accepting_run demo_parsers demo_engine demo_verifier demo_baseline demo_candidate 0 st h w1 m w2"
proof -
  obtain st1 st2 where p1: "ParseDialect demo_parsers ''SELECT 1'' DialectPostgres = Inr st1"
    and p2: "ParseDialect demo_parsers ''SELECT 2'' DialectPostgres = Inr st2"
    and shape: "SameShapeAs st1 st2 = None" and sql: "st_sql st1 = ''SELECT 1''" "st_sql st2 = ''SELECT 2''"
    using demo_statements by blast
  have norm: "normalizeSQL ''SELECT 1'' \<noteq> normalizeSQL ''SELECT 2''" by code_simp
  let ?m = "set_stats [10] (new_measurement 5)"
  have "real_improvement demo_verifier (b_measured demo_baseline) ?m"
    by (simp add: real_improvement_def demo_verifier_def demo_baseline_def set_stats_def new_measurement_def
        median_def improvementPct_def)
  then have "accepting_run demo_parsers demo_engine demo_verifier demo_baseline demo_candidate 0 st2
      (b_checksum demo_baseline) 1 ?m 2"
    using p1 p2 shape sql norm
    by (simp add: accepting_run_def demo_verifier_def demo_baseline_def demo_candidate_def demo_engine_def)
      (simp add: set_stats_def new_measurement_def)
  then show ?thesis by blast
qed

text \<open>
  C5: a candidate is accepted exactly when it passes every gate: it parses as a read-only statement,
  is not the original, has the original's shape, its checksum under the baseline's ordering rule is
  the baseline's, its measurement does not time out, and the improvement of the median reaches the
  threshold and exceeds the run-to-run spread of both queries.  Nothing else accepts.
\<close>
theorem Verify_accepts_iff:
  "r_verdict (fst (Verify lib eng v base c w)) = VerdictAccepted \<longleftrightarrow>
     (\<exists>st h w1 m w2. accepting_run lib eng v base c w st h w1 m w2)"
proof
  assume "r_verdict (fst (Verify lib eng v base c w)) = VerdictAccepted"
  then show "\<exists>st h w1 m w2. accepting_run lib eng v base c w st h w1 m w2"
    using Verify_accepted_run [of lib eng v base c w] by (metis prod.collapse)
next
  assume "\<exists>st h w1 m w2. accepting_run lib eng v base c w st h w1 m w2"
  then obtain st h w1 m w2 where run: "accepting_run lib eng v base c w st h w1 m w2" by blast
  then show "r_verdict (fst (Verify lib eng v base c w)) = VerdictAccepted"
    by (simp add: accepting_run_accepted judge_timing_accepted) (simp add: accepting_run_def)
qed



text \<open>
  Every verdict is explained: verification ends in acceptance with the results marked identical
  and no reason, or in rejection with one of the named reasons; a result difference and an execution
  error are always rejections.
\<close>
theorem Verify_total:
  "r_verdict (fst (Verify lib eng v base c w)) = VerdictAccepted \<and>
     r_identical (fst (Verify lib eng v base c w)) \<and> r_reason (fst (Verify lib eng v base c w)) = NoReason \<or>
   r_verdict (fst (Verify lib eng v base c w)) = VerdictRejected \<and>
     r_reason (fst (Verify lib eng v base c w)) \<noteq> NoReason"
proof -
  have gate: "reason \<noteq> NoReason" if "static_gate lib v base c = Some (reason, detail)" for reason detail
    using that by (auto simp: static_gate_def split: sum.splits if_splits option.splits)
  have fresh: "r_reason (with_timing b m res) = r_reason res" for b m and res :: vresult
    by (simp add: with_timing_def Let_def split: option.split)
  have init: "r_reason ((initial_result base c)\<lparr>r_identical := True\<rparr>) = NoReason"
    by (simp add: initial_result_def)
  have judge: "r_verdict (judge_timing v base m res) = VerdictAccepted \<and> r_identical (judge_timing v base m res) \<and>
        r_reason (judge_timing v base m res) = NoReason \<or>
      r_verdict (judge_timing v base m res) = VerdictRejected \<and> r_reason (judge_timing v base m res) \<noteq> NoReason"
    if "r_identical res" "r_reason res = NoReason" for m res
    using that by (simp add: judge_timing_def Let_def fresh split: prod.split bool.split)
  show ?thesis
    using gate judge [of "(initial_result base c)\<lparr>r_identical := True\<rparr>"] init
    by (simp add: Verify_def Let_def split: option.split prod.split sum.split)
qed

text \<open>
  An index recommendation has no noise guard. The threshold is the only test: a change that
  \<open>isFaster\<close> refuses for a rewrite, because it is within the run-to-run spread, still makes an index
  recommended when it reaches the threshold.
\<close>
theorem judge_index_ignores_noise:
  assumes "v_min_improvement v \<le> improvementPct (median_ms (b_measured base)) (median_ms m)"
    and "median_ms (b_measured base) - median_ms m \<le> spread_ms (b_measured base)"
  shows "x_recommended (judge_index v base ddl tab build m) \<and> \<not> fst (isFaster v (b_measured base) m)"
  using assms by (simp add: judge_index_def Let_def isFaster_iff real_improvement_def)

lemma judge_index_ignores_noise_witness:
  "x_recommended (judge_index demo_verifier (demo_baseline\<lparr>b_measured := set_stats [80, 100, 120] (new_measurement 3)\<rparr>)
     ''CREATE INDEX i ON t (a)'' ''t'' 5 (set_stats [85] (new_measurement 3)))"
  by (rule judge_index_ignores_noise [THEN conjunct1])
    (simp_all add: set_stats_def new_measurement_def median_def improvementPct_def demo_verifier_def)

text \<open>
  A candidate that is the original up to letter case and white space is never measured against
  itself: it is rejected and nothing is executed.
\<close>
theorem Verify_original_rejected:
  assumes same: "normalizeSQL (c_sql c) = normalizeSQL (st_sql (b_statement base))"
  shows "r_verdict (fst (Verify lib eng v base c w)) = VerdictRejected \<and> snd (Verify lib eng v base c w) = w"
proof -
  have "static_gate lib v base c \<noteq> None"
  proof
    assume "static_gate lib v base c = None"
    then obtain st where "ParseDialect lib (c_sql c) (v_dialect v) = Inr st"
        "normalizeSQL (st_sql st) \<noteq> normalizeSQL (st_sql (b_statement base))"
      by (auto simp: static_gate_None)
    with same show False by (auto dest!: ParseDialect_sql simp: normalizeSQL_trim)
  qed
  then show ?thesis by (auto simp: Verify_def Let_def)
qed

lemma Verify_original_rejected_witness:
  "snd (Verify demo_parsers demo_engine demo_verifier demo_baseline
     \<lparr>c_sql = ''  select   1 '', c_source = ''llm'', c_rationale = ''''\<rparr> 7) = 7"
proof -
  have t: "trim_space ''SELECT 1'' = ''SELECT 1''" by code_simp
  obtain st1 where p1: "ParseDialect demo_parsers ''SELECT 1'' DialectPostgres = Inr st1" using demo_parse t by force
  have "st_sql (b_statement demo_baseline) = ''SELECT 1''"
    using ParseDialect_sql [OF p1] t p1 by (simp add: demo_baseline_def)
  moreover have "normalizeSQL ''  select   1 '' = normalizeSQL ''SELECT 1''" by code_simp
  ultimately show ?thesis
    by (intro Verify_original_rejected [THEN conjunct2]) simp
qed

end
