(* ===== verification/Rules_Facts.thy ===== *)
theory Rules_Facts
  imports Rules
begin

text \<open>
  What the rules promise: findings in order of severity, one index suggestion per column and only
  where it can help, no guessing of tables, rewrites that replace exactly the matched predicate.
\<close>

section \<open>Findings are only appended\<close>

definition appends :: "(finding \<Rightarrow> bool) \<Rightarrow> analysis \<Rightarrow> analysis \<Rightarrow> bool" where
  "appends P a a' \<longleftrightarrow>
     (\<exists>fs. an_findings a' = an_findings a @ fs \<and> (\<forall>f \<in> set fs. P f)) \<and>
     an_predicates a' = an_predicates a \<and> an_limitations a' = an_limitations a"

lemma appends_refl [simp, intro]: "appends P a a"
  by (simp add: appends_def)

lemma appends_trans: "appends P a b \<Longrightarrow> appends P b c \<Longrightarrow> appends P a c"
  by (fastforce simp: appends_def)

lemma appends_mono: "appends P a b \<Longrightarrow> (\<And>f. P f \<Longrightarrow> Q f) \<Longrightarrow> appends Q a b"
  by (auto simp: appends_def)

lemma appends_add: "P f \<Longrightarrow> appends P a (add_finding f a)"
  by (simp add: appends_def add_finding_def)

lemma appends_fold:
  assumes "\<And>x a. x \<in> set xs \<Longrightarrow> appends P a (step x a)"
  shows "appends P a (fold step xs a)"
  using assms by (induction xs arbitrary: a) (auto intro: appends_trans)

lemma appends_WalkTree: "(\<And>n a. appends P a (visit n a)) \<Longrightarrow> appends P a (WalkTree tree visit a)"
  by (simp add: WalkTree_fold appends_fold)

text \<open>Which codes a rule may report, and that only the index rule suggests DDL.\<close>

definition plain_code :: "string \<Rightarrow> finding \<Rightarrow> bool" where
  "plain_code code f \<longleftrightarrow> f_code f = code \<and> f_suggested_index f = ''''"

lemma plain_new [simp]:
  "plain_code c (new_finding c s t d)"
  "plain_code c (f\<lparr>f_table := x\<rparr>) = plain_code c f" "plain_code c (f\<lparr>f_columns := y\<rparr>) = plain_code c f"
  "plain_code c (f\<lparr>f_evidence := z\<rparr>) = plain_code c f" "plain_code c (f\<lparr>f_rewrite := z\<rparr>) = plain_code c f"
  "plain_code c (f\<lparr>f_detail := z\<rparr>) = plain_code c f"
  by (simp_all add: plain_code_def new_finding_def)

lemma checkSargability_appends: "appends (plain_code ''non-sargable-predicate'') a (checkSargability st sch a)"
proof -
  have "plain_code ''non-sargable-predicate'' (sargable_finding st sch p)" for p
    by (simp add: sargable_finding_def Let_def split: option.split)
  then show ?thesis unfolding checkSargability_def by (auto intro!: appends_fold appends_add)
qed

lemma checkLeadingWildcard_appends: "appends (plain_code ''leading-wildcard-like'') a (checkLeadingWildcard st a)"
proof -
  have f: "plain_code ''leading-wildcard-like'' (wildcard_finding l lit)" for l lit
    by (simp add: wildcard_finding_def Let_def)
  have "appends (plain_code ''leading-wildcard-like'') a (wildcard_visit n a)" for n a
    by (cases n; simp split: option.split) (auto intro: appends_add f)
  then show ?thesis unfolding checkLeadingWildcard_def by (rule appends_WalkTree)
qed

lemma not_in_visit_appends: "appends (plain_code ''not-in-subquery'') a (not_in_visit n a)"
proof -
  have "plain_code ''not-in-subquery'' not_in_finding" by (simp add: not_in_finding_def)
  then show ?thesis by (cases n; simp add: appends_add)
qed

lemma checkNotIn_appends: "appends (plain_code ''not-in-subquery'') a (checkNotIn st a)"
  unfolding checkNotIn_def by (rule appends_WalkTree) (rule not_in_visit_appends)

lemma checkSelectStar_appends: "appends (plain_code ''select-star'') a (checkSelectStar st sch a)"
  by (simp add: checkSelectStar_def Let_def appends_add)

lemma checkLimit_appends: "appends (plain_code ''limit-without-order-by'') a (checkLimitWithoutOrder st a)"
  by (simp add: checkLimitWithoutOrder_def appends_add)

definition plan_code :: "finding \<Rightarrow> bool" where
  "plan_code f \<longleftrightarrow>
     (\<exists>c \<in> {''seq-scan-large-table'', ''row-estimate-off'', ''sort-spilled-to-disk''}. plain_code c f)"

lemma checkPlan_appends: "appends plan_code a (checkPlan m sch a)"
proof (cases "m_plan m")
  case (Some pl)
  have "appends plan_code a (fold (seq_scan_step m sch) (seq_scan_tables pl) a)" for a
    by (rule appends_fold) (simp add: seq_scan_step_def Let_def appends_add plan_code_def)
  moreover have "appends plan_code a (check_estimate m pl a)" for a
    by (simp add: check_estimate_def Let_def appends_add plan_code_def)
  moreover have "appends plan_code a (check_spill m a)" for a
    by (simp add: check_spill_def appends_add plan_code_def)
  ultimately show ?thesis by (simp add: checkPlan_def Some) (blast intro: appends_trans)
qed (simp add: checkPlan_def)

section \<open>Index suggestions\<close>

text \<open>When an index on a column of a table is worth a try.\<close>

definition worth_indexing :: "schema \<Rightarrow> predicate list \<Rightarrow> table \<Rightarrow> string \<Rightarrow> bool" where
  "worth_indexing sch preds t col \<longleftrightarrow>
     (\<exists>p \<in> set preds. p_column p = col \<and> col \<noteq> '''' \<and> schema_table sch (p_table p) = Some t) \<and>
     \<not> indexLeadsWith t col \<and> row_estimate t \<ge> 1000"

definition index_finding_ok :: "schema \<Rightarrow> predicate list \<Rightarrow> finding \<Rightarrow> bool" where
  "index_finding_ok sch preds f \<longleftrightarrow>
     plain_code ''low-selectivity-column'' f \<or>
     f_code f = ''missing-index'' \<and>
     (\<exists>t col. worth_indexing sch preds t col \<and> f_table f = tbl_name t \<and> f_columns f = [col] \<and>
        f_suggested_index f = index_ddl t col)"

lemma missing_index_finding_simps [simp]:
  "f_code (missing_index_finding t p) = ''missing-index''"
  "f_table (missing_index_finding t p) = tbl_name t"
  "f_columns (missing_index_finding t p) = [p_column p]"
  "f_suggested_index (missing_index_finding t p) = index_ddl t (p_column p)"
  by (simp_all add: missing_index_finding_def new_finding_def)

lemma selectivity_plain [simp]: "plain_code ''low-selectivity-column'' (selectivity_finding t p c)"
  by (simp add: selectivity_finding_def)

lemma index_step_appends:
  assumes "p \<in> set preds"
  shows "appends (index_finding_ok sch preds) (fst st) (fst (index_step sch p st))"
proof (cases st)
  case (Pair a proposed)
  have low: "appends (index_finding_ok sch preds) a (add_finding (selectivity_finding t p c) a)" for t c
    by (rule appends_add) (simp add: index_finding_ok_def)
  have idx: "appends (index_finding_ok sch preds) a (add_finding (missing_index_finding t p) a)"
    if "schema_table sch (p_table p) = Some t" "\<not> indexLeadsWith t (p_column p)" "\<not> row_estimate t < 1000"
      "p_column p \<noteq> ''''" for t
    using that assms by (intro appends_add) (auto simp: index_finding_ok_def worth_indexing_def not_less)
  show ?thesis
    by (simp add: Pair index_step_def Let_def low idx split: option.split)
qed

lemma index_fold_appends:
  "set ps \<subseteq> set preds \<Longrightarrow> appends (index_finding_ok sch preds) (fst st) (fst (fold (index_step sch) ps st))"
proof (induction ps arbitrary: st)
  case (Cons p ps)
  have "appends (index_finding_ok sch preds) (fst st) (fst (index_step sch p st))"
    using Cons.prems by (intro index_step_appends) simp
  moreover have "appends (index_finding_ok sch preds) (fst (index_step sch p st))
      (fst (fold (index_step sch) ps (index_step sch p st)))"
    using Cons.prems by (intro Cons.IH) simp
  ultimately show ?case by (simp add: appends_trans)
qed simp

lemma checkMissingIndexes_appends:
  "appends (index_finding_ok sch (an_predicates a)) a (checkMissingIndexes (Some sch) a)"
  using index_fold_appends [of "an_predicates a" "an_predicates a" sch "(a, [])"]
  by (simp add: checkMissingIndexes_def)

text \<open>The \<open>proposed\<close> set: the keys of the suggestions made so far, each once.\<close>

definition suggestion_keys :: "analysis \<Rightarrow> string list" where
  "suggestion_keys a =
     map (\<lambda>f. to_lower (f_table f @ ''.'' @ hd (f_columns f)))
       (filter (\<lambda>f. f_code f = ''missing-index'') (an_findings a))"

lemma suggestion_keys_add:
  "suggestion_keys (add_finding f a) =
     suggestion_keys a @ (if f_code f = ''missing-index'' then [to_lower (f_table f @ ''.'' @ hd (f_columns f))] else [])"
  by (simp add: suggestion_keys_def add_finding_def)

lemma selectivity_code [simp]: "f_code (selectivity_finding t p c) = ''low-selectivity-column''"
  by (simp add: selectivity_finding_def new_finding_def)

lemma index_step_keys:
  assumes "set (suggestion_keys (fst st)) = set (snd st)" and "distinct (suggestion_keys (fst st))"
  shows "set (suggestion_keys (fst (index_step sch p st))) = set (snd (index_step sch p st)) \<and>
    distinct (suggestion_keys (fst (index_step sch p st)))"
  using assms
  by (cases st) (simp add: index_step_def Let_def suggestion_keys_add split: option.split)

lemma index_fold_keys:
  "set (suggestion_keys (fst st)) = set (snd st) \<Longrightarrow> distinct (suggestion_keys (fst st)) \<Longrightarrow>
   distinct (suggestion_keys (fst (fold (index_step sch) ps st)))"
proof (induction ps arbitrary: st)
  case (Cons p ps)
  then show ?case using index_step_keys [of st sch p] by simp
qed simp

section \<open>The whole analysis\<close>

definition tree_code :: "finding \<Rightarrow> bool" where
  "tree_code f \<longleftrightarrow>
     (\<exists>c \<in> {''non-sargable-predicate'', ''leading-wildcard-like'', ''not-in-subquery''}. plain_code c f)"

definition statement_code :: "finding \<Rightarrow> bool" where
  "statement_code f \<longleftrightarrow> (\<exists>c \<in> {''select-star'', ''limit-without-order-by''}. plain_code c f)"

definition tree_rules :: "statement \<Rightarrow> schema option \<Rightarrow> analysis \<Rightarrow> analysis" where
  "tree_rules st sch a = checkNotIn st (checkLeadingWildcard st (checkSargability st sch a))"

lemma tree_rules_appends: "appends tree_code a (tree_rules st sch a)"
  unfolding tree_rules_def
  by (rule appends_trans [OF appends_trans])
    (rule appends_mono [OF checkSargability_appends] appends_mono [OF checkLeadingWildcard_appends]
      appends_mono [OF checkNotIn_appends]; simp add: tree_code_def)+

definition statement_rules :: "statement \<Rightarrow> schema option \<Rightarrow> analysis \<Rightarrow> analysis" where
  "statement_rules st sch a = checkLimitWithoutOrder st (checkSelectStar st sch a)"

lemma statement_rules_appends: "appends statement_code a (statement_rules st sch a)"
  unfolding statement_rules_def
  by (rule appends_trans)
    (rule appends_mono [OF checkSelectStar_appends] appends_mono [OF checkLimit_appends];
      simp add: statement_code_def)+

definition plan_rules :: "measurement option \<Rightarrow> schema option \<Rightarrow> analysis \<Rightarrow> analysis" where
  "plan_rules m sch a = (case m of Some mm \<Rightarrow> checkPlan mm sch a | None \<Rightarrow> a)"

lemma plan_rules_appends: "appends plan_code a (plan_rules m sch a)"
  by (simp add: plan_rules_def checkPlan_appends split: option.split)

definition start_analysis :: "statement \<Rightarrow> schema option \<Rightarrow> analysis" where
  "start_analysis st sch =
     (if st_dialect st \<noteq> DialectMySQL
      then \<lparr>an_findings = [], an_predicates = resolveTables (extractPredicates st) st sch, an_limitations = []\<rparr>
      else \<lparr>an_findings = [], an_predicates = [], an_limitations = [dialect_limitation]\<rparr>)"

lemma Analyze_eq:
  "Analyze st sch m =
     (let a = plan_rules m sch (checkMissingIndexes sch (statement_rules st sch
          (if st_dialect st \<noteq> DialectMySQL then tree_rules st sch (start_analysis st sch) else start_analysis st sch)))
      in a\<lparr>an_findings := sort_key (\<lambda>f. severityRank (f_severity f)) (an_findings a)\<rparr>)"
  by (cases "st_dialect st = DialectMySQL"; cases m)
    (simp_all add: Analyze_def start_analysis_def tree_rules_def statement_rules_def plan_rules_def Let_def)

text \<open>Every finding of an analysis is of one of five kinds; predicates and limitations are those of the start.\<close>

definition any_code :: "schema option \<Rightarrow> predicate list \<Rightarrow> finding \<Rightarrow> bool" where
  "any_code sch preds f \<longleftrightarrow>
     tree_code f \<or> statement_code f \<or> plan_code f \<or> (\<exists>s. sch = Some s \<and> index_finding_ok s preds f)"

lemma checkMissingIndexes_any: "appends (any_code sch (an_predicates a)) a (checkMissingIndexes sch a)"
proof (cases sch)
  case None
  then show ?thesis by (simp add: checkMissingIndexes_def)
next
  case (Some s)
  show ?thesis unfolding Some
    by (rule appends_mono [OF checkMissingIndexes_appends]) (simp add: any_code_def)
qed

lemma appends_predicates: "appends P a b \<Longrightarrow> an_predicates b = an_predicates a"
  by (simp add: appends_def)

lemma statement_rules_any: "appends (any_code sch preds) a (statement_rules st sch a)"
  by (rule appends_mono [OF statement_rules_appends]) (simp add: any_code_def)

lemma plan_rules_any: "appends (any_code sch preds) a (plan_rules m sch a)"
  by (rule appends_mono [OF plan_rules_appends]) (simp add: any_code_def)

lemma tree_rules_any: "appends (any_code sch preds) a (tree_rules st sch a)"
  by (rule appends_mono [OF tree_rules_appends]) (simp add: any_code_def)

lemma Analyze_start:
  "an_predicates (Analyze st sch m) = an_predicates (start_analysis st sch) \<and>
   an_limitations (Analyze st sch m) = an_limitations (start_analysis st sch) \<and>
   (\<forall>f \<in> set (an_findings (Analyze st sch m)). any_code sch (an_predicates (start_analysis st sch)) f)"
proof -
  let ?a0 = "start_analysis st sch"
  let ?P = "any_code sch (an_predicates ?a0)"
  define a1 where "a1 = (if st_dialect st \<noteq> DialectMySQL then tree_rules st sch ?a0 else ?a0)"
  define a2 where "a2 = statement_rules st sch a1"
  have a1: "appends ?P ?a0 a1" by (simp add: a1_def tree_rules_any)
  moreover have a2: "appends ?P a1 a2" by (simp add: a2_def statement_rules_any)
  moreover have "an_predicates a2 = an_predicates ?a0"
    using appends_predicates [OF a1] appends_predicates [OF a2] by simp
  then have "appends ?P a2 (checkMissingIndexes sch a2)"
    using checkMissingIndexes_any [of sch a2] by simp
  ultimately have "appends ?P ?a0 (plan_rules m sch (checkMissingIndexes sch a2))"
    by (meson appends_trans plan_rules_any)
  then show ?thesis
    by (auto simp: Analyze_eq Let_def a1_def a2_def appends_def start_analysis_def)
qed

lemma appends_keys:
  assumes "appends P a b" and "\<And>f. P f \<Longrightarrow> f_code f \<noteq> ''missing-index''"
  shows "suggestion_keys b = suggestion_keys a"
proof -
  obtain fs where fs: "an_findings b = an_findings a @ fs" "\<forall>f \<in> set fs. P f"
    using assms(1) by (auto simp: appends_def)
  then have "filter (\<lambda>f. f_code f = ''missing-index'') fs = []"
    using assms(2) by (auto simp: filter_empty_conv)
  then show ?thesis by (simp add: suggestion_keys_def fs(1))
qed

lemma other_codes:
  "tree_code f \<Longrightarrow> f_code f \<noteq> ''missing-index''"
  "statement_code f \<Longrightarrow> f_code f \<noteq> ''missing-index''"
  "plan_code f \<Longrightarrow> f_code f \<noteq> ''missing-index''"
  by (auto simp: tree_code_def statement_code_def plan_code_def plain_code_def)

lemma Analyze_keys: "distinct (suggestion_keys (Analyze st sch m))"
proof -
  let ?a1 = "if st_dialect st \<noteq> DialectMySQL then tree_rules st sch (start_analysis st sch) else start_analysis st sch"
  let ?a2 = "statement_rules st sch ?a1"
  let ?a4 = "plan_rules m sch (checkMissingIndexes sch ?a2)"
  have "suggestion_keys (start_analysis st sch) = []"
    by (simp add: suggestion_keys_def start_analysis_def)
  then have "suggestion_keys ?a1 = []"
    using appends_keys [OF tree_rules_appends other_codes(1), of st sch "start_analysis st sch"] by simp
  then have none: "suggestion_keys ?a2 = []"
    using appends_keys [OF statement_rules_appends other_codes(2), of st sch ?a1] by simp
  have "distinct (suggestion_keys (checkMissingIndexes sch ?a2))"
    using none index_fold_keys [of "(?a2, [])"]
    by (cases sch) (simp_all add: checkMissingIndexes_def)
  then have "distinct (suggestion_keys ?a4)"
    by (simp add: appends_keys [OF plan_rules_appends other_codes(3)])
  moreover have "mset (suggestion_keys (Analyze st sch m)) = mset (suggestion_keys ?a4)"
    by (simp add: Analyze_eq Let_def suggestion_keys_def mset_map mset_filter)
  ultimately show ?thesis by (metis mset_eq_imp_distinct_iff)
qed

section \<open>Tables and rewrites\<close>

lemma pick_candidate_agrees:
  assumes "pick_candidate found names = r" and "r \<noteq> ''''" and "'''' \<notin> set names"
  shows "(found \<noteq> '''' \<longrightarrow> equal_fold found r) \<and> (\<forall>c \<in> set names. equal_fold c r)"
  using assms
proof (induction found names rule: pick_candidate.induct)
  case (2 found name names)
  have step: "found = '''' \<or> equal_fold found name" "pick_candidate name names = r"
    using 2(2,3) by (auto split: if_splits)
  have "equal_fold name r \<and> (\<forall>c \<in> set names. equal_fold c r)"
    using 2(1) step 2(3,4) by (auto split: if_splits)
  then show ?case using step(1) by (auto intro: equal_fold_trans)
qed simp

lemma squeeze_lower: "to_lower (squeeze s) = squeeze (to_lower s)"
proof -
  have fields: "str_fields (to_lower s) = map to_lower (str_fields s)" for s
  proof (induction s rule: str_fields.induct)
    case (1 s)
    let ?t = "dropWhile is_space s"
    have drop: "dropWhile is_space (to_lower s) = to_lower ?t"
      by (simp add: to_lower_def dropWhile_map comp_def)
    have take: "takeWhile (\<lambda>c. \<not> is_space c) (to_lower u) = to_lower (takeWhile (\<lambda>c. \<not> is_space c) u)"
      and rest: "dropWhile (\<lambda>c. \<not> is_space c) (to_lower u) = to_lower (dropWhile (\<lambda>c. \<not> is_space c) u)" for u
      by (simp_all add: to_lower_def dropWhile_map takeWhile_map comp_def)
    show ?case
    proof (cases "?t = []")
      case True
      with drop have "dropWhile is_space (to_lower s) = []" by simp
      with True show ?thesis by (simp only: str_fields.simps [of s] str_fields.simps [of "to_lower s"] Let_def) simp
    next
      case False
      with 1 have "str_fields (to_lower (dropWhile (\<lambda>c. \<not> is_space c) ?t)) =
          map to_lower (str_fields (dropWhile (\<lambda>c. \<not> is_space c) ?t))" by simp
      with False show ?thesis
        by (simp only: str_fields.simps [of s] str_fields.simps [of "to_lower s"] Let_def drop take rest)
          (simp del: dropWhile_eq_Nil_conv)
    qed
  qed
  show ?thesis by (simp add: squeeze_def to_lower_join fields)
qed

lemma squeeze_idem: "squeeze (squeeze s) = squeeze s"
  by (simp add: squeeze_def str_fields_join str_fields_words)

lemma replaceFold_split:
  assumes "replaceFold s old r = Some out"
  shows "\<exists>u w v. s = u @ w @ v \<and> out = u @ r @ v \<and> equal_fold (squeeze w) (squeeze old)"
proof (cases "str_index (to_lower s) (to_lower (squeeze old))")
  case (Some i)
  let ?t = "squeeze old"
  let ?w = "take (length ?t) (drop i s)"
  have out: "out = take i s @ r @ drop (i + length ?t) s"
    using assms Some by (simp add: replaceFold_def Let_def)
  have "take (length ?t) (drop i (to_lower s)) = to_lower ?t"
    using str_index_Some [OF Some] by (simp add: has_prefix_def)
  then have "to_lower ?w = to_lower ?t" by (simp add: to_lower_def take_map drop_map)
  then have "to_lower (squeeze ?w) = to_lower (squeeze ?t)" by (metis squeeze_lower)
  then have "equal_fold (squeeze ?w) ?t" by (simp add: equal_fold_def squeeze_idem)
  moreover have "s = take i s @ ?w @ drop (i + length ?t) s"
    by (metis append_take_drop_id drop_drop add.commute)
  ultimately show ?thesis using out by blast
next
  case None
  then obtain i j where f: "find (\<lambda>(i, j). equal_fold (squeeze (slice s i j)) (squeeze old))
        (scan_windows (length s) (length (squeeze old) + 16)) = Some (i, j)"
      and out: "out = take i s @ r @ drop j s"
    using assms by (auto simp: replaceFold_def Let_def split: option.splits)
  from f have eq: "equal_fold (squeeze (slice s i j)) (squeeze old)"
    and mem: "(i, j) \<in> set (scan_windows (length s) (length (squeeze old) + 16))"
    by (auto simp: find_Some_iff in_set_conv_nth)
  from mem have "i \<le> j" by (auto simp: scan_windows_def simp del: upt_Suc)
  then have "s = take i s @ slice s i j @ drop j s"
    by (simp add: slice_def) (metis append_take_drop_id drop_drop le_add_diff_inverse2)
  with eq out show ?thesis by blast
qed

section \<open>Extracted predicates\<close>

definition predicates_inv :: "predicate list \<Rightarrow> predicate list \<times> string list \<Rightarrow> bool" where
  "predicates_inv ps st \<longleftrightarrow>
     set (fst st) \<subseteq> {p \<in> set ps. p_column p \<noteq> ''''} \<and> set (snd st) = predicate_key ` set (fst st) \<and>
     distinct (map predicate_key (fst st)) \<and>
     predicate_key ` set (fst st) = predicate_key ` {p \<in> set ps. p_column p \<noteq> ''''}"

lemma addPredicate_inv: "predicates_inv ps st \<Longrightarrow> predicates_inv (ps @ [p]) (addPredicate p st)"
proof (cases st)
  case (Pair out seen)
  assume inv: "predicates_inv ps st"
  have more: "{q \<in> set (ps @ [p]). p_column q \<noteq> ''''} =
      (if p_column p = '''' then {q \<in> set ps. p_column q \<noteq> ''''} else insert p {q \<in> set ps. p_column q \<noteq> ''''})"
    by auto
  from inv show ?thesis
    unfolding predicates_inv_def more Pair addPredicate_def by (auto split: if_splits)
qed

lemma fold_addPredicate_inv: "predicates_inv ps (fold addPredicate ps ([], []))"
proof (induction ps rule: rev_induct)
  case Nil
  then show ?case by (simp add: predicates_inv_def)
next
  case (snoc p ps)
  then show ?case using addPredicate_inv by simp
qed

lemma fold_concat: "fold (\<lambda>n. fold f (g n)) ns s = fold f (concat (map g ns)) s"
  by (induction ns arbitrary: s) simp_all

definition tree_predicates :: "statement \<Rightarrow> predicate list" where
  "tree_predicates st = concat (map node_predicates (concat (map walk_nodes (opt_concat (st_tree st)))))"

lemma extractPredicates_inv: "\<exists>seen. predicates_inv (tree_predicates st) (extractPredicates st, seen)"
proof -
  have "extractPredicates st = fst (fold addPredicate (tree_predicates st) ([], []))"
    by (simp add: extractPredicates_def WalkTree_fold fold_concat tree_predicates_def)
  then show ?thesis using fold_addPredicate_inv [of "tree_predicates st"]
    by (cases "fold addPredicate (tree_predicates st) ([], [])") auto
qed

section \<open>Properties\<close>


text \<open>
  Findings are reported in order of severity, high first. On a MySQL statement, whose tree the
  predicate rules cannot read, that limitation is always stated and no index is suggested.
\<close>
theorem Analyze_ordered:
  "sorted (map f_severity (an_findings (Analyze st sch m))) \<and>
   (st_dialect st = DialectMySQL \<longrightarrow> dialect_limitation \<in> set (an_limitations (Analyze st sch m)) \<and>
      (\<forall>f \<in> set (an_findings (Analyze st sch m)). f_suggested_index f = ''''))"
proof -
  have sev: "sorted (map f_severity fs) \<longleftrightarrow> sorted (map (\<lambda>f. severityRank (f_severity f)) fs)" for fs
    by (induction fs) (auto simp: less_eq_severity_def)
  have "f_suggested_index f = ''''" if "any_code sch [] f" for f
    using that by (auto simp: any_code_def index_finding_ok_def worth_indexing_def tree_code_def
        statement_code_def plan_code_def plain_code_def)
  then show ?thesis
    using Analyze_start [of st sch m] by (auto simp: sev start_analysis_def) (simp add: Analyze_eq Let_def)
qed

definition demo_orders :: table where
  "demo_orders = \<lparr>tbl_schema = ''public'', tbl_name = ''orders'', columns = [], indexes = [],
     row_estimate = 2000000, total_bytes = 0, seq_scans = 0, idx_scans = 0\<rparr>"

definition demo_statement :: "string \<Rightarrow> pg_node list option \<Rightarrow> statement" where
  "demo_statement sql tree =
     \<lparr>st_sql = sql, st_dialect = DialectPostgres, st_normalized = sql, st_fingerprint = '''',
      st_tables = [\<lparr>ref_schema = '''', ref_name = ''orders'', ref_alias = ''o''\<rparr>], st_cte_names = [],
      st_output_cols = [''id''], st_has_limit = False, st_has_order_by = False, st_select_star = False,
      st_tree = tree\<rparr>"

lemma Analyze_ordered_witness:
  "dialect_limitation \<in> set (an_limitations (Analyze ((demo_statement ''SELECT 1'' None)\<lparr>st_dialect := DialectMySQL\<rparr>) None None))"
  using Analyze_ordered [of "(demo_statement ''SELECT 1'' None)\<lparr>st_dialect := DialectMySQL\<rparr>" None None] by simp

text \<open>
  C32: an index is suggested only where it can help: a suggestion is the CREATE INDEX statement for a
  table of the schema with at least 1000 rows and a column that the query compares, which no existing
  index leads with; and each column of a table is suggested at most once.
\<close>
theorem Analyze_suggestions:
  assumes "f \<in> set (an_findings (Analyze st (Some s) m))" and "f_suggested_index f \<noteq> ''''"
  shows "(\<exists>t col. worth_indexing s (an_predicates (Analyze st (Some s) m)) t col \<and> f_table f = tbl_name t \<and>
      f_columns f = [col] \<and> f_suggested_index f = index_ddl t col) \<and>
    distinct (suggestion_keys (Analyze st (Some s) m))"
proof -
  have "any_code (Some s) (an_predicates (Analyze st (Some s) m)) f"
    using Analyze_start [of st "Some s" m] assms(1) by simp
  with assms(2) Analyze_keys show ?thesis
    by (auto simp: any_code_def index_finding_ok_def tree_code_def statement_code_def plan_code_def plain_code_def)
qed

definition demo_filter :: pg_node where
  "demo_filter = AExprNode [StringNode ''='']
     (Some (ColumnRefNode [StringNode ''o'', StringNode ''status''])) (Some (AConstNode (Sval ''paid'')))"

lemma Analyze_suggestions_witness:
  "\<exists>(f :: finding) (t :: table). f_table f = tbl_name t \<and> f_suggested_index f = index_ddl t ''status'' \<and>
     f_columns f = [''status'']"
proof -
  let ?st = "demo_statement ''SELECT id FROM orders o WHERE o.status = $1'' (Some [demo_filter])"
  let ?s = "\<lparr>tables = [demo_orders]\<rparr>"
  let ?p = "\<lparr>p_table = ''orders'', p_qualifier = ''o'', p_column = ''status'', p_operator = ''='',
      p_wrapped_by = '''', p_cast_to = '''', p_literal = quoted ''paid'', p_is_join = False, p_other_table = '''',
      p_other_col = ''''\<rparr>"
  define f where "f = missing_index_finding demo_orders ?p"
  have nodes: "walkMessage demo_filter = [StringNode ''='', ColumnRefNode [StringNode ''o'', StringNode ''status''],
      StringNode ''o'', StringNode ''status'', AConstNode (Sval ''paid'')]"
  proof -
    have leaf: "walkMessage (StringNode s) = []" "walkMessage (AConstNode c) = []" for s c
      by (simp_all add: walkMessage.simps [of "StringNode s"] walkMessage.simps [of "AConstNode c"])
    have col: "walkMessage (ColumnRefNode fs) = concat (map (\<lambda>c. (if c = EmptyNode then [] else [c]) @ walkMessage c) fs)" for fs
      by (simp add: walkMessage.simps [of "ColumnRefNode fs"])
    show ?thesis unfolding demo_filter_def
      by (subst walkMessage.simps) (simp add: opt_list_def leaf col)
  qed
  have preds: "resolveTables (extractPredicates ?st) ?st (Some ?s) = [?p]"
    by (simp add: extractPredicates_def WalkTree_fold walk_nodes_def nodes demo_statement_def opt_concat_def)
      (simp add: demo_filter_def operatorName_def comparison_operators_def analyseSide.simps constText.simps
        columnRefName_def string_parts_def opt_list_def addPredicate_def filter_predicate_def no_side_def
        resolveTables_def resolve_predicate_def resolve_alias_def alias_map_def to_lower_def lower_char_def
        char_code_def quoted_def)
  let ?a = "\<lparr>an_findings = [], an_predicates = [?p], an_limitations = []\<rparr>"
  have tree: "st_tree ?st = Some [demo_filter]" "\<not> st_select_star ?st" "\<not> st_has_limit ?st"
    "st_dialect ?st \<noteq> DialectMySQL" by (simp_all add: demo_statement_def)
  have "checkSargability ?st (Some ?s) ?a = ?a" by (simp add: checkSargability_def)
  moreover have "checkLeadingWildcard ?st a = a" "checkNotIn ?st a = a" for a
    unfolding checkLeadingWildcard_def checkNotIn_def WalkTree_fold tree opt_concat_def walk_nodes_def option.case
    by (simp_all add: nodes) (simp_all add: demo_filter_def operatorName_def is_like_def)
  moreover have "checkLimitWithoutOrder ?st a = a" "checkSelectStar ?st sch a = a" for a sch
    using tree by (simp_all add: checkLimitWithoutOrder_def checkSelectStar_def)
  moreover have "schema_table ?s ''orders'' = Some demo_orders"
    by (simp add: schema_table_def demo_orders_def equalFold_eq)
  then have "checkMissingIndexes (Some ?s) ?a = add_finding f ?a"
    unfolding f_def
    by (simp add: checkMissingIndexes_def index_step_def low_selectivity_def columnOf2_def indexLeadsWith_def)
      (simp add: demo_orders_def)
  ultimately have "f \<in> set (an_findings (Analyze ?st (Some ?s) None))"
    unfolding Analyze_def preds by (simp add: tree(4) add_finding_def)
  moreover have "f_suggested_index f \<noteq> ''''" by (simp add: f_def index_ddl_def)
  ultimately obtain t col where "f_table f = tbl_name t \<and> f_columns f = [col] \<and> f_suggested_index f = index_ddl t col"
    using Analyze_suggestions by blast
  moreover have "f_columns f = [''status'']" by (simp add: f_def)
  ultimately show ?thesis by auto
qed

text \<open>
  An unqualified column is never attributed by guessing: when it is resolved to a table, every
  table of the query that has a column of that name is that table, up to letter case.
\<close>
theorem resolveUnqualified_unambiguous:
  assumes "resolveUnqualified st (Some s) col = r" and "r \<noteq> ''''" and "\<forall>t \<in> set (tables s). tbl_name t \<noteq> ''''"
    and "tref \<in> set (st_tables st)" and "schema_table s (ref_name tref) = Some t"
    and "c \<in> set (columns t)" and "equal_fold (col_name c) col"
  shows "equal_fold (tbl_name t) r"
proof -
  let ?names = "column_candidates st s col"
  have "'''' \<notin> set ?names"
  proof
    assume "'''' \<in> set ?names"
    then obtain x :: table_ref and u where "schema_table s (ref_name x) = Some u" "tbl_name u = ''''"
      by (auto simp: column_candidates_def split: option.splits) metis
    then show False using assms(3) schema_table_Some(1) by blast
  qed
  moreover have "tbl_name t \<in> set ?names"
    using assms(4-7) by (force simp: column_candidates_def)
  ultimately show ?thesis
    using assms(1,2) pick_candidate_agrees [of "''''" ?names r] by (simp add: resolveUnqualified_def)
qed

lemma resolveUnqualified_unambiguous_witness:
  "equal_fold ''orders'' (resolveUnqualified (demo_statement ''SELECT 1'' None)
     (Some \<lparr>tables = [demo_orders\<lparr>columns := [\<lparr>col_name = ''total'', col_type = ''int'', nullable = False,
        null_fraction = 0, distinct_values = 9\<rparr>]\<rparr>]\<rparr>) ''Total'')"
proof -
  let ?c = "\<lparr>col_name = ''total'', col_type = ''int'', nullable = False, null_fraction = 0, distinct_values = 9\<rparr>"
  let ?t = "demo_orders\<lparr>columns := [?c]\<rparr>"
  let ?s = "\<lparr>tables = [?t]\<rparr>"
  let ?st = "demo_statement ''SELECT 1'' None"
  have fold: "equal_fold ''total'' ''Total''" by code_simp
  have tab: "schema_table ?s ''orders'' = Some ?t" by (simp add: schema_table_def demo_orders_def equalFold_eq)
  have "column_candidates ?st ?s ''Total'' = [tbl_name ?t]"
    unfolding column_candidates_def by (simp add: demo_statement_def tab fold)
  then have "resolveUnqualified ?st (Some ?s) ''Total'' = ''orders''"
    by (simp add: resolveUnqualified_def) (simp add: demo_orders_def)
  then have "equal_fold (tbl_name ?t) (resolveUnqualified ?st (Some ?s) ''Total'')"
    using tab by (intro resolveUnqualified_unambiguous [where s = ?s and st = ?st and c = ?c and t = ?t and
          col = "''Total''" and tref = "\<lparr>ref_schema = '''', ref_name = ''orders'', ref_alias = ''o''\<rparr>"])
      (simp_all add: fold demo_statement_def demo_orders_def)
  then show ?thesis by (simp add: demo_orders_def)
qed


definition demo_date_predicate :: predicate where
  "demo_date_predicate = \<lparr>p_table = ''orders'', p_qualifier = '''', p_column = ''ts'', p_operator = ''='',
     p_wrapped_by = ''date'', p_cast_to = '''', p_literal = quoted ''2024-01-01'', p_is_join = False,
     p_other_table = '''', p_other_col = ''''\<rparr>"


text \<open>
  The NOT IN rule does not look for NOT: it reports one finding for every \<open>ANY\<close> sublink of the
  tree, that is for every \<open>x IN (SELECT ...)\<close>, negated or not, because libpg_query represents the
  negation by a node around the sublink.
\<close>
theorem checkNotIn_ignores_negation:
  "an_findings (checkNotIn st a) = an_findings a @
     replicate (length (filter (\<lambda>n. \<exists>te on ss. n = SubLinkNode ANY_SUBLINK te on ss)
       (concat (map walk_nodes (opt_concat (st_tree st)))))) not_in_finding"
proof -
  have visit: "not_in_visit n a = (if \<exists>te on ss. n = SubLinkNode ANY_SUBLINK te on ss
      then add_finding not_in_finding a else a)" for n a
    by (cases n; simp)
  have "an_findings (fold not_in_visit ns a) = an_findings a @
      replicate (length (filter (\<lambda>n. \<exists>te on ss. n = SubLinkNode ANY_SUBLINK te on ss) ns)) not_in_finding" for ns
    by (induction ns arbitrary: a) (simp_all add: visit add_finding_def replicate_append_same)
  then show ?thesis by (simp add: checkNotIn_def WalkTree_fold)
qed

end
