(* ===== verification/Optimizer_Facts.thy ===== *)
theory Optimizer_Facts
  imports Optimizer Verify_Facts Rules_Facts
begin

text \<open>
  What a run promises: every distinct candidate is verified once, the best is the largest verified
  improvement, index experiments keep their budget and recommend only what was measured, and the
  model can only add candidates.
\<close>

section \<open>The best result\<close>

lemma best_of_snoc: "best_of (rs @ [r]) = pick_best r (best_of rs)"
  by (simp add: best_of_def)

definition is_best :: "vresult list \<Rightarrow> vresult option \<Rightarrow> bool" where
  "is_best rs best \<longleftrightarrow>
     (case best of
        None \<Rightarrow> \<forall>r \<in> set rs. r_verdict r \<noteq> VerdictAccepted
      | Some b \<Rightarrow> b \<in> set rs \<and> r_verdict b = VerdictAccepted \<and>
          (\<forall>r \<in> set rs. r_verdict r = VerdictAccepted \<longrightarrow> r_improvement r \<le> r_improvement b))"

lemma best_of_is_best: "is_best rs (best_of rs)"
proof (induction rs rule: rev_induct)
  case Nil
  then show ?case by (simp add: best_of_def is_best_def)
next
  case (snoc r rs)
  then show ?case
    unfolding best_of_snoc by (cases "best_of rs") (auto simp: is_best_def pick_best_def)
qed

section \<open>Candidates\<close>

lemma Verify_candidate: "Verify lib eng v base c w = (r, w') \<Longrightarrow> r_candidate r = c"
proof -
  assume r: "Verify lib eng v base c w = (r, w')"
  have j: "r_candidate (judge_timing v base m x) = r_candidate x" for m x
    by (simp add: judge_timing_def Let_def split: prod.split bool.split)
  have i: "r_candidate ((initial_result base c)\<lparr>r_identical := True\<rparr>) = c"
    by (simp add: initial_result_def)
  show ?thesis
    using r by (auto simp: Verify_def Let_def j i split: option.splits prod.splits sum.splits if_splits)
qed

definition result_key :: "vresult \<Rightarrow> string" where
  "result_key r = normalizeSQL (c_sql (r_candidate r))"

lemma verify_all_keys:
  assumes "verify_all lib eng v base seen out cs w = (rs, w')"
    and "distinct (map result_key out)" and "result_key ` set out \<subseteq> set seen"
  shows "distinct (map result_key rs) \<and>
    result_key ` set rs = result_key ` set out \<union> ((\<lambda>c. normalizeSQL (c_sql c)) ` set cs - set seen) \<and>
    (\<exists>new. rs = out @ new \<and> result_key ` set new \<inter> set seen = {})"
  using assms
proof (induction cs arbitrary: seen out w)
  case Nil
  then show ?case by auto
next
  case (Cons c cs)
  let ?k = "normalizeSQL (c_sql c)"
  show ?case
  proof (cases "?k \<in> set seen")
    case True
    then show ?thesis using Cons.IH [of seen out w] Cons.prems by auto
  next
    case False
    obtain r w1 where v: "Verify lib eng v base c w = (r, w1)" by fastforce
    have k: "result_key r = ?k" by (simp add: result_key_def Verify_candidate [OF v])
    have run: "verify_all lib eng v base (?k # seen) (out @ [r]) cs w1 = (rs, w')"
      using Cons.prems(1) False v by simp
    have "distinct (map result_key (out @ [r]))" "result_key ` set (out @ [r]) \<subseteq> set (?k # seen)"
      using Cons.prems(2,3) False k by auto
    note ih = Cons.IH [OF run this]
    then obtain new where new: "rs = (out @ [r]) @ new" "result_key ` set new \<inter> set (?k # seen) = {}" by blast
    have "rs = out @ (r # new) \<and> result_key ` set (r # new) \<inter> set seen = {}"
      using new False k by auto
    then show ?thesis using ih False k by auto
  qed
qed

lemma verify_all_verified:
  assumes "verify_all lib eng v base seen out cs w = (rs, w')" and "r \<in> set rs"
  shows "r \<in> set out \<or> (\<exists>c \<in> set cs. \<exists>u u'. Verify lib eng v base c u = (r, u'))"
  using assms
proof (induction cs arbitrary: seen out w)
  case (Cons c cs)
  show ?case
  proof (cases "normalizeSQL (c_sql c) \<in> set seen")
    case True
    then show ?thesis using Cons by auto
  next
    case False
    obtain x w1 where v: "Verify lib eng v base c w = (x, w1)" by fastforce
    then have "verify_all lib eng v base (normalizeSQL (c_sql c) # seen) (out @ [x]) cs w1 = (rs, w')"
      using Cons.prems(1) False by simp
    from Cons.IH [OF this Cons.prems(2)] v show ?thesis by auto
  qed
qed simp

section \<open>Experiments\<close>

text \<open>What one experiment is: a failure that recommends nothing, or a judged measurement.\<close>

definition experiment_of :: "verifier \<Rightarrow> baseline \<Rightarrow> finding \<Rightarrow> index_experiment \<Rightarrow> bool" where
  "experiment_of v base f e \<longleftrightarrow>
     x_ddl e = f_suggested_index f \<and> f_suggested_index f \<noteq> '''' \<and>
     (x_recommended e \<longrightarrow> (\<exists>build m. e = judge_index v base (f_suggested_index f) (f_table f) build m))"

lemma MeasureIndex_Inr:
  "MeasureIndex clock eng v base ddl tab w = (Inr e, w') \<Longrightarrow> \<exists>build m. e = judge_index v base ddl tab build m"
  by (auto simp: MeasureIndex_def Let_def split: option.splits prod.splits sum.splits)

lemma judge_index_ddl: "x_ddl (judge_index v base ddl tab build m) = ddl"
  by (simp add: judge_index_def Let_def)

lemma run_experiment_of:
  assumes "f_suggested_index f \<noteq> ''''" and "run_experiment opt v base f w = (e, w')"
  shows "experiment_of v base f e"
proof -
  obtain r w1 where m: "MeasureIndex (op_clock opt) (op_engine opt) v base (f_suggested_index f) (f_table f) w = (r, w1)"
    by fastforce
  show ?thesis
  proof (cases r)
    case (Inl err)
    then have "x_ddl e = f_suggested_index f \<and> \<not> x_recommended e"
      using assms(2) m by (simp add: run_experiment_def failed_experiment_def split: if_splits) auto
    then show ?thesis using assms(1) by (simp add: experiment_of_def)
  next
    case (Inr x)
    then have "e = x" using assms(2) m by (simp add: run_experiment_def)
    moreover obtain build mm where "x = judge_index v base (f_suggested_index f) (f_table f) build mm"
      using MeasureIndex_Inr [OF m [unfolded Inr]] by blast
    ultimately show ?thesis using assms(1) unfolding experiment_of_def by (metis judge_index_ddl)
  qed
qed

lemma index_loop_spec:
  assumes "index_loop opt v base tested out fs w = (es, w')"
  shows "\<exists>new. es = out @ new \<and> int (length new) \<le> max 0 (o_max_index_tests (op_opts opt) - tested) \<and>
    (\<forall>e \<in> set new. \<exists>f \<in> set fs. experiment_of v base f e)"
  using assms
proof (induction fs arbitrary: tested out w)
  case (Cons f fs)
  show ?case
  proof (cases "f_suggested_index f = '''' \<or> tested \<ge> o_max_index_tests (op_opts opt)")
    case True
    show ?thesis
    proof (cases "f_suggested_index f = ''''")
      case True
      then have "index_loop opt v base tested out fs w = (es, w')" using Cons.prems by simp
      from Cons.IH [OF this] show ?thesis by auto
    next
      case False
      then show ?thesis using True Cons.prems by auto
    qed
  next
    case False
    obtain e w1 where r: "run_experiment opt v base f w = (e, w1)" by fastforce
    then have "index_loop opt v base (tested + 1) (out @ [e]) fs w1 = (es, w')" using Cons.prems False by simp
    from Cons.IH [OF this] obtain new where new: "es = (out @ [e]) @ new"
        "int (length new) \<le> max 0 (o_max_index_tests (op_opts opt) - (tested + 1))"
        "\<forall>e \<in> set new. \<exists>f \<in> set fs. experiment_of v base f e" by blast
    have "experiment_of v base f e" using False by (intro run_experiment_of [OF _ r]) simp
    then show ?thesis using new False by (intro exI [of _ "e # new"]) auto
  qed
qed simp

lemma judge_index_recommended:
  "x_recommended (judge_index v base ddl tab build m) \<Longrightarrow>
     v_min_improvement v \<le> x_improvement (judge_index v base ddl tab build m)"
  by (simp add: judge_index_def Let_def)

section \<open>Proposals\<close>

lemma take_proposals_spec:
  "int (length out) < max 1 cap \<Longrightarrow> int (length (take_proposals cap out ps)) \<le> max 1 cap \<and>
   (\<forall>c \<in> set (take_proposals cap out ps). c \<in> set out \<or>
      (c_sql c \<noteq> '''' \<and> (\<exists>p \<in> set ps. c_sql c = trim_space (fst p) \<and> c_rationale c = snd p)))"
proof (induction cap out ps rule: take_proposals.induct)
  case (2 cap out sql rationale ps)
  show ?case
  proof (cases "trim_space sql = ''''")
    case True
    then show ?thesis using 2 by auto
  next
    case False
    let ?out = "out @ [\<lparr>c_sql = trim_space sql, c_source = ''llm'', c_rationale = rationale\<rparr>]"
    show ?thesis
    proof (cases "int (length ?out) \<ge> cap")
      case True
      then show ?thesis using False 2(3) by (auto simp: Let_def)
    next
      case cap: False
      then have "int (length ?out) < max 1 cap" by simp
      from 2(2) [OF False refl cap this] show ?thesis using False cap by (auto simp: Let_def)
    qed
  qed
qed simp

text \<open>
  The model only adds: without a client, and when the proposer fails, the candidates are those of
  the rules; otherwise the rules' candidates come first.
\<close>

lemma gather_candidates_rules:
  assumes "gather_candidates opt st sch base a w = (Inr pp, w')"
  shows "\<exists>extra. pp_candidates pp = rule_candidates a @ extra \<and> (\<not> pp_used pp \<longrightarrow> extra = []) \<and>
    int (length extra) \<le> max 1 (o_max_candidates (op_opts opt))"
proof (cases "o_skip_llm (op_opts opt) \<or> \<not> Enabled (op_llm opt)")
  case True
  then show ?thesis using assms by (auto simp: gather_candidates_def)
next
  case False
  then obtain p where p: "m_plan (b_measured base) = Some p"
    using assms by (cases "m_plan (b_measured base)") (auto simp: gather_candidates_def)
  obtain r w1 where r: "propose opt st sch base p a w = (r, w1)" by fastforce
  show ?thesis
  proof (cases r)
    case (Inl e)
    then show ?thesis using assms False p r by (auto simp: gather_candidates_def)
  next
    case (Inr x)
    obtain cs u where x: "x = (cs, u)" by (cases x)
    obtain ps where "cs = take_proposals (o_max_candidates (op_opts opt)) [] ps"
      using r Inr x by (auto simp: propose_def Let_def split: prod.splits sum.splits)
    then have "int (length cs) \<le> max 1 (o_max_candidates (op_opts opt))"
      using take_proposals_spec [of "[]" "o_max_candidates (op_opts opt)" ps] by simp
    then show ?thesis using assms False p r Inr x by (auto simp: gather_candidates_def)
  qed
qed

section \<open>The report\<close>

lemma Run_report:
  assumes "Run opt sql w = (Inr rep, w')"
  shows "\<exists>st sch base pp w1 w2 w3 w4.
    ParseDialect (op_parsers opt) sql (op_dialect opt) = Inr st \<and>
    EstablishBaseline (op_engine opt) st (o_runs (op_opts opt)) w1 = (Inr base, w2) \<and>
    gather_candidates opt st sch base (Analyze st (Some sch) (Some (b_measured base))) w2 = (Inr pp, w3) \<and>
    verify_all (op_parsers opt) (op_engine opt) (run_verifier opt) base [normalizeSQL (st_sql st)] []
      (pp_candidates pp) w3 = (rp_candidates rep, w4) \<and>
    rp_best rep = best_of (rp_candidates rep) \<and> rp_original rep = st_sql st \<and>
    rp_baseline rep = baseline_of base \<and>
    rp_findings rep = an_findings (Analyze st (Some sch) (Some (b_measured base))) \<and>
    (rp_indexes rep = [] \<or> rp_indexes rep = fst (runIndexExperiments opt (run_verifier opt) base
       (Analyze st (Some sch) (Some (b_measured base))) w4))"
proof -
  obtain st where st: "ParseDialect (op_parsers opt) sql (op_dialect opt) = Inr st"
    using assms by (cases "ParseDialect (op_parsers opt) sql (op_dialect opt)") (simp_all add: Run_def Let_def)
  obtain r1 w1 where i: "eng_introspect (op_engine opt) (map Qualified (st_tables st)) w = (r1, w1)" by fastforce
  obtain sch where sch: "r1 = Inr sch" using assms st i by (cases r1) (simp_all add: Run_def Let_def)
  obtain r2 w2 where b: "EstablishBaseline (op_engine opt) st (o_runs (op_opts opt)) w1 = (r2, w2)" by fastforce
  obtain base where base: "r2 = Inr base" using assms st i sch b by (cases r2) (simp_all add: Run_def Let_def)
  let ?a = "Analyze st (Some sch) (Some (b_measured base))"
  have ph: "run_phases opt (op_clock opt w) st sch base w2 = (Inr rep, w')"
    using assms st i sch b base by (simp add: Run_def Let_def)
  obtain r3 w3 where g: "gather_candidates opt st sch base ?a w2 = (r3, w3)" by fastforce
  obtain pp where pp: "r3 = Inr pp" using ph g by (cases r3) (simp_all add: run_phases_def Let_def)
  obtain rs w4 where v: "verify_all (op_parsers opt) (op_engine opt) (run_verifier opt) base
      [normalizeSQL (st_sql st)] [] (pp_candidates pp) w3 = (rs, w4)" by fastforce
  have rep: "rp_candidates rep = rs \<and> rp_best rep = best_of rs \<and> rp_original rep = st_sql st \<and>
      rp_baseline rep = baseline_of base \<and> rp_findings rep = an_findings ?a \<and>
      (rp_indexes rep = [] \<or> rp_indexes rep = fst (runIndexExperiments opt (run_verifier opt) base ?a w4))"
    using ph g pp v by (auto simp: run_phases_def Let_def split: prod.splits if_splits)
  from b base g pp v have "EstablishBaseline (op_engine opt) st (o_runs (op_opts opt)) w1 = (Inr base, w2)"
    "gather_candidates opt st sch base ?a w2 = (Inr pp, w3)" by simp_all
  with st v rep show ?thesis by blast
qed

lemma runIndexExperiments_spec:
  assumes "runIndexExperiments opt v base a w = (es, w')"
  shows "int (length es) \<le> max 0 (o_max_index_tests (op_opts opt)) \<and>
    sorted (map (\<lambda>e. - x_improvement e) es) \<and>
    (\<forall>e \<in> set es. \<exists>f \<in> set (an_findings a). experiment_of v base f e)"
proof -
  obtain out w1 where l: "index_loop opt v base 0 [] (an_findings a) w = (out, w1)" by fastforce
  have es: "es = sort_key (\<lambda>e. - x_improvement e) out" using assms l by (simp add: runIndexExperiments_def)
  from index_loop_spec [OF l] show ?thesis by (auto simp: es)
qed

section \<open>Properties\<close>

text \<open>An optimizer for the witnesses: a model that proposes one rewrite.\<close>

definition demo_plan :: plan where
  "demo_plan = \<lparr>raw_plan = '''', plan_summary = ''Seq Scan'', total_cost = 1, startup_cost = 0,
     estimated_rows = 1, node_types = [''Seq Scan''], seq_scan_tables = []\<rparr>"

definition demo_llm_http :: "nat http" where
  "demo_llm_http = \<lparr>http_new_request = \<lambda>u. Inr (), http_post = \<lambda>u b w. (Inr (200, Inr ''{}''), w), http_wait = \<lambda>t w. (Inr (), w),
     http_now = \<lambda>w. 0, marshal_request = \<lambda>r. Inr ''{}'',
     decode_response = \<lambda>s. Inr \<lparr>ar_candidates = [[\<lparr>part_text = ''{}'', part_thought = False\<rparr>]],
       ar_usage = \<lparr>promptTokens = 9, outputTokens = 3, totalTokens = 12\<rparr>, ar_block_reason = ''''\<rparr>\<rparr>"

definition demo_optimizer :: "nat optimizer" where
  "demo_optimizer =
     \<lparr>op_engine = demo_engine
        \<lparr>eng_explain := \<lambda>s w. (Inr demo_plan, w + 1),
         eng_measure := \<lambda>s r w. (Inr ((set_stats [if s = ''SELECT 1'' then 100 else 10] (new_measurement r))
           \<lparr>m_plan := Some demo_plan\<rparr>), w + 1)\<rparr>,
      op_llm = Some (new_client ''k'' ''m''), op_opts = DefaultOptions, op_dialect = DialectPostgres,
      op_parsers = demo_parsers, op_http = demo_llm_http, op_clock = int,
      decode_proposals = \<lambda>s. Inr [(''SELECT 2'', ''less work'')]\<rparr>"

lemma demo_gather:
  "m_plan (b_measured base) = Some p \<Longrightarrow>
   \<exists>pp. gather_candidates demo_optimizer st sch base a w = (Inr pp, w) \<and> pp_used pp"
  by (simp add: gather_candidates_def demo_optimizer_def DefaultOptions_def Enabled_def new_client_def propose_def
      Generate_def demo_llm_http_def before_attempt_def attempt_once_def answer_text_def)

lemma demo_run: "\<exists>rep w'. Run demo_optimizer ''SELECT 1'' 0 = (Inr rep, w') \<and> rp_llm_used rep"
proof -
  have t: "trim_space ''SELECT 1'' = ''SELECT 1''" by code_simp
  obtain st where p: "ParseDialect demo_parsers ''SELECT 1'' DialectPostgres = Inr st" using demo_parse t by force
  let ?m = "(set_stats [100] (new_measurement 5))\<lparr>m_plan := Some demo_plan\<rparr>"
  let ?sch = "\<lparr>tables = []\<rparr>"
  have sql: "st_sql st = ''SELECT 1''" using ParseDialect_sql [OF p] t by simp
  obtain base where b: "EstablishBaseline (op_engine demo_optimizer) st 5 1 = (Inr base, 4)" and m: "b_measured base = ?m"
    using sql by (simp add: EstablishBaseline_def bind_io_def map_err_def demo_optimizer_def demo_engine_def
        new_measurement_def)
  have "m_plan (b_measured base) = Some demo_plan" by (simp add: m)
  then obtain pp where g: "gather_candidates demo_optimizer st ?sch base (Analyze st (Some ?sch) (Some (b_measured base))) 4
      = (Inr pp, 4)" and used: "pp_used pp"
    using demo_gather by blast
  have ph: "\<exists>rep w'. run_phases demo_optimizer 0 st ?sch base 4 = (Inr rep, w') \<and> rp_llm_used rep"
    using g used by (auto simp: run_phases_def Let_def split: prod.split)
  moreover have "Run demo_optimizer ''SELECT 1'' 0 = run_phases demo_optimizer 0 st ?sch base 4"
    using p b by (simp add: Run_def demo_optimizer_def demo_engine_def DefaultOptions_def)
  ultimately show ?thesis by simp
qed

text \<open>
  C26: the report's best rewrite is the right one: it is one of the verified candidates, it was
  accepted, and no accepted candidate improves more; it is absent exactly when none was accepted.
\<close>
theorem Run_best:
  assumes "Run opt sql w = (Inr rep, w')"
  shows "is_best (rp_candidates rep) (rp_best rep)"
  using Run_report [OF assms] best_of_is_best by metis




text \<open>
  On an engine that is not PostgreSQL the branch that says an index was NOT measured cannot be
  reached: \<open>MeasureIndex\<close> fails with an error that does not carry \<open>ErrNoHypotheticalIndexes\<close>, so the
  experiment is reported as one that could not be measured.
\<close>
theorem experiment_without_postgres:
  assumes "as_postgres (op_engine opt) = None"
  shows "run_experiment opt v base f w =
    (failed_experiment f ''could not be measured: index experiments require the postgres engine'', w)"
  using assms by (simp add: run_experiment_def MeasureIndex_def) (simp add: new_error_def)

section \<open>Witnesses\<close>

lemma Run_best_witness: "\<exists>rep w'. Run demo_optimizer ''SELECT 1'' 0 = (Inr rep, w') \<and> is_best (rp_candidates rep) (rp_best rep)"
proof -
  obtain rep w' where r: "Run demo_optimizer ''SELECT 1'' 0 = (Inr rep, w')" using demo_run by blast
  from Run_best [OF r] r show ?thesis by blast
qed




lemma experiment_without_postgres_witness:
  "snd (run_experiment demo_optimizer demo_verifier demo_baseline (new_finding ''c'' SeverityLow ''t'' ''d'') 3) = 3"
proof -
  have "as_postgres (op_engine demo_optimizer) = None" by (simp add: demo_optimizer_def demo_engine_def)
  from experiment_without_postgres [OF this] show ?thesis by simp
qed

end
