(* ===== verification/Safety.thy ===== *)
theory Safety
  imports Engine_Open Optimizer_Facts
begin

text \<open>
  What the whole pipeline does to the target database: nothing.  The locale \<open>safe_engine\<close> states what
  one operation of an engine promises under the contract of its driver; the lemmas of the locale lift
  that to the baseline, the verification of all candidates, the index experiments and the run.  Both
  engines are interpretations.
\<close>

section \<open>The model and the suggestions\<close>

text \<open>A request to the model and the waiting between two of them do not touch the database.\<close>

definition http_neutral :: "'w http \<Rightarrow> ('w \<Rightarrow> 'db) \<Rightarrow> ('w \<Rightarrow> bool) \<Rightarrow> bool" where
  "http_neutral h cm tx \<longleftrightarrow>
     (\<forall>url body. neutral cm tx (\<lambda>w. snd (http_post h url body w))) \<and> (\<forall>t. neutral cm tx (\<lambda>w. snd (http_wait h t w)))"

lemma before_attempt_neutral:
  assumes "http_neutral h cm tx"
  shows "neutral cm tx (\<lambda>w. snd (before_attempt h deadline attempt lastErr w))"
  using assms by (simp add: neutral_def http_neutral_def before_attempt_def)

lemma attempt_once_neutral:
  assumes "http_neutral h cm tx"
  shows "neutral cm tx (\<lambda>w. snd (attempt_once h c payload w))"
  unfolding neutral_def
proof
  fix w
  obtain r w1 where p: "http_post h (request_url c) payload w = (r, w1)" by fastforce
  have "snd (attempt_once h c payload w) = w1 \<or> snd (attempt_once h c payload w) = w"
    by (simp add: attempt_once_def p split: sum.split prod.split)
  moreover have "cm w1 = cm w \<and> tx w1 = tx w"
    by (rule neutralD [of _ _ "http_post h (request_url c) payload"]) (use assms p in \<open>simp_all add: http_neutral_def\<close>)
  ultimately show "cm (snd (attempt_once h c payload w)) = cm w \<and> tx (snd (attempt_once h c payload w)) = tx w"
    by auto
qed

lemma generate_loop_neutral:
  assumes "http_neutral h cm tx"
  shows "neutral cm tx (\<lambda>w. snd (generate_loop h c payload start deadline n attempt lastErr w))"
proof (induction n arbitrary: attempt lastErr)
  case (Suc n)
  show ?case unfolding neutral_def
  proof
    fix w
    obtain r w1 where b: "before_attempt h deadline attempt lastErr w = (r, w1)" by fastforce
    obtain x w2 where a: "attempt_once h c payload w1 = (x, w2)" by fastforce
    note 1 = neutralD [OF before_attempt_neutral [OF assms] b]
    note 2 = neutralD [OF attempt_once_neutral [OF assms] a]
    have 3: "cm (snd (generate_loop h c payload start deadline n (Suc attempt) err w2)) = cm w2 \<and>
        tx (snd (generate_loop h c payload start deadline n (Suc attempt) err w2)) = tx w2" for err
      using Suc.IH [of "Suc attempt" err] by (simp add: neutral_def)
    show "cm (snd (generate_loop h c payload start deadline (Suc n) attempt lastErr w)) = cm w \<and>
        tx (snd (generate_loop h c payload start deadline (Suc n) attempt lastErr w)) = tx w"
      using 1 2 3 by (cases r; cases x) (simp_all add: b a)
  qed
qed (simp add: neutral_def)

lemma gather_candidates_neutral:
  assumes "http_neutral (op_http opt) cm tx"
  shows "neutral cm tx (\<lambda>w. snd (gather_candidates opt st sch base a w))"
proof -
  have gen: "neutral cm tx (\<lambda>w. snd (Generate (op_http opt) client req w))" for client req
    using generate_loop_neutral [OF assms, of "the client"] unfolding neutral_def Generate_def Let_def
    by (auto simp del: generate_loop.simps split: sum.split)
  have "snd (propose opt st sch base p a w) =
      snd (Generate (op_http opt) (op_llm opt) (proposal_request st sch base p a (o_max_candidates (op_opts opt))) w)" for p w
    by (simp add: propose_def Let_def split: prod.split sum.split)
  then have same: "cm (snd (propose opt st sch base p a w)) = cm w \<and> tx (snd (propose opt st sch base p a w)) = tx w"
    for p w
    using gen by (simp add: neutral_def)
  have "snd (gather_candidates opt st sch base a w) = w \<or>
      (\<exists>p. snd (gather_candidates opt st sch base a w) = snd (propose opt st sch base p a w))" for w
    by (auto simp: gather_candidates_def Let_def split: option.split prod.split sum.split) (metis snd_conv)+
  then show ?thesis unfolding neutral_def by (metis same)
qed

text \<open>Every index that the analysis suggests is one \<open>CREATE INDEX\<close> statement.\<close>

lemma Analyze_plain:
  assumes "f \<in> set (an_findings (Analyze st (Some s) m))"
  shows "f_suggested_index f = '''' \<or> plain_statement (f_suggested_index f)"
proof -
  have "any_code (Some s) (an_predicates (start_analysis st (Some s))) f"
    using Analyze_start [of st "Some s" m] assms by blast
  then show ?thesis
    by (auto simp: any_code_def index_finding_ok_def tree_code_def statement_code_def plan_code_def plain_code_def
        plain_statement_def index_ddl_def has_prefix_def)
qed

lemma ParseDialect_trim: "ParseDialect lib (trim_space s) d = ParseDialect lib s d"
  by (simp add: ParseDialect_def Parse_def ParseMySQL_def)

section \<open>The interface\<close>

text \<open>
  \<open>eng c\<close> is the engine with the configuration \<open>c\<close>; \<open>contract c committed in_tx sql\<close> is what is known
  of the server for the statement \<open>sql\<close>.
\<close>

locale safe_engine =
  fixes eng :: "'c \<Rightarrow> 'w engine"
    and contract :: "'c \<Rightarrow> ('w \<Rightarrow> 'db) \<Rightarrow> ('w \<Rightarrow> bool) \<Rightarrow> string \<Rightarrow> bool"
  assumes introspect_safe: "contract c cm tx sql \<Longrightarrow> harmless cm tx (eng_introspect (eng c) tabs)"
    and explain_safe: "contract c cm tx sql \<Longrightarrow> harmless cm tx (eng_explain (eng c) sql)"
    and measure_safe: "contract c cm tx sql \<Longrightarrow> harmless cm tx (eng_measure (eng c) sql runs)"
    and checksum_safe: "contract c cm tx sql \<Longrightarrow> harmless cm tx (eng_checksum (eng c) sql ord)"
    and experiment_safe: "contract c cm tx sql \<Longrightarrow> as_postgres (eng c) = Some pg \<Longrightarrow> plain_statement ddl \<Longrightarrow>
      tx_local cm tx body \<Longrightarrow> harmless cm tx (with_hypothetical_index pg ddl body)"
    and in_tx_safe: "contract c cm tx sql \<Longrightarrow> as_postgres (eng c) = Some pg \<Longrightarrow>
      tx_local cm tx (measure_in_tx pg sql runs)"
begin

lemma baseline_safe: "contract c cm tx (st_sql st) \<Longrightarrow> harmless cm tx (EstablishBaseline (eng c) st runs)"
  unfolding EstablishBaseline_def
  by (intro effect_intros explain_safe measure_safe) (auto intro!: effect_intros checksum_safe)

lemma Verify_safe:
  assumes "is_ok (ParseDialect lib (c_sql cand) (v_dialect v)) \<Longrightarrow> contract c cm tx (c_sql cand)"
  shows "harmless cm tx (Verify lib (eng c) v base cand)"
  unfolding harmless_def
proof (intro allI impI)
  fix w assume out: "\<not> tx w"
  show "cm (snd (Verify lib (eng c) v base cand w)) = cm w \<and> \<not> tx (snd (Verify lib (eng c) v base cand w))"
  proof (cases "static_gate lib v base cand")
    case None
    then have c: "contract c cm tx (c_sql cand)"
      using assms by (auto simp: static_gate_None)
    obtain r1 w1 where s1: "eng_checksum (eng c) (c_sql cand) (b_ordered base) w = (r1, w1)" by fastforce
    obtain r2 w2 where s2: "eng_measure (eng c) (c_sql cand) (v_runs v) w1 = (r2, w2)" by fastforce
    note 1 = harmlessD [OF checksum_safe [OF c] s1 out]
    note 2 = harmlessD [OF measure_safe [OF c] s2 conjunct2 [OF 1]]
    have "snd (Verify lib (eng c) v base cand w) \<in> {w1, w2}"
      by (simp add: Verify_def None s1 s2 Let_def split: sum.split)
    then show ?thesis using 1 2 by auto
  qed (simp add: Verify_def Let_def out split: prod.split)
qed

text \<open>All candidates: the state in which each is verified has the same database.\<close>

lemma verify_all_safe:
  assumes "\<And>q. is_ok (ParseDialect lib q (v_dialect v)) \<Longrightarrow> contract c cm tx q"
    and "verify_all lib (eng c) v base seen out cs w = (rs, w')" and "\<not> tx w"
  shows "cm w' = cm w \<and> \<not> tx w' \<and>
    (\<forall>r \<in> set rs - set out. \<exists>u u'. Verify lib (eng c) v base (r_candidate r) u = (r, u') \<and> cm u = cm w \<and> \<not> tx u)"
  using assms(2,3)
proof (induction cs arbitrary: seen out w)
  case (Cons x xs)
  show ?case
  proof (cases "normalizeSQL (c_sql x) \<in> set seen")
    case True
    then show ?thesis using Cons.IH [of seen out w] Cons.prems by simp
  next
    case False
    obtain r w1 where v: "Verify lib (eng c) v base x w = (r, w1)" by fastforce
    then have run: "verify_all lib (eng c) v base (normalizeSQL (c_sql x) # seen) (out @ [r]) xs w1 = (rs, w')"
      using Cons.prems(1) False by simp
    have 1: "cm w1 = cm w \<and> \<not> tx w1" by (rule harmlessD [OF Verify_safe [OF assms(1)] v Cons.prems(2)])
    have "Verify lib (eng c) v base (r_candidate r) w = (r, w1)" using v Verify_candidate [OF v] by simp
    then show ?thesis using Cons.IH [OF run conjunct2 [OF 1]] 1 Cons.prems(2) by fastforce
  qed
qed simp

lemma MeasureIndex_safe:
  assumes c: "contract c cm tx (st_sql (b_statement base))" and ddl: "plain_statement ddl"
  shows "harmless cm tx (MeasureIndex clock (eng c) v base ddl tab)"
proof (cases "as_postgres (eng c)")
  case (Some pg)
  have body: "tx_local cm tx (index_body clock pg v base start)" for start
    using in_tx_safe [OF c Some] unfolding tx_local_def
    by (auto simp: index_body_def Let_def split: prod.split sum.split) (metis prod.sel(2))+
  show ?thesis unfolding harmless_def
  proof (intro allI impI)
    fix w assume out: "\<not> tx w"
    obtain r w1 where s: "with_hypothetical_index pg ddl (index_body clock pg v base (clock w)) w = (r, w1)" by fastforce
    have "snd (MeasureIndex clock (eng c) v base ddl tab w) = w1"
      by (simp add: MeasureIndex_def Some s Let_def split: sum.split prod.split)
    then show "cm (snd (MeasureIndex clock (eng c) v base ddl tab w)) = cm w \<and>
        \<not> tx (snd (MeasureIndex clock (eng c) v base ddl tab w))"
      using harmlessD [OF experiment_safe [OF c Some ddl body] s out] by simp
  qed
qed (simp add: MeasureIndex_def harmless_def)

lemma index_loop_safe:
  assumes eng: "op_engine opt = eng c" and c: "contract c cm tx (st_sql (b_statement base))"
    and "\<forall>f \<in> set fs. f_suggested_index f = '''' \<or> plain_statement (f_suggested_index f)" and "\<not> tx w"
  shows "cm (snd (index_loop opt v base tested out fs w)) = cm w \<and> \<not> tx (snd (index_loop opt v base tested out fs w))"
  using assms(3,4)
proof (induction fs arbitrary: tested out w)
  case (Cons f fs)
  show ?case
  proof (cases "f_suggested_index f = '''' \<or> tested \<ge> o_max_index_tests (op_opts opt)")
    case False
    obtain e w1 where r: "run_experiment opt v base f w = (e, w1)" by fastforce
    obtain x w2 where m: "MeasureIndex (op_clock opt) (eng c) v base (f_suggested_index f) (f_table f) w = (x, w2)"
      by fastforce
    then have "w1 = w2" using r by (auto simp: run_experiment_def eng split: sum.splits)
    then have 1: "cm w1 = cm w \<and> \<not> tx w1"
      using harmlessD [OF MeasureIndex_safe [OF c] m Cons.prems(2)] Cons.prems(1) False by simp
    then show ?thesis using Cons.IH [of w1 "tested + 1" "out @ [e]"] Cons.prems(1) False r by simp
  qed (use Cons in \<open>auto\<close>)
qed simp

text \<open>The run: what happened to the database, and in which state each verdict was reached.\<close>

lemma run_phases_safe:
  assumes eng: "op_engine opt = eng c" and http: "http_neutral (op_http opt) cm tx"
    and ok: "\<And>q. is_ok (ParseDialect (op_parsers opt) q (op_dialect opt)) \<Longrightarrow> contract c cm tx q"
    and base: "contract c cm tx (st_sql (b_statement base))" and "\<not> tx w"
    and run: "run_phases opt start st sch base w = (res, w')"
  shows "cm w' = cm w \<and> \<not> tx w' \<and> (\<forall>rep r. res = Inr rep \<longrightarrow> r \<in> set (rp_candidates rep) \<longrightarrow>
    (\<exists>u u'. Verify (op_parsers opt) (eng c) (run_verifier opt) base (r_candidate r) u = (r, u') \<and> cm u = cm w \<and> \<not> tx u))"
proof -
  let ?a = "Analyze st (Some sch) (Some (b_measured base))" and ?v = "run_verifier opt"
  obtain g w1 where g: "gather_candidates opt st sch base ?a w = (g, w1)" by fastforce
  have 1: "cm w1 = cm w \<and> tx w1 = tx w" by (rule neutralD [OF gather_candidates_neutral [OF http] g])
  show ?thesis
  proof (cases g)
    case (Inl err)
    then show ?thesis using run 1 \<open>\<not> tx w\<close> by (auto simp: run_phases_def Let_def g)
  next
    case (Inr pp)
    obtain rs w2 where v: "verify_all (op_parsers opt) (eng c) ?v base [normalizeSQL (st_sql st)] [] (pp_candidates pp) w1
        = (rs, w2)" by fastforce
    have "v_dialect ?v = op_dialect opt" by (simp add: run_verifier_def)
    with ok have ok': "is_ok (ParseDialect (op_parsers opt) q (v_dialect ?v)) \<Longrightarrow> contract c cm tx q" for q by simp
    note 2 = verify_all_safe [OF ok' v]
    obtain es w3 where x: "(if o_test_indexes (op_opts opt) then runIndexExperiments opt ?v base ?a w2 else ([], w2))
        = (es, w3)" by fastforce
    have 3: "cm w3 = cm w2 \<and> \<not> tx w3" if "\<not> tx w2"
      using index_loop_safe [OF eng base, of "an_findings ?a" w2 ?v 0 "[]"] Analyze_plain that x
      by (auto simp: runIndexExperiments_def split: if_splits prod.splits)
    have "w' = w3" and "\<And>rep. res = Inr rep \<Longrightarrow> rp_candidates rep = rs"
      using run by (auto simp: run_phases_def Let_def g Inr v eng x)
    then show ?thesis using 1 2 3 \<open>\<not> tx w\<close> by simp
  qed
qed

lemma Run_safe:
  assumes eng: "op_engine opt = eng c" and http: "http_neutral (op_http opt) cm tx"
    and ok: "\<And>q. is_ok (ParseDialect (op_parsers opt) q (op_dialect opt)) \<Longrightarrow> contract c cm tx q"
    and "\<not> tx w" and run: "Run opt sql w = (res, w')"
  shows "cm w' = cm w \<and> \<not> tx w' \<and> (\<forall>rep r. res = Inr rep \<longrightarrow> r \<in> set (rp_candidates rep) \<longrightarrow>
    (\<exists>st base u0 u1 u u'. ParseDialect (op_parsers opt) sql (op_dialect opt) = Inr st \<and>
      EstablishBaseline (eng c) st (o_runs (op_opts opt)) u0 = (Inr base, u1) \<and> cm u0 = cm w \<and> \<not> tx u0 \<and>
      Verify (op_parsers opt) (eng c) (run_verifier opt) base (r_candidate r) u = (r, u') \<and> cm u = cm w \<and> \<not> tx u))"
proof (cases "ParseDialect (op_parsers opt) sql (op_dialect opt)")
  case (Inl err)
  then show ?thesis using run \<open>\<not> tx w\<close> by (auto simp: Run_def)
next
  case (Inr st)
  have c: "contract c cm tx (st_sql st)"
    using Inr by (intro ok) (simp add: ParseDialect_sql [OF Inr] ParseDialect_trim)
  obtain r1 w1 where i: "eng_introspect (eng c) (map Qualified (st_tables st)) w = (r1, w1)" by fastforce
  note 1 = harmlessD [OF introspect_safe [OF c] i \<open>\<not> tx w\<close>]
  obtain r2 w2 where b: "EstablishBaseline (eng c) st (o_runs (op_opts opt)) w1 = (r2, w2)" by fastforce
  note 2 = harmlessD [OF baseline_safe [OF c] b conjunct2 [OF 1]]
  show ?thesis
  proof (cases "is_ok r1 \<and> is_ok r2")
    case False
    then show ?thesis using run 1 2 Inr by (cases r1; cases r2) (auto simp: Run_def i b eng)
  next
    case True
    then obtain sch base where r: "r1 = Inr sch" "r2 = Inr base" by (cases r1; cases r2) auto
    have "b_statement base = st"
      using b r(2) by (auto simp: EstablishBaseline_def bind_io_Inr split: if_splits)
    with c have c': "contract c cm tx (st_sql (b_statement base))" by simp
    have ph: "run_phases opt (op_clock opt w) st sch base w2 = (res, w')"
      using run by (simp add: Run_def Inr i b eng r)
    have ph_safe: "cm w' = cm w2 \<and> \<not> tx w' \<and> (\<forall>rep r. res = Inr rep \<longrightarrow> r \<in> set (rp_candidates rep) \<longrightarrow>
        (\<exists>u u'. Verify (op_parsers opt) (eng c) (run_verifier opt) base (r_candidate r) u = (r, u') \<and>
          cm u = cm w2 \<and> \<not> tx u))"
      by (rule run_phases_safe [OF eng http _ c' conjunct2 [OF 2] ph]) (rule ok)
    show ?thesis
    proof (intro conjI allI impI)
      fix rep x assume "res = Inr rep" "x \<in> set (rp_candidates rep)"
      with ph_safe obtain u u' where "Verify (op_parsers opt) (eng c) (run_verifier opt) base (r_candidate x) u = (x, u')"
        "cm u = cm w2" "\<not> tx u" by blast
      with 1 2 b r Inr show "\<exists>st base u0 u1 u u'. ParseDialect (op_parsers opt) sql (op_dialect opt) = Inr st \<and>
          EstablishBaseline (eng c) st (o_runs (op_opts opt)) u0 = (Inr base, u1) \<and> cm u0 = cm w \<and> \<not> tx u0 \<and>
          Verify (op_parsers opt) (eng c) (run_verifier opt) base (r_candidate x) u = (x, u') \<and> cm u = cm w \<and> \<not> tx u"
        by fastforce
    qed (use ph_safe 1 2 in simp_all)
  qed
qed

end

section \<open>Both engines\<close>

definition pg_engine_of :: "'w pgx \<times> timings \<times> json_lib \<Rightarrow> 'w engine" where
  "pg_engine_of c = (case c of (drv, tim, js) \<Rightarrow> postgres_engine drv tim js)"

definition my_engine_of :: "'w sqldb \<times> timings \<times> json_lib \<Rightarrow> 'w engine" where
  "my_engine_of c = (case c of (db, tim, js) \<Rightarrow> mysql_engine db tim js)"

interpretation pg_safe: safe_engine pg_engine_of "\<lambda>c cm tx sql. tx_contract (fst c) cm tx"
proof
  fix c :: "'w pgx \<times> timings \<times> json_lib" and cm :: "'w \<Rightarrow> 'db" and tx
  obtain drv tim js where [simp]: "c = (drv, tim, js)" by (cases c) auto
  assume "tx_contract (fst c) cm tx"
  then have k: "tx_contract drv cm tx" by simp
  show "harmless cm tx (eng_introspect (pg_engine_of c) tabs)" for tabs
    using pg_Introspect_neutral [OF k] by (simp add: pg_engine_of_def postgres_engine_def neutral_def harmless_def)
  show "harmless cm tx (eng_explain (pg_engine_of c) sql)" "harmless cm tx (eng_measure (pg_engine_of c) sql runs)"
    "harmless cm tx (eng_checksum (pg_engine_of c) sql ord)" for sql runs ord
    by (simp_all add: pg_engine_of_def postgres_engine_def pg_Explain_harmless [OF k] pg_Measure_harmless [OF k]
        pg_Checksum_harmless [OF k])
  fix pg assume pg: "as_postgres (pg_engine_of c) = Some pg"
  show "tx_local cm tx (measure_in_tx pg sql runs)" for sql runs
    using pg pg_MeasureInTx_local [OF k] by (auto simp: pg_engine_of_def postgres_engine_def)
  show "harmless cm tx (with_hypothetical_index pg ddl body)" if "plain_statement ddl" "tx_local cm tx body" for ddl body
    using pg pg_WithHypotheticalIndex_harmless [OF k that] by (auto simp: pg_engine_of_def postgres_engine_def)
qed

interpretation my_safe: safe_engine my_engine_of "\<lambda>c cm tx sql. my_contract (fst c) cm tx sql"
  by unfold_locales
    (auto simp: my_engine_of_def mysql_engine_def split: prod.splits
      intro: my_Introspect_harmless my_Explain_harmless my_Measure_harmless my_Checksum_harmless)

section \<open>The checksum of the baseline\<close>

lemma EstablishBaseline_checksum:
  assumes drv: "tx_contract drv cm tx" and "\<not> tx w"
    and "EstablishBaseline (postgres_engine drv tim js) st runs w = (Inr base, w')"
  shows "b_ordered base = st_has_order_by st \<and> (\<exists>u u'. pg_Checksum drv tim (st_sql st) (st_has_order_by st) u
    = (Inr (b_checksum base), u') \<and> cm u = cm w \<and> \<not> tx u)"
proof -
  from assms(3) obtain p w1 m w2 h w3 where s: "pg_Explain drv tim js (st_sql st) w = (Inr p, w1)"
      "pg_Measure drv tim js (st_sql st) runs w1 = (Inr m, w2)"
      "pg_Checksum drv tim (st_sql st) (st_has_order_by st) w2 = (Inr h, w3)"
    and base: "b_checksum base = h" "b_ordered base = st_has_order_by st"
    by (auto simp: EstablishBaseline_def bind_io_Inr postgres_engine_def split: if_splits)
  note 1 = harmlessD [OF pg_Explain_harmless [OF drv] s(1) \<open>\<not> tx w\<close>]
  note 2 = harmlessD [OF pg_Measure_harmless [OF drv] s(2) conjunct2 [OF 1]]
  from 1 2 s(3) base show ?thesis by auto
qed

end
