(* ===== verification/Demo_Target.thy ===== *)
theory Demo_Target
  imports Safety
begin

text \<open>
  A PostgreSQL server with an optimizer on it, small enough to evaluate a whole run: the witnesses of
  the properties of the pipeline apply them to it.
\<close>

section \<open>A server for the witnesses\<close>

text \<open>The state is the transaction flag; every plan takes a millisecond, that of SELECT 1 a hundred.\<close>

definition fast_pgx :: "bool pgx" where
  "fast_pgx =
     \<lparr>pool_acquire = \<lambda>w. (Inr (), w), conn_release = \<lambda>w. w, begin_tx = \<lambda>ro w. (Inr (), True),
      tx_exec = \<lambda>s w. (Inr (), w),
      tx_query_text = \<lambda>s w. (Inr (replicate (if s = analyze_sql ''SELECT 1'' then 100 else 1) (CHR ''x'')), w),
      tx_query_hash = \<lambda>s w. (Inr (replicate 32 (CHR ''b''), 1), w), tx_rollback = \<lambda>w. False,
      query_table_stats = \<lambda>a w. (Inr ([], None), w), query_columns = \<lambda>a w. (Inr ([], None), w),
      query_indexes = \<lambda>a w. (Inr ([], None), w)\<rparr>"

definition fast_timings :: timings where
  "fast_timings = \<lparr>statement_timeout = 1000000000, t_runs = 1, warmup_runs = 0\<rparr>"

definition fast_optimizer :: "bool optimizer" where
  "fast_optimizer =
     \<lparr>op_engine = postgres_engine fast_pgx fast_timings demo_json, op_llm = Some (new_client ''k'' ''m''),
      op_opts = DefaultOptions\<lparr>o_runs := 1, o_test_indexes := False\<rparr>, op_dialect = DialectPostgres,
      op_parsers = demo_parsers,
      op_http = \<lparr>http_new_request = \<lambda>u. Inr (), http_post = \<lambda>u b w. (Inr (200, Inr ''{}''), w), http_wait = \<lambda>t w. (Inr (), w), http_now = \<lambda>w. 0,
        marshal_request = \<lambda>r. Inr ''{}'',
        decode_response = \<lambda>s. Inr \<lparr>ar_candidates = [[\<lparr>part_text = ''{}'', part_thought = False\<rparr>]],
          ar_usage = \<lparr>promptTokens = 9, outputTokens = 3, totalTokens = 12\<rparr>, ar_block_reason = ''''\<rparr>\<rparr>,
      op_clock = \<lambda>w. 0, decode_proposals = \<lambda>s. Inr [(''SELECT 2'', ''less work'')]\<rparr>"

lemma fast_contract: "tx_contract fast_pgx (\<lambda>_. ()) (\<lambda>w. w)"
  by (simp add: tx_contract_def neutral_def tx_local_def fast_pgx_def)

lemma fast_checksum_contract: "checksum_contract fast_pgx (\<lambda>_. ()) demo_md5 demo_rows"
proof -
  have "demo_md5 ''(1)'' \<noteq> ''(1)''" by (auto simp: demo_md5_def dest: arg_cong [of _ _ length])
  then show ?thesis
    by (auto simp: checksum_contract_def fast_pgx_def checksum_of_rows_def demo_md5_def demo_rows_def)
qed

lemma fast_readOnly: "pg_readOnly fast_pgx tim (tx_query_text fast_pgx s) False =
    (Inr (replicate (if s = analyze_sql ''SELECT 1'' then 100 else 1) (CHR ''x'')), False)"
  by (simp add: pg_readOnly_def in_transaction_def fast_pgx_def)

definition blank_plan :: "string \<Rightarrow> plan" where
  "blank_plan raw = \<lparr>raw_plan = raw, plan_summary = plan_summary (projr (parsePlan demo_json raw)), total_cost = 0,
     startup_cost = 0, estimated_rows = 0, node_types = [''''], seq_scan_tables = []\<rparr>"

lemma demo_plan_of: "parsePlan demo_json raw = Inr (blank_plan raw)"
  "planExecutionStats demo_json raw = (real (length raw), 0, no_stats)"
proof -
  have doc: "unmarshal_docs demo_json raw = Inr [[(''Plan'', JObj []), (''Execution Time'', JNum (real (length raw)))]]"
    by (simp add: demo_json_def unmarshal_docs_def decode_object_def)
  show "parsePlan demo_json raw = Inr (blank_plan raw)"
    by (simp add: blank_plan_def parsePlan_def doc get_map_def floatField_def walkPlanNodes.simps walk_plan_list.simps
        get_string_def get_array_def Let_def)
  show "planExecutionStats demo_json raw = (real (length raw), 0, no_stats)"
    by (simp add: planExecutionStats_def doc get_map_def floatField_def no_stats_def trunc_int_def)
qed

definition fast_measured :: "string \<Rightarrow> measurement" where
  "fast_measured s =
     (let raw = replicate (if s = ''SELECT 1'' then 100 else 1) (CHR ''x'') in
      set_stats [real (length raw)] (store_run (blank_plan raw) 0 no_stats (new_measurement 1)))"

lemma fast_measured_fields:
  "m_plan (fast_measured s) = Some (blank_plan (replicate (if s = ''SELECT 1'' then 100 else 1) (CHR ''x'')))"
  "temp_written (fast_measured s) = 0" "actual_rows (fast_measured s) = 0" "\<not> timed_out (fast_measured s)"
  "median_ms (fast_measured s) = (if s = ''SELECT 1'' then 100 else 1)" "spread_ms (fast_measured s) = 0"
  by (simp_all add: fast_measured_def Let_def set_stats_def store_run_def no_stats_def new_measurement_def median_def)

lemma fast_Measure: "pg_Measure fast_pgx fast_timings demo_json s 1 False = (Inr (fast_measured s), False)"
  by (simp add: pg_Measure_def effective_runs_def fast_timings_def fast_readOnly demo_plan_of fast_measured_def
      analyze_sql_def)

definition fast_hash :: "bool \<Rightarrow> result_hash" where
  "fast_hash ord = \<lparr>hash = replicate 32 (CHR ''b''), row_count = 1, ordered = ord\<rparr>"

lemma fast_Checksum: "pg_Checksum fast_pgx tim s ord False = (Inr (fast_hash ord), False)"
  by (simp add: pg_Checksum_def pg_readOnly_def in_transaction_def fast_pgx_def fast_hash_def)

lemma fast_Introspect: "pg_Introspect fast_pgx tabs False = (Inr \<lparr>tables = []\<rparr>, False)"
  by (simp add: pg_Introspect_def fast_pgx_def)

lemma fast_accepts:
  assumes "ParseDialect demo_parsers ''SELECT 1'' DialectPostgres = Inr st1"
    and "ParseDialect demo_parsers ''SELECT 2'' DialectPostgres = Inr st2"
    and "SameShapeAs st1 st2 = None" and "st_sql st1 = ''SELECT 1''" "st_sql st2 = ''SELECT 2''"
    and "b_statement base = st1" "b_measured base = fast_measured ''SELECT 1''"
    and "b_checksum base = fast_hash (b_ordered base)" and "c_sql c = ''SELECT 2''"
  shows "r_verdict (fst (Verify demo_parsers (postgres_engine fast_pgx fast_timings demo_json) (run_verifier fast_optimizer)
    base c False)) = VerdictAccepted"
proof -
  have norm: "normalizeSQL ''SELECT 1'' \<noteq> normalizeSQL ''SELECT 2''" by code_simp
  have v: "v_min_improvement (run_verifier fast_optimizer) = 10" "v_runs (run_verifier fast_optimizer) = 1"
    "v_dialect (run_verifier fast_optimizer) = DialectPostgres"
    by (simp_all add: run_verifier_def fast_optimizer_def DefaultOptions_def)

  have "accepting_run demo_parsers (postgres_engine fast_pgx fast_timings demo_json) (run_verifier fast_optimizer)
      base c False st2 (fast_hash (b_ordered base)) False (fast_measured ''SELECT 2'') False"
    using assms norm by (simp add: accepting_run_def v postgres_engine_def fast_Checksum fast_Measure real_improvement_def
        fast_measured_fields improvementPct_def)
  then show ?thesis by (simp add: accepting_run_accepted judge_timing_accepted) (simp add: accepting_run_def)
qed

lemma fast_no_rule:
  assumes "ParseDialect demo_parsers ''SELECT 1'' DialectPostgres = Inr st"
  shows "rule_candidates (Analyze st (Some \<lparr>tables = []\<rparr>) (Some (fast_measured ''SELECT 1''))) = []"
proof -
  have "Parse (pg_lib demo_parsers) ''SELECT 1'' = Inr st" using assms by (simp add: ParseDialect_def)
  then obtain sel where sel: "pg_parse (pg_lib demo_parsers) (trim_space ''SELECT 1'') = Inr [SelectNode sel]"
    and st: "st_dialect st = DialectPostgres" "st_tree st = Some [SelectNode sel]" "st_select_star st = hasSelectStar sel"
      "st_has_limit st = (limit_count sel \<noteq> None)"
    by (rule Parse_okE) blast
  have e: "sel = empty_select" using sel by (simp add: demo_parsers_def)
  have w: "walk_nodes (SelectNode empty_select) = [SelectNode empty_select]"
    unfolding walk_nodes_def by (subst walkMessage.simps) (simp add: empty_select_def opt_concat_def opt_list_def)
  let ?s = "Some \<lparr>tables = []\<rparr>" and ?a = "\<lparr>an_findings = [], an_predicates = [], an_limitations = []\<rparr>"
  have pred: "resolveTables (extractPredicates st) st ?s = []"
    by (simp add: extractPredicates_def WalkTree_fold st e w opt_concat_def resolveTables_def)
  have tree: "tree_rules st ?s ?a = ?a"
    by (simp add: tree_rules_def checkNotIn_def checkLeadingWildcard_def checkSargability_def WalkTree_fold st e w
        opt_concat_def)
  have stmt: "statement_rules st ?s ?a = ?a"
    by (simp add: statement_rules_def checkSelectStar_def checkLimitWithoutOrder_def st e)
      (simp add: empty_select_def hasSelectStar.simps)
  have plan: "plan_rules (Some (fast_measured ''SELECT 1'')) ?s ?a = ?a"
    by (simp add: plan_rules_def checkPlan_def fast_measured_fields check_estimate_def check_spill_def)
      (simp add: blank_plan_def)
  show ?thesis
    by (simp add: Analyze_eq start_analysis_def st(1) pred tree stmt plan checkMissingIndexes_def rule_candidates_def)
qed

lemma fast_run:
  "\<exists>rep r. Run fast_optimizer ''SELECT 1'' False = (Inr rep, False) \<and> r \<in> set (rp_candidates rep) \<and>
     r_verdict r = VerdictAccepted \<and> c_sql (r_candidate r) = ''SELECT 2''"
proof -
  let ?e = "postgres_engine fast_pgx fast_timings demo_json" and ?s = "\<lparr>tables = []\<rparr>"
  let ?c = "\<lparr>c_sql = ''SELECT 2'', c_source = ''llm'', c_rationale = ''less work''\<rparr>"
  obtain st1 st2 where p: "ParseDialect demo_parsers ''SELECT 1'' DialectPostgres = Inr st1"
      "ParseDialect demo_parsers ''SELECT 2'' DialectPostgres = Inr st2" "SameShapeAs st1 st2 = None"
      "st_sql st1 = ''SELECT 1''" "st_sql st2 = ''SELECT 2''"
    using demo_statements by blast
  define base where "base = \<lparr>b_statement = st1, b_plan = blank_plan ''x'', b_measured = fast_measured ''SELECT 1'',
      b_checksum = fast_hash (st_has_order_by st1), b_ordered = st_has_order_by st1\<rparr>"
  have ex: "pg_Explain fast_pgx fast_timings demo_json ''SELECT 1'' False = (Inr (blank_plan ''x''), False)"
    by (simp add: pg_Explain_def fast_readOnly demo_plan_of analyze_sql_def)
  have b: "EstablishBaseline ?e st1 1 False = (Inr base, False)"
    by (simp add: EstablishBaseline_def bind_io_def map_err_def postgres_engine_def p ex fast_Measure fast_Checksum
        fast_measured_fields base_def)
  let ?a = "Analyze st1 (Some ?s) (Some (b_measured base))"
  have pln: "m_plan (b_measured base) \<noteq> None"
    by (simp add: base_def fast_measured_fields)
  have a: "rule_candidates ?a = []" using fast_no_rule [OF p(1)] by (simp add: base_def)
  have t: "trim_space ''SELECT 2'' = ''SELECT 2''" by code_simp
  obtain pp where g: "gather_candidates fast_optimizer st1 ?s base ?a False = (Inr pp, False)"
    and pp: "pp_candidates pp = [?c]"
    using pln a t by (auto simp: gather_candidates_def fast_optimizer_def DefaultOptions_def Enabled_def new_client_def
        propose_def Generate_def before_attempt_def attempt_once_def answer_text_def)
  have norm: "normalizeSQL ''SELECT 2'' \<noteq> normalizeSQL ''SELECT 1''" by code_simp
  obtain r w1 where r: "Verify demo_parsers ?e (run_verifier fast_optimizer) base ?c False = (r, w1)" by fastforce
  have acc: "r_verdict r = VerdictAccepted"
    using fast_accepts [OF p, of base ?c] r by (simp add: base_def)
  have w1: "\<not> w1"
    using pg_safe.Verify_safe [of demo_parsers ?c "run_verifier fast_optimizer" "(fast_pgx, fast_timings, demo_json)"
        "\<lambda>_. ()" "\<lambda>w. w" base] r fast_contract
    by (simp add: harmless_def pg_engine_of_def) (metis snd_conv)
  have cand: "r_candidate r = ?c" using Verify_candidate [OF r] by simp
  have o: "op_engine fast_optimizer = ?e" "op_parsers fast_optimizer = demo_parsers"
    "op_dialect fast_optimizer = DialectPostgres" "\<not> o_test_indexes (op_opts fast_optimizer)"
    "o_runs (op_opts fast_optimizer) = 1"
    by (simp_all add: fast_optimizer_def DefaultOptions_def)
  obtain rep where "run_phases fast_optimizer (op_clock fast_optimizer False) st1 ?s base False = (Inr rep, False)"
    and "rp_candidates rep = [r]"
    using norm w1 by (auto simp: run_phases_def Let_def g pp o p r)
  then have "Run fast_optimizer ''SELECT 1'' False = (Inr rep, False) \<and> rp_candidates rep = [r]"
    using b by (simp add: Run_def o p postgres_engine_def fast_Introspect)
  then show ?thesis using acc cand by auto
qed

end
