(* ===== verification/Store.thy ===== *)
theory Store
  imports QF_Prelude
begin

text \<open>
  \<open>internal/store/store.go\<close> with \<open>internal/store/schema.sql\<close>: the job table and the history of
  measured runs.  Each method is one SQL statement (or two), read as a function on the rows; \<open>now\<close> is
  the database clock.  Identifiers are texts, the nil UUID is the empty one.
\<close>

section \<open>Rows\<close>

datatype job_status = StatusQueued | StatusRunning | StatusRetrying | StatusSucceeded | StatusFailed

definition status_text :: "job_status \<Rightarrow> string" where
  "status_text s =
     (case s of StatusQueued \<Rightarrow> ''queued'' | StatusRunning \<Rightarrow> ''running'' | StatusRetrying \<Rightarrow> ''retrying''
      | StatusSucceeded \<Rightarrow> ''succeeded'' | StatusFailed \<Rightarrow> ''failed'')"

record job =
  j_id :: string
  j_key :: string
  j_sql :: string
  j_fingerprint :: string
  j_status :: job_status
  j_attempts :: int
  j_max_attempts :: int
  j_last_error :: string
  j_report :: "string option"
  j_baseline_ms :: real
  j_best_ms :: real
  j_improvement :: real
  j_duration :: int
  j_created :: int
  j_updated :: int
  j_started :: "int option"
  j_finished :: "int option"

record run =
  run_job :: "string option"
  run_fingerprint :: string
  run_role :: string
  run_sql :: string
  run_median :: real
  run_min :: real
  run_max :: real
  run_cost :: real
  run_rows :: int
  run_count :: int

record store_db =
  db_jobs :: "job list"
  db_runs :: "(int \<times> run) list"  \<comment> \<open>with \<open>created_at\<close>, in order of insertion\<close>

definition empty_store :: store_db where
  "empty_store = \<lparr>db_jobs = [], db_runs = []\<rparr>"

definition err_not_found :: go_error where "err_not_found = GoError ''not found'' [ErrNotFound]"

definition err_already_claimed :: go_error where
  "err_already_claimed = GoError ''job already claimed'' [ErrAlreadyClaimed]"

lemma store_sentinels [simp]:
  "errors_is err_not_found s \<longleftrightarrow> s = ErrNotFound" "errors_is err_already_claimed s \<longleftrightarrow> s = ErrAlreadyClaimed"
  by (simp_all add: err_not_found_def err_already_claimed_def)

definition truncate_text :: "string \<Rightarrow> nat \<Rightarrow> string" where
  "truncate_text s n = (if length s \<le> n then s else take n s @ utf8_ellipsis)"

section \<open>Jobs\<close>

definition find_job :: "string \<Rightarrow> store_db \<Rightarrow> job option" where
  "find_job jid db = find (\<lambda>j. j_id j = jid) (db_jobs db)"

definition update_job :: "string \<Rightarrow> (job \<Rightarrow> job) \<Rightarrow> store_db \<Rightarrow> store_db" where
  "update_job jid f db = db\<lparr>db_jobs := map (\<lambda>j. if j_id j = jid then f j else j) (db_jobs db)\<rparr>"

text \<open>What the caller of \<open>CreateJob\<close> sets.\<close>

record new_job =
  nj_id :: string
  nj_key :: string
  nj_sql :: string
  nj_fingerprint :: string
  nj_max_attempts :: int

definition job_row :: "string \<Rightarrow> int \<Rightarrow> new_job \<Rightarrow> job" where
  "job_row new_id now j =
     \<lparr>j_id = (if nj_id j = '''' then new_id else nj_id j), j_key = nj_key j, j_sql = nj_sql j,
      j_fingerprint = nj_fingerprint j, j_status = StatusQueued, j_attempts = 0,
      j_max_attempts = (if nj_max_attempts j = 0 then 3 else nj_max_attempts j), j_last_error = '''',
      j_report = None, j_baseline_ms = 0, j_best_ms = 0, j_improvement = 0, j_duration = 0,
      j_created = now, j_updated = now, j_started = None, j_finished = None\<rparr>"

text \<open>\<open>new_id\<close> is what \<open>uuid.New\<close> returns; the flag of the result is \<open>created\<close>.\<close>

definition CreateJob :: "string \<Rightarrow> int \<Rightarrow> new_job \<Rightarrow> store_db \<Rightarrow> (job \<times> bool) result \<times> store_db" where
  "CreateJob new_id now j db =
     (let row = job_row new_id now j in
      case find (\<lambda>x. j_key x = nj_key j) (db_jobs db) of
        Some existing \<Rightarrow> (Inr (existing, False), db)
      | None \<Rightarrow>
          if find_job (j_id row) db \<noteq> None
          then (Inl (new_error ''duplicate key value violates unique constraint''), db)
          else (Inr (row, True), db\<lparr>db_jobs := db_jobs db @ [row]\<rparr>))"

text \<open>\<open>scanJob\<close> reads the one row of an answer, or the error of the driver.\<close>

definition scanJob :: "job option result \<Rightarrow> job result" where
  "scanJob row = (case row of Inl err \<Rightarrow> Inl err | Inr None \<Rightarrow> Inl err_not_found | Inr (Some j) \<Rightarrow> Inr j)"

lemma scanJob_simps [simp]: "scanJob (Inl err) = Inl err" "scanJob (Inr None) = Inl err_not_found" "scanJob (Inr (Some j)) = Inr j"
  by (simp_all add: scanJob_def)

definition JobByID :: "string \<Rightarrow> store_db \<Rightarrow> job result" where
  "JobByID jid db = scanJob (Inr (find_job jid db))"

definition claimable :: "job \<Rightarrow> bool" where
  "claimable j \<longleftrightarrow> j_status j = StatusQueued \<or> j_status j = StatusRetrying"

definition claimed :: "int \<Rightarrow> job \<Rightarrow> job" where
  "claimed now j =
     j\<lparr>j_status := StatusRunning, j_attempts := j_attempts j + 1, j_started := Some now, j_updated := now\<rparr>"

definition ClaimJob :: "int \<Rightarrow> string \<Rightarrow> store_db \<Rightarrow> job result \<times> store_db" where
  "ClaimJob now jid db =
     (case find_job jid db of
        None \<Rightarrow> (Inl err_not_found, db)
      | Some j \<Rightarrow>
          if claimable j then (Inr (claimed now j), update_job jid (claimed now) db)
          else (Inl err_already_claimed, db))"

definition completed :: "int \<Rightarrow> string \<Rightarrow> real \<Rightarrow> real \<Rightarrow> real \<Rightarrow> int \<Rightarrow> job \<Rightarrow> job" where
  "completed now raw baselineMS bestMS improvement duration j =
     j\<lparr>j_status := StatusSucceeded, j_report := Some raw, j_baseline_ms := baselineMS, j_best_ms := bestMS,
       j_improvement := improvement, j_duration := duration, j_last_error := '''', j_finished := Some now,
       j_updated := now\<rparr>"

text \<open>The report comes as the result of marshalling it.\<close>

definition CompleteJob ::
    "int \<Rightarrow> string \<Rightarrow> string result \<Rightarrow> real \<Rightarrow> real \<Rightarrow> real \<Rightarrow> int \<Rightarrow> store_db \<Rightarrow> unit result \<times> store_db" where
  "CompleteJob now jid report baselineMS bestMS improvement duration db =
     (case report of
        Inl err \<Rightarrow> (Inl err, db)
      | Inr raw \<Rightarrow> (Inr (), update_job jid (completed now raw baselineMS bestMS improvement duration) db))"

definition failed_status :: "job \<Rightarrow> job_status" where
  "failed_status j = (if j_attempts j < j_max_attempts j then StatusRetrying else StatusFailed)"

definition marked_failed :: "int \<Rightarrow> string \<Rightarrow> job \<Rightarrow> job" where
  "marked_failed now cause j =
     j\<lparr>j_status := failed_status j, j_last_error := truncate_text cause 4000,
       j_finished := (if j_attempts j < j_max_attempts j then None else Some now), j_updated := now\<rparr>"

definition MarkFailure :: "int \<Rightarrow> string \<Rightarrow> string \<Rightarrow> store_db \<Rightarrow> bool result \<times> store_db" where
  "MarkFailure now jid cause db =
     (case find_job jid db of
        None \<Rightarrow> (Inl err_not_found, db)
      | Some j \<Rightarrow> (Inr (failed_status j = StatusRetrying), update_job jid (marked_failed now cause) db))"

text \<open>
  The interval that is sent to the database is cut to whole seconds.
\<close>

definition whole_seconds :: "int \<Rightarrow> int" where
  "whole_seconds d = go_quot d second * second"

definition stale :: "int \<Rightarrow> int \<Rightarrow> job \<Rightarrow> bool" where
  "stale now olderThan j \<longleftrightarrow>
     j_status j = StatusRunning \<and>
     (case j_started j of Some t \<Rightarrow> t < now - whole_seconds olderThan | None \<Rightarrow> False)"

definition reclaimed :: "int \<Rightarrow> job \<Rightarrow> job" where
  "reclaimed now j =
     j\<lparr>j_status := failed_status j, j_last_error := ''worker lease expired'', j_updated := now\<rparr>"

definition ReclaimStale :: "int \<Rightarrow> int \<Rightarrow> store_db \<Rightarrow> int \<times> store_db" where
  "ReclaimStale now olderThan db =
     (int (length (filter (stale now olderThan) (db_jobs db))),
      db\<lparr>db_jobs := map (\<lambda>j. if stale now olderThan j then reclaimed now j else j) (db_jobs db)\<rparr>)"

definition list_limit :: "int \<Rightarrow> nat" where
  "list_limit limit = (if limit \<le> 0 \<or> limit > 200 then 50 else nat limit)"

definition ListJobs :: "string \<Rightarrow> int \<Rightarrow> store_db \<Rightarrow> job list" where
  "ListJobs status limit db =
     take (list_limit limit)
       (sort_key (\<lambda>j. - j_created j)
         (filter (\<lambda>j. status = '''' \<or> status_text (j_status j) = status) (db_jobs db)))"

section \<open>History\<close>

definition RecordRun :: "int \<Rightarrow> run \<Rightarrow> store_db \<Rightarrow> store_db" where
  "RecordRun now r db = db\<lparr>db_runs := db_runs db @ [(now, r)]\<rparr>"

record history =
  h_fingerprint :: string
  h_observations :: int
  h_best :: real
  h_worst :: real
  h_latest :: real
  h_first :: int
  h_last :: int

definition baseline_runs :: "string \<Rightarrow> store_db \<Rightarrow> (int \<times> run) list" where
  "baseline_runs fingerprint db =
     filter (\<lambda>(t, r). run_fingerprint r = fingerprint \<and> run_role r = ''baseline'') (db_runs db)"

definition HistoryFor :: "int \<Rightarrow> string \<Rightarrow> store_db \<Rightarrow> history" where
  "HistoryFor now fingerprint db =
     (let rs = baseline_runs fingerprint db; ms = map (\<lambda>(t, r). run_median r) rs; ts = map fst rs in
      \<lparr>h_fingerprint = fingerprint, h_observations = int (length rs),
       h_best = (if rs = [] then 0 else Min (set ms)), h_worst = (if rs = [] then 0 else Max (set ms)),
       h_latest = (case sort_key (\<lambda>(t, r). - t) rs of [] \<Rightarrow> 0 | (t, r) # _ \<Rightarrow> run_median r),
       h_first = (if rs = [] then now else Min (set ts)), h_last = (if rs = [] then now else Max (set ts))\<rparr>)"

section \<open>Well-formed tables\<close>

text \<open>The primary key, the unique key, and the attempt counters.\<close>

definition job_ok :: "job \<Rightarrow> bool" where
  "job_ok j \<longleftrightarrow> 1 \<le> j_max_attempts j \<and> 0 \<le> j_attempts j \<and> j_attempts j \<le> j_max_attempts j \<and>
     (claimable j \<longrightarrow> j_attempts j < j_max_attempts j)"

definition store_ok :: "store_db \<Rightarrow> bool" where
  "store_ok db \<longleftrightarrow> distinct (map j_id (db_jobs db)) \<and> distinct (map j_key (db_jobs db)) \<and>
     list_all job_ok (db_jobs db)"

lemma store_ok_empty: "store_ok empty_store"
  by (simp add: store_ok_def empty_store_def)

lemma find_job_Some: "find_job jid db = Some j \<Longrightarrow> j \<in> set (db_jobs db) \<and> j_id j = jid"
  by (auto simp: find_job_def find_Some_iff)

lemma find_job_None: "find_job jid db = None \<longleftrightarrow> jid \<notin> j_id ` set (db_jobs db)"
  by (auto simp: find_job_def find_None_iff)

lemma find_map_same:
  "(\<And>x. P (f x) = P x) \<Longrightarrow> find P (map f xs) = map_option f (find P xs)"
  by (induction xs) auto

lemma find_job_map:
  "(\<And>j. j_id (f j) = j_id j) \<Longrightarrow> find_job jid (db\<lparr>db_jobs := map f (db_jobs db)\<rparr>) = map_option f (find_job jid db)"
  by (simp add: find_job_def find_map_same)

lemma find_job_update:
  "(\<And>j. j_id (f j) = j_id j) \<Longrightarrow>
   find_job jid (update_job jid' f db) = (if jid = jid' then map_option f (find_job jid db) else find_job jid db)"
proof -
  assume f: "\<And>j. j_id (f j) = j_id j"
  have "find_job jid (update_job jid' f db) = map_option (\<lambda>j. if j_id j = jid' then f j else j) (find_job jid db)"
    unfolding update_job_def by (rule find_job_map) (simp add: f)
  then show ?thesis by (cases "find_job jid db") (auto dest: find_job_Some)
qed

lemma store_ok_map:
  assumes "store_ok db" and "\<And>j. j_id (f j) = j_id j" and "\<And>j. j_key (f j) = j_key j"
    and "\<And>j. j \<in> set (db_jobs db) \<Longrightarrow> job_ok j \<Longrightarrow> job_ok (f j)"
  shows "store_ok (db\<lparr>db_jobs := map f (db_jobs db)\<rparr>)"
  using assms by (auto simp: store_ok_def comp_def list_all_iff)

lemma row_updates [simp]:
  "j_id (claimed now j) = j_id j" "j_key (claimed now j) = j_key j"
  "j_id (completed now raw a b c d j) = j_id j" "j_key (completed now raw a b c d j) = j_key j"
  "j_id (marked_failed now e j) = j_id j" "j_key (marked_failed now e j) = j_key j"
  "j_id (reclaimed now j) = j_id j" "j_key (reclaimed now j) = j_key j"
  by (simp_all add: claimed_def completed_def marked_failed_def reclaimed_def)

lemma row_updates_ok:
  "claimable j \<Longrightarrow> job_ok j \<Longrightarrow> job_ok (claimed now j)"
  "job_ok j \<Longrightarrow> job_ok (completed now raw a b c d j)"
  "job_ok j \<Longrightarrow> job_ok (marked_failed now e j)"
  "job_ok j \<Longrightarrow> job_ok (reclaimed now j)"
  by (auto simp: job_ok_def claimable_def claimed_def completed_def marked_failed_def reclaimed_def failed_status_def)

lemma ClaimJob_ok: "store_ok db \<Longrightarrow> ClaimJob now jid db = (r, db') \<Longrightarrow> store_ok db'"
proof -
  assume ok: "store_ok db" and c: "ClaimJob now jid db = (r, db')"
  show ?thesis
  proof (cases "\<exists>j. find_job jid db = Some j \<and> claimable j")
    case True
    then obtain j where j: "find_job jid db = Some j" "claimable j" by blast
    have one: "x = j" if "x \<in> set (db_jobs db)" "j_id x = jid" for x
      using ok find_job_Some [OF j(1)] that by (auto simp: store_ok_def distinct_map dest: inj_onD)
    have "store_ok (update_job jid (claimed now) db)"
      unfolding update_job_def by (rule store_ok_map [OF ok]) (use one j in \<open>auto intro: row_updates_ok\<close>)
    then show ?thesis using c j by (simp add: ClaimJob_def)
  next
    case False
    then show ?thesis using ok c by (auto simp: ClaimJob_def split: option.splits if_splits)
  qed
qed

lemma update_job_ok:
  assumes "store_ok db" and "\<And>j. j_id (f j) = j_id j" and "\<And>j. j_key (f j) = j_key j" and "\<And>j. job_ok j \<Longrightarrow> job_ok (f j)"
  shows "store_ok (update_job jid f db)"
  unfolding update_job_def by (rule store_ok_map [OF assms(1)]) (simp_all add: assms)

lemma CompleteJob_ok: "store_ok db \<Longrightarrow> CompleteJob now jid rep a b c d db = (r, db') \<Longrightarrow> store_ok db'"
  by (auto simp: CompleteJob_def row_updates_ok split: sum.splits intro!: update_job_ok)

lemma MarkFailure_ok: "store_ok db \<Longrightarrow> MarkFailure now jid cause db = (r, db') \<Longrightarrow> store_ok db'"
  by (auto simp: MarkFailure_def row_updates_ok split: option.splits intro!: update_job_ok)

lemma ReclaimStale_ok: "store_ok db \<Longrightarrow> ReclaimStale now t db = (n, db') \<Longrightarrow> store_ok db'"
  by (auto simp: ReclaimStale_def row_updates_ok intro!: store_ok_map)

lemma CreateJob_ok:
  assumes "store_ok db" and "0 \<le> nj_max_attempts j" and "CreateJob new_id now j db = (r, db')"
  shows "store_ok db'"
proof (cases "find (\<lambda>x. j_key x = nj_key j) (db_jobs db) = None \<and> find_job (j_id (job_row new_id now j)) db = None")
  case True
  then have "nj_key j \<notin> j_key ` set (db_jobs db)" "j_id (job_row new_id now j) \<notin> j_id ` set (db_jobs db)"
    by (auto simp: find_None_iff find_job_None)
  moreover have "job_ok (job_row new_id now j)" "j_key (job_row new_id now j) = nj_key j"
    using assms(2) by (simp_all add: job_ok_def job_row_def)
  ultimately show ?thesis using assms(1,3) True by (auto simp: CreateJob_def Let_def store_ok_def)
next
  case False
  then show ?thesis using assms(1,3) by (auto simp: CreateJob_def Let_def split: option.splits if_splits)
qed

end
