(* ===== verification/Queue.thy ===== *)
theory Queue
  imports QF_Prelude Db_Effects
begin

text \<open>
  \<open>internal/queue/queue.go\<close>: the messages, the ladder of retry topics, publishing and fetching.  The
  broker is Kafka: a topic is the log of the values that were written to it, a reader has the position
  of its next fetch and the offset that is committed for its group.  A topic is taken to have one
  partition.  JSON encoding of a request is the parameter \<open>codec\<close>.
\<close>

section \<open>Requests and topics\<close>

record optimize_request =
  q_job :: string
  q_sql :: string
  q_attempt :: int
  q_not_before :: int
  q_last_error :: string
  q_enqueued :: int

text \<open>\<open>time.Time{}\<close>, the first instant of the year 1.\<close>

definition zero_time :: int where "zero_time = - 62135596800 * second"

definition RetryTiers :: "int list" where
  "RetryTiers = [15 * second, 120 * second]"

text \<open>The topic and the delay of an attempt; \<open>None\<close> is the result whose flag is false.\<close>

definition RetryTopic :: "string \<Rightarrow> int \<Rightarrow> (string \<times> int) option" where
  "RetryTopic base attempt =
     (if attempt < 1 \<or> attempt > int (length RetryTiers) then None
      else let d = RetryTiers ! nat (attempt - 1) in
        Some (base @ ''.retry.'' @ show_int (go_quot d second) @ ''s'', d))"

definition topic_of :: "(string \<times> int) option \<Rightarrow> string" where
  "topic_of r = (case r of Some (t, d) \<Rightarrow> t | None \<Rightarrow> '''')"

definition AllTopics :: "string \<Rightarrow> string \<Rightarrow> string list" where
  "AllTopics base dlq =
     [base, dlq] @ map (\<lambda>i. topic_of (RetryTopic base (int i + 1))) [0..<length RetryTiers]"

section \<open>The broker\<close>

type_synonym broker = "string \<Rightarrow> string list"

record codec =
  encode_request :: "optimize_request \<Rightarrow> string result"
  decode_request :: "string \<Rightarrow> optimize_request result"

definition Publish :: "codec \<Rightarrow> string \<Rightarrow> optimize_request \<Rightarrow> broker \<Rightarrow> unit result \<times> broker" where
  "Publish cd topic req b =
     (case encode_request cd req of
        Inl err \<Rightarrow> (Inl err, b)
      | Inr body \<Rightarrow> (Inr (), b(topic := b topic @ [body])))"

record consumer =
  cn_topic :: string
  cn_position :: nat
  cn_committed :: nat

definition NewConsumer :: "string \<Rightarrow> nat \<Rightarrow> consumer" where
  "NewConsumer topic committed = \<lparr>cn_topic = topic, cn_position = committed, cn_committed = committed\<rparr>"

text \<open>Committing the message at an offset moves the committed offset behind it.\<close>

definition Commit :: "nat \<Rightarrow> consumer \<Rightarrow> consumer" where
  "Commit offset c = c\<lparr>cn_committed := Suc offset\<rparr>"

text \<open>
  \<open>Fetch\<close>: \<open>None\<close> while there is no message.  The position moves on whether the message decodes or
  not; one that does not is committed and reported.
\<close>

definition undecodable :: "nat \<Rightarrow> go_error \<Rightarrow> go_error" where
  "undecodable offset err =
     wrap_error (''undecodable message at offset '' @ show_nat offset @ '' (committed to avoid a poison loop): '') err ''''"

definition Fetch :: "codec \<Rightarrow> broker \<Rightarrow> consumer \<Rightarrow> ((nat \<times> optimize_request) result \<times> consumer) option" where
  "Fetch cd b c =
     (let i = cn_position c; c1 = c\<lparr>cn_position := Suc i\<rparr> in
      if i \<ge> length (b (cn_topic c)) then None
      else case decode_request cd (b (cn_topic c) ! i) of
          Inl err \<Rightarrow> Some (Inl (undecodable i err), Commit i c1)
        | Inr req \<Rightarrow> Some (Inr (i, req), c1))"

section \<open>Facts\<close>

lemma RetryTiers_length [simp]: "length RetryTiers = 2"
  by (simp add: RetryTiers_def)

lemma RetryTopic_Some: "(\<exists>t d. RetryTopic base n = Some (t, d)) \<longleftrightarrow> n = 1 \<or> n = 2"
  by (auto simp: RetryTopic_def Let_def)

lemma tier_seconds:
  "show_int (go_quot (15 * second) second) = ''15''" "show_int (go_quot (120 * second) second) = ''120''"
  by code_simp+

lemma RetryTopic_texts:
  "RetryTopic base 1 = Some (base @ ''.retry.15s'', 15 * second)"
  "RetryTopic base 2 = Some (base @ ''.retry.120s'', 120 * second)"
  by (simp_all add: RetryTopic_def RetryTiers_def tier_seconds)

lemma RetryTopic_None [simp]: "n < 1 \<or> 2 < n \<Longrightarrow> RetryTopic base n = None"
  by (auto simp: RetryTopic_def)

lemma AllTopics_texts: "AllTopics base dlq = [base, dlq, base @ ''.retry.15s'', base @ ''.retry.120s'']"
  by (simp add: AllTopics_def topic_of_def upt_rec RetryTopic_texts)

lemma AllTopics_published: "RetryTopic base n = Some (t, d) \<Longrightarrow> t \<in> set (AllTopics base dlq)"
  using RetryTopic_Some [of base n] by (auto simp: AllTopics_texts RetryTopic_texts)

lemma RetryTopic_fresh: "RetryTopic base n = Some (t, d) \<Longrightarrow> t \<noteq> base"
  using RetryTopic_Some [of base n] by (auto simp: RetryTopic_texts)

lemma Fetch_position:
  "Fetch cd b c = Some (r, c1) \<Longrightarrow> cn_position c1 = Suc (cn_position c) \<and> cn_topic c1 = cn_topic c"
  by (auto simp: Fetch_def Commit_def Let_def split: if_splits sum.splits)

text \<open>What was published is what is fetched, when the encoding can be decoded.\<close>

lemma Fetch_Publish:
  assumes "encode_request cd req = Inr body" and "decode_request cd body = Inr req"
    and "Publish cd topic req b = (Inr (), b1)" and "cn_topic c = topic" and "cn_position c = length (b topic)"
  shows "Fetch cd b1 c = Some (Inr (cn_position c, req), c\<lparr>cn_position := Suc (cn_position c)\<rparr>)"
  using assms by (auto simp: Publish_def Fetch_def Let_def)

end
