(* ===== verification/Host.thy ===== *)
theory Host
  imports Store Queue
begin

text \<open>
  What the API and the worker act on: the rest of the world (with the clock), the job table and the
  broker.  Every call of the table or of the broker can fail, before its effect or after it;
  \<open>h_faults\<close> says what happens to the calls to come, and past its end they go through.
\<close>

section \<open>Remote calls\<close>

datatype outcome = Done | Lost | Unacked

record 'w host =
  h_world :: 'w
  h_store :: store_db
  h_broker :: broker
  h_faults :: "outcome list"

definition connection_lost :: go_error where
  "connection_lost = new_error ''connection lost''"

definition remote :: "outcome \<Rightarrow> ('s \<Rightarrow> 'a result \<times> 's) \<Rightarrow> 's \<Rightarrow> 'a result \<times> 's" where
  "remote x f s =
     (case x of Done \<Rightarrow> f s | Lost \<Rightarrow> (Inl connection_lost, s) | Unacked \<Rightarrow> (Inl connection_lost, snd (f s)))"

definition next_outcome :: "'w host \<Rightarrow> outcome" where
  "next_outcome h = (case h_faults h of [] \<Rightarrow> Done | x # xs \<Rightarrow> x)"

definition store_op :: "(store_db \<Rightarrow> 'a result \<times> store_db) \<Rightarrow> 'w host \<Rightarrow> 'a result \<times> 'w host" where
  "store_op f h =
     (case remote (next_outcome h) f (h_store h) of
        (r, db) \<Rightarrow> (r, h\<lparr>h_store := db, h_faults := tl (h_faults h)\<rparr>))"

definition send_op :: "codec \<Rightarrow> string \<Rightarrow> optimize_request \<Rightarrow> 'w host \<Rightarrow> unit result \<times> 'w host" where
  "send_op cd topic req h =
     (case remote (next_outcome h) (Publish cd topic req) (h_broker h) of
        (r, b) \<Rightarrow> (r, h\<lparr>h_broker := b, h_faults := tl (h_faults h)\<rparr>))"

section \<open>Facts\<close>

lemma remote_cases: "snd (remote x f s) = s \<or> snd (remote x f s) = snd (f s)"
  by (cases x) (simp_all add: remote_def)

lemma store_op_frame:
  assumes "store_op f h = (r, h1)"
  shows "h_world h1 = h_world h" and "h_broker h1 = h_broker h"
    and "h_store h1 = h_store h \<or> h_store h1 = snd (f (h_store h))"
    and "r = Inr x \<Longrightarrow> f (h_store h) = (Inr x, h_store h1)"
  using assms remote_cases [of "next_outcome h" f "h_store h"]
  by (auto simp: store_op_def remote_def split: prod.splits outcome.splits)

lemma send_op_frame:
  assumes "send_op cd topic req h = (r, h1)"
  shows "h_world h1 = h_world h" and "h_store h1 = h_store h"
    and "h_broker h1 = h_broker h \<or> h_broker h1 = snd (Publish cd topic req (h_broker h))"
    and "r = Inr () \<Longrightarrow> Publish cd topic req (h_broker h) = (Inr (), h_broker h1)"
  using assms remote_cases [of "next_outcome h" "Publish cd topic req" "h_broker h"]
  by (auto simp: send_op_def remote_def split: prod.splits outcome.splits)

lemma no_faults [simp]: "h_faults h = [] \<Longrightarrow> next_outcome h = Done"
  by (simp add: next_outcome_def)

lemma remote_Done [simp]: "remote Done f s = f s"
  by (simp add: remote_def)

lemma store_op_Done:
  "h_faults h = [] \<Longrightarrow> store_op f h = (fst (f (h_store h)), h\<lparr>h_store := snd (f (h_store h))\<rparr>)"
  by (simp add: store_op_def split: prod.split)

lemma send_op_Done:
  "h_faults h = [] \<Longrightarrow> encode_request cd req = Inr body \<Longrightarrow>
   send_op cd topic req h = (Inr (), h\<lparr>h_broker := (h_broker h)(topic := h_broker h topic @ [body])\<rparr>)"
  by (simp add: send_op_def Publish_def)

end
