(* ===== verification/Worker.thy ===== *)
theory Worker
  imports Optimizer Host Config
begin

text \<open>
  \<open>cmd/worker/main.go\<close>: the consumers of the job topic and of the retry topics, the handling of one
  message, and the loop that reclaims jobs.  A worker acts on its \<open>host\<close>: the target world of its
  optimizer (which holds the clock), the job table and the broker.  Logging is left out; starting is in
  \<open>Processes\<close>.
\<close>

section \<open>The worker\<close>

text \<open>
  \<open>wk_marshal\<close> is \<open>json.Marshal\<close> of a report and \<open>wk_sleep\<close> is waiting for a duration.
\<close>

record 'w worker =
  wk_cfg :: config
  wk_opt :: "'w optimizer"
  wk_codec :: codec
  wk_marshal :: "report \<Rightarrow> string result"
  wk_sleep :: "int \<Rightarrow> 'w \<Rightarrow> 'w"

definition now_of :: "'w worker \<Rightarrow> 'w host \<Rightarrow> int" where
  "now_of wk h = op_clock (wk_opt wk) (h_world h)"

definition sleep_for :: "'w worker \<Rightarrow> int \<Rightarrow> 'w host \<Rightarrow> 'w host" where
  "sleep_for wk d h = h\<lparr>h_world := wk_sleep wk d (h_world h)\<rparr>"

definition publish_op :: "'w worker \<Rightarrow> string \<Rightarrow> optimize_request \<Rightarrow> 'w host \<Rightarrow> unit result \<times> 'w host" where
  "publish_op wk = send_op (wk_codec wk)"

definition commit_op :: "nat \<Rightarrow> consumer \<Rightarrow> 'w host \<Rightarrow> consumer \<times> 'w host" where
  "commit_op offset c h =
     (if next_outcome h = Lost then c else Commit offset c, h\<lparr>h_faults := tl (h_faults h)\<rparr>)"

section \<open>One message\<close>

definition baseline_run :: "'w worker \<Rightarrow> job \<Rightarrow> report \<Rightarrow> run" where
  "baseline_run wk job rep =
     \<lparr>run_job = Some (j_id job), run_fingerprint = j_fingerprint job, run_role = ''baseline'', run_sql = j_sql job,
      run_median = br_median (rp_baseline rep), run_min = br_min (rp_baseline rep), run_max = br_max (rp_baseline rep),
      run_cost = br_cost (rp_baseline rep), run_rows = br_row_count (rp_baseline rep),
      run_count = MeasurementRuns (wk_cfg wk)\<rparr>"

definition candidate_fingerprint :: "'w worker \<Rightarrow> string \<Rightarrow> string" where
  "candidate_fingerprint wk sql =
     (case ParseDialect (op_parsers (wk_opt wk)) sql (op_dialect (wk_opt wk)) of
        Inr st \<Rightarrow> st_fingerprint st | Inl err \<Rightarrow> '''')"

definition candidate_run :: "'w worker \<Rightarrow> job \<Rightarrow> vresult \<Rightarrow> run" where
  "candidate_run wk job r =
     \<lparr>run_job = Some (j_id job), run_fingerprint = candidate_fingerprint wk (c_sql (r_candidate r)),
      run_role = ''candidate'', run_sql = c_sql (r_candidate r), run_median = r_candidate_ms r, run_min = 0,
      run_max = 0, run_cost = r_candidate_cost r, run_rows = r_row_count r,
      run_count = MeasurementRuns (wk_cfg wk)\<rparr>"

definition runs_to_record :: "'w worker \<Rightarrow> job \<Rightarrow> report \<Rightarrow> run list" where
  "runs_to_record wk job rep =
     baseline_run wk job rep #
     map (candidate_run wk job) (filter (\<lambda>r. r_verdict r = VerdictAccepted) (rp_candidates rep))"

text \<open>The result of \<open>RecordRun\<close> is dropped.\<close>

definition record_op :: "'w worker \<Rightarrow> run \<Rightarrow> 'w host \<Rightarrow> 'w host" where
  "record_op wk r h = snd (store_op (\<lambda>db. (Inr (), RecordRun (now_of wk h) r db)) h)"

definition recordRuns :: "'w worker \<Rightarrow> job \<Rightarrow> report \<Rightarrow> 'w host \<Rightarrow> 'w host" where
  "recordRuns wk job rep h = fold (record_op wk) (runs_to_record wk job rep) h"

definition dead_letter :: "'w worker \<Rightarrow> optimize_request \<Rightarrow> 'w host \<Rightarrow> 'w host" where
  "dead_letter wk nxt h = snd (publish_op wk (DLQTopic (wk_cfg wk)) (nxt\<lparr>q_not_before := zero_time\<rparr>) h)"

definition scheduleRetry :: "'w worker \<Rightarrow> job \<Rightarrow> optimize_request \<Rightarrow> string \<Rightarrow> 'w host \<Rightarrow> 'w host" where
  "scheduleRetry wk job req cause h =
     (case store_op (MarkFailure (now_of wk h) (j_id job) cause) h of
        (r, h1) \<Rightarrow>
          let willRetry = (case r of Inr b \<Rightarrow> b | Inl err \<Rightarrow> False);
              nxt = req\<lparr>q_attempt := j_attempts job + 1, q_last_error := cause\<rparr>
          in case (if willRetry then RetryTopic (JobTopic (wk_cfg wk)) (j_attempts job) else None) of
               None \<Rightarrow> dead_letter wk nxt h1
             | Some (topic, delay) \<Rightarrow>
                 case publish_op wk topic (nxt\<lparr>q_not_before := now_of wk h1 + delay\<rparr>) h1 of
                   (Inr _, h2) \<Rightarrow> h2
                 | (Inl err, h2) \<Rightarrow> dead_letter wk nxt h2)"

definition best_ms_of :: "report \<Rightarrow> real" where
  "best_ms_of rep = (case rp_best rep of Some b \<Rightarrow> r_candidate_ms b | None \<Rightarrow> br_median (rp_baseline rep))"

definition improvement_of :: "report \<Rightarrow> real" where
  "improvement_of rep = (case rp_best rep of Some b \<Rightarrow> r_improvement b | None \<Rightarrow> 0)"

definition complete_op :: "'w worker \<Rightarrow> job \<Rightarrow> int \<Rightarrow> report \<Rightarrow> 'w host \<Rightarrow> 'w host" where
  "complete_op wk job start rep h =
     snd (store_op (CompleteJob (now_of wk h) (j_id job) (wk_marshal wk rep) (br_median (rp_baseline rep))
       (best_ms_of rep) (improvement_of rep) (milliseconds (now_of wk h - start))) h)"

text \<open>A message whose job cannot be claimed, for whatever reason, is dropped.\<close>

definition handle :: "'w worker \<Rightarrow> optimize_request \<Rightarrow> 'w host \<Rightarrow> 'w host" where
  "handle wk req h =
     (case store_op (ClaimJob (now_of wk h) (q_job req)) h of
        (Inl err, h1) \<Rightarrow> h1
      | (Inr job, h1) \<Rightarrow>
          case Run (wk_opt wk) (j_sql job) (h_world h1) of
            (Inl err, w) \<Rightarrow> scheduleRetry wk job req (err_text err) (h1\<lparr>h_world := w\<rparr>)
          | (Inr rep, w) \<Rightarrow>
              complete_op wk job (now_of wk h1) rep (recordRuns wk job rep (h1\<lparr>h_world := w\<rparr>)))"

section \<open>The loops\<close>

text \<open>One turn of each loop; a turn without a message waits.\<close>

definition consumeMain_step :: "'w worker \<Rightarrow> consumer \<Rightarrow> 'w host \<Rightarrow> consumer \<times> 'w host" where
  "consumeMain_step wk c h =
     (case Fetch (wk_codec wk) (h_broker h) c of
        None \<Rightarrow> (c, h)
      | Some (Inl err, c1) \<Rightarrow> (c1, sleep_for wk second h)
      | Some (Inr (offset, req), c1) \<Rightarrow> commit_op offset c1 (handle wk req h))"

definition wait_until :: "'w worker \<Rightarrow> int \<Rightarrow> 'w host \<Rightarrow> 'w host" where
  "wait_until wk t h = (if t - now_of wk h > 0 then sleep_for wk (t - now_of wk h) h else h)"

definition consumeRetry_step :: "'w worker \<Rightarrow> consumer \<Rightarrow> 'w host \<Rightarrow> consumer \<times> 'w host" where
  "consumeRetry_step wk c h =
     (case Fetch (wk_codec wk) (h_broker h) c of
        None \<Rightarrow> (c, h)
      | Some (Inl err, c1) \<Rightarrow> (c1, sleep_for wk second h)
      | Some (Inr (offset, req), c1) \<Rightarrow>
          case publish_op wk (JobTopic (wk_cfg wk)) (req\<lparr>q_not_before := zero_time\<rparr>)
              (wait_until wk (q_not_before req) h) of
            (Inl err, h1) \<Rightarrow> (c1, h1)
          | (Inr _, h1) \<Rightarrow> commit_op offset c1 h1)"

text \<open>The lease of a claim, twice the timeout, as a \<open>time.Duration\<close>: the product wraps at 64 bits.\<close>

definition lease_time :: "config \<Rightarrow> int" where
  "lease_time cfg = wrap64 (2 * JobTimeout cfg)"

definition reclaim_step :: "'w worker \<Rightarrow> 'w host \<Rightarrow> 'w host" where
  "reclaim_step wk h =
     snd (store_op (\<lambda>db. case ReclaimStale (now_of wk h) (lease_time (wk_cfg wk)) db of (n, db1) \<Rightarrow> (Inr n, db1)) h)"

section \<open>Starting\<close>

definition worker_timings :: "config \<Rightarrow> timings" where
  "worker_timings cfg =
     \<lparr>statement_timeout = QueryTimeout cfg, t_runs = MeasurementRuns cfg, warmup_runs = WarmupRuns cfg\<rparr>"

text \<open>The options of the worker's optimizer; \<open>threshold\<close> is \<open>MinImprovementPct\<close> as a number.\<close>

definition worker_options :: "config \<Rightarrow> real \<Rightarrow> llm_client option \<Rightarrow> options" where
  "worker_options cfg threshold model =
     \<lparr>o_max_candidates = MaxCandidates cfg, o_min_improvement = threshold, o_runs = MeasurementRuns cfg,
      o_test_indexes = TestIndexes cfg, o_max_index_tests = MaxIndexTests cfg, o_skip_llm = \<not> Enabled model\<rparr>"

text \<open>The consumers that \<open>main\<close> starts besides those of the job topic: one for each retry topic.\<close>

definition retry_consumers :: "config \<Rightarrow> (string \<times> int) list" where
  "retry_consumers cfg =
     map (\<lambda>i. case RetryTopic (JobTopic cfg) (int i + 1) of Some td \<Rightarrow> td | None \<Rightarrow> ('''', 0)) [0..<length RetryTiers]"

end
