(* ===== verification/Store_Facts.thy ===== *)
theory Store_Facts
  imports Store
begin

text \<open>
  What the job table promises its clients: a claim is exclusive until the holder gives the job up or
  its lease runs out, and a job is never run more often than it may be, whatever statements other
  processes interleave.  The promises are a locale, \<open>lease_table\<close>; the model of \<open>store.go\<close> is an
  interpretation of it.
\<close>

section \<open>The interface\<close>

text \<open>
  \<open>exec\<close> runs one statement of any client, \<open>frees t jid e\<close> says that the statement \<open>e\<close> may end a claim
  of \<open>jid\<close> made at \<open>t\<close>, \<open>wins jid e s\<close> that it is a successful claim of \<open>jid\<close>.
\<close>

definition held :: "int \<Rightarrow> job option \<Rightarrow> bool" where
  "held t row = (case row of
      None \<Rightarrow> False
    | Some j \<Rightarrow> j_status j = StatusSucceeded \<or> j_status j = StatusRunning \<and> j_started j = Some t)"

locale lease_table =
  fixes ok :: "'s \<Rightarrow> bool"
    and lookup :: "string \<Rightarrow> 's \<Rightarrow> job option"
    and claim :: "int \<Rightarrow> string \<Rightarrow> 's \<Rightarrow> job result \<times> 's"
    and legal :: "'e \<Rightarrow> bool"
    and exec :: "'e \<Rightarrow> 's \<Rightarrow> 's"
    and frees :: "int \<Rightarrow> string \<Rightarrow> 'e \<Rightarrow> bool"
    and wins :: "string \<Rightarrow> 'e \<Rightarrow> 's \<Rightarrow> bool"
  assumes exec_ok: "ok s \<Longrightarrow> legal e \<Longrightarrow> ok (exec e s)"
    and exec_keeps: "held t (lookup jid s) \<Longrightarrow> \<not> frees t jid e \<Longrightarrow> held t (lookup jid (exec e s))"
    and exec_row: "lookup jid s = Some j \<Longrightarrow>
      \<exists>j'. lookup jid (exec e s) = Some j' \<and> j_max_attempts j' = j_max_attempts j \<and>
        j_attempts j' = j_attempts j + of_bool (wins jid e s)"
    and claim_holds: "claim now jid s = (Inr j, s') \<Longrightarrow> lookup jid s' = Some j \<and> held now (lookup jid s')"
    and claim_excludes: "held t (lookup jid s) \<Longrightarrow> claim now jid s = (Inl err_already_claimed, s)"
    and attempts_bound: "ok s \<Longrightarrow> lookup jid s = Some j \<Longrightarrow> j_attempts j \<le> j_max_attempts j"
begin

fun execs :: "'e list \<Rightarrow> 's \<Rightarrow> 's" where
  "execs [] s = s"
| "execs (e # es) s = execs es (exec e s)"

fun won :: "string \<Rightarrow> 'e list \<Rightarrow> 's \<Rightarrow> nat" where
  "won jid [] s = 0"
| "won jid (e # es) s = of_bool (wins jid e s) + won jid es (exec e s)"

lemma execs_ok: "ok s \<Longrightarrow> list_all legal es \<Longrightarrow> ok (execs es s)"
  by (induction es arbitrary: s) (auto intro: exec_ok)

lemma execs_keep:
  "held t (lookup jid s) \<Longrightarrow> list_all (\<lambda>e. \<not> frees t jid e) es \<Longrightarrow> held t (lookup jid (execs es s))"
  by (induction es arbitrary: s) (auto intro: exec_keeps)

text \<open>After a successful claim no other claim succeeds while nothing frees the job.\<close>

lemma claim_exclusive:
  assumes "claim now jid s = (Inr j, s1)" and "list_all (\<lambda>e. \<not> frees now jid e) es"
  shows "claim now' jid (execs es s1) = (Inl err_already_claimed, execs es s1)"
  using execs_keep [OF _ assms(2)] claim_holds [OF assms(1)] by (intro claim_excludes) blast

lemma won_counts:
  "lookup jid s = Some j \<Longrightarrow>
   \<exists>j'. lookup jid (execs es s) = Some j' \<and> j_max_attempts j' = j_max_attempts j \<and>
     j_attempts j' = j_attempts j + int (won jid es s)"
proof (induction es arbitrary: s j)
  case (Cons e es)
  obtain j1 where 1: "lookup jid (exec e s) = Some j1" "j_max_attempts j1 = j_max_attempts j"
      "j_attempts j1 = j_attempts j + of_bool (wins jid e s)"
    using exec_row [OF Cons.prems] by blast
  show ?case using Cons.IH [OF 1(1)] 1(2,3) by (auto simp: of_bool_def)
qed simp

lemma won_bounded:
  assumes "ok s" and "list_all legal es" and "lookup jid s = Some j"
  shows "int (won jid es s) \<le> j_max_attempts j - j_attempts j"
proof -
  obtain j' where "lookup jid (execs es s) = Some j'" "j_max_attempts j' = j_max_attempts j"
      "j_attempts j' = j_attempts j + int (won jid es s)"
    using won_counts [OF assms(3)] by blast
  moreover have "j_attempts j' \<le> j_max_attempts j'"
    using attempts_bound [OF execs_ok [OF assms(1,2)]] calculation(1) by blast
  ultimately show ?thesis by simp
qed

end

section \<open>The statements of \<open>store.go\<close>\<close>

datatype statement_event =
    EvCreate string int new_job
  | EvClaim int string
  | EvComplete int string "string result" real real real int
  | EvFail int string string
  | EvReclaim int int
  | EvRecord int run

fun exec_event :: "statement_event \<Rightarrow> store_db \<Rightarrow> store_db" where
  "exec_event (EvCreate new_id now j) db = snd (CreateJob new_id now j db)"
| "exec_event (EvClaim now jid) db = snd (ClaimJob now jid db)"
| "exec_event (EvComplete now jid rep a b c d) db = snd (CompleteJob now jid rep a b c d db)"
| "exec_event (EvFail now jid cause) db = snd (MarkFailure now jid cause db)"
| "exec_event (EvReclaim now olderThan) db = snd (ReclaimStale now olderThan db)"
| "exec_event (EvRecord now r) db = RecordRun now r db"

fun legal_event :: "statement_event \<Rightarrow> bool" where
  "legal_event (EvCreate new_id now j) = (0 \<le> nj_max_attempts j)"
| "legal_event _ = True"

text \<open>A claim made at \<open>t\<close> ends with a failure of the job, or by a reclaim after the lease.\<close>

fun ends_lease :: "int \<Rightarrow> string \<Rightarrow> statement_event \<Rightarrow> bool" where
  "ends_lease t jid (EvFail now jid' cause) = (jid' = jid)"
| "ends_lease t jid (EvReclaim now olderThan) = (t < now - whole_seconds olderThan)"
| "ends_lease t jid _ = False"

fun is_win :: "string \<Rightarrow> statement_event \<Rightarrow> store_db \<Rightarrow> bool" where
  "is_win jid (EvClaim now jid') db = (jid' = jid \<and> is_ok (fst (ClaimJob now jid' db)))"
| "is_win jid _ db = False"

section \<open>Rows under each statement\<close>

lemma find_job_ClaimJob:
  "find_job jid (snd (ClaimJob now jid' db)) =
     (if jid = jid' then map_option (\<lambda>j. if claimable j then claimed now j else j) (find_job jid db) else find_job jid db)"
  by (auto simp: ClaimJob_def find_job_update split: option.splits)

lemma find_job_CompleteJob:
  "find_job jid (snd (CompleteJob now jid' rep a b c d db)) =
     (case rep of Inl e \<Rightarrow> find_job jid db
      | Inr raw \<Rightarrow> if jid = jid' then map_option (completed now raw a b c d) (find_job jid db) else find_job jid db)"
  by (auto simp: CompleteJob_def find_job_update split: sum.splits)

lemma find_job_MarkFailure:
  "find_job jid (snd (MarkFailure now jid' cause db)) =
     (if jid = jid' then map_option (marked_failed now cause) (find_job jid db) else find_job jid db)"
  by (auto simp: MarkFailure_def find_job_update split: option.splits)

lemma find_job_ReclaimStale:
  "find_job jid (snd (ReclaimStale now olderThan db)) =
     map_option (\<lambda>j. if stale now olderThan j then reclaimed now j else j) (find_job jid db)"
  by (simp add: ReclaimStale_def find_job_map)

lemma find_job_RecordRun [simp]: "find_job jid (RecordRun now r db) = find_job jid db"
  by (simp add: RecordRun_def find_job_def)

lemma find_append: "find P xs = Some x \<Longrightarrow> find P (xs @ ys) = Some x"
  by (induction xs) auto

lemma find_job_CreateJob: "find_job jid db = Some j \<Longrightarrow> find_job jid (snd (CreateJob new_id now nj db)) = Some j"
  by (auto simp: CreateJob_def Let_def find_job_def find_append split: option.splits)

lemmas find_job_events = find_job_ClaimJob find_job_CompleteJob find_job_MarkFailure find_job_ReclaimStale

lemma fst_ClaimJob:
  "fst (ClaimJob now jid db) = (case find_job jid db of None \<Rightarrow> Inl err_not_found
     | Some j \<Rightarrow> if claimable j then Inr (claimed now j) else Inl err_already_claimed)"
  by (simp add: ClaimJob_def split: option.splits)

section \<open>The promises hold\<close>

lemma exec_event_ok: "store_ok db \<Longrightarrow> legal_event e \<Longrightarrow> store_ok (exec_event e db)"
proof (cases e)
  case (EvCreate new_id now j)
  then show "store_ok db \<Longrightarrow> legal_event e \<Longrightarrow> ?thesis"
    by (auto intro: CreateJob_ok [OF _ _ surjective_pairing])
next
  case (EvClaim now jid)
  then show "store_ok db \<Longrightarrow> ?thesis" by (auto intro: ClaimJob_ok [OF _ surjective_pairing])
next
  case (EvComplete now jid rep a b c d)
  then show "store_ok db \<Longrightarrow> ?thesis" by (auto intro: CompleteJob_ok [OF _ surjective_pairing])
next
  case (EvFail now jid cause)
  then show "store_ok db \<Longrightarrow> ?thesis" by (auto intro: MarkFailure_ok [OF _ surjective_pairing])
next
  case (EvReclaim now olderThan)
  then show "store_ok db \<Longrightarrow> ?thesis" by (auto intro: ReclaimStale_ok [OF _ surjective_pairing])
next
  case (EvRecord now r)
  then show "store_ok db \<Longrightarrow> ?thesis" by (simp add: RecordRun_def store_ok_def)
qed

lemma exec_event_keeps:
  "held t (find_job jid db) \<Longrightarrow> \<not> ends_lease t jid e \<Longrightarrow> held t (find_job jid (exec_event e db))"
proof (cases "find_job jid db")
  case (Some j)
  assume "held t (find_job jid db)" "\<not> ends_lease t jid e"
  with Some show ?thesis
    by (cases e)
      (auto simp: held_def find_job_events find_job_CreateJob claimable_def claimed_def completed_def stale_def
        reclaimed_def split: sum.splits)
qed (simp add: held_def)

lemma row_counters [simp]:
  "j_attempts (claimed now j) = j_attempts j + 1" "j_max_attempts (claimed now j) = j_max_attempts j"
  "j_attempts (completed now raw a b c d j) = j_attempts j"
  "j_max_attempts (completed now raw a b c d j) = j_max_attempts j"
  "j_attempts (marked_failed now e j) = j_attempts j" "j_max_attempts (marked_failed now e j) = j_max_attempts j"
  "j_attempts (reclaimed now j) = j_attempts j" "j_max_attempts (reclaimed now j) = j_max_attempts j"
  by (simp_all add: claimed_def completed_def marked_failed_def reclaimed_def)

lemma exec_event_row:
  assumes "find_job jid db = Some j"
  shows "\<exists>j'. find_job jid (exec_event e db) = Some j' \<and> j_max_attempts j' = j_max_attempts j \<and>
     j_attempts j' = j_attempts j + of_bool (is_win jid e db)"
  using assms
  by (cases e; cases "claimable j") (auto simp: find_job_events find_job_CreateJob fst_ClaimJob split: sum.split)

lemma ClaimJob_holds:
  "ClaimJob now jid db = (Inr j, db') \<Longrightarrow> find_job jid db' = Some j \<and> held now (find_job jid db')"
  by (auto simp: ClaimJob_def find_job_update held_def claimed_def split: option.splits if_splits)

lemma ClaimJob_excludes:
  "held t (find_job jid db) \<Longrightarrow> ClaimJob now jid db = (Inl err_already_claimed, db)"
  by (auto simp: ClaimJob_def held_def claimable_def split: option.splits)

lemma store_ok_find: "store_ok db \<Longrightarrow> find_job jid db = Some j \<Longrightarrow> job_ok j"
  by (auto simp: store_ok_def list_all_iff dest: find_job_Some)

interpretation jobs: lease_table store_ok find_job ClaimJob legal_event exec_event ends_lease is_win
proof unfold_locales
  show "store_ok db \<Longrightarrow> find_job jid db = Some j \<Longrightarrow> j_attempts j \<le> j_max_attempts j" for db jid j
    using store_ok_find by (auto simp: job_ok_def)
qed (use exec_event_ok exec_event_keeps exec_event_row ClaimJob_holds ClaimJob_excludes in \<open>blast+\<close>)

section \<open>Properties\<close>

text \<open>Any interleaving of statements, and how many of them are successful claims of a job.\<close>

fun exec_events :: "statement_event list \<Rightarrow> store_db \<Rightarrow> store_db" where
  "exec_events [] db = db"
| "exec_events (e # es) db = exec_events es (exec_event e db)"

fun claims_won :: "string \<Rightarrow> statement_event list \<Rightarrow> store_db \<Rightarrow> nat" where
  "claims_won jid [] db = 0"
| "claims_won jid (e # es) db = of_bool (is_win jid e db) + claims_won jid es (exec_event e db)"

lemma execs_events [simp]: "jobs.execs es db = exec_events es db"
  by (induction es arbitrary: db) simp_all

lemma won_events [simp]: "jobs.won jid es db = claims_won jid es db"
  by (induction es arbitrary: db) simp_all

lemma exec_events_ok: "store_ok db \<Longrightarrow> list_all legal_event es \<Longrightarrow> store_ok (exec_events es db)"
  using jobs.execs_ok by simp

definition demo_new_job :: new_job where
  "demo_new_job = \<lparr>nj_id = '''', nj_key = ''k'', nj_sql = ''SELECT 1'', nj_fingerprint = ''fp'', nj_max_attempts = 3\<rparr>"

definition demo_store :: store_db where
  "demo_store = snd (CreateJob ''job-1'' 0 demo_new_job empty_store)"

lemma demo_store_ok: "store_ok demo_store"
  using CreateJob_ok [OF store_ok_empty _ surjective_pairing, of demo_new_job "''job-1''" 0]
  by (simp add: demo_store_def demo_new_job_def)

lemma demo_store_row: "find_job ''job-1'' demo_store = Some (job_row ''job-1'' 0 demo_new_job)"
  by (simp add: demo_store_def demo_new_job_def CreateJob_def Let_def empty_store_def job_row_def find_job_def)

text \<open>
  A claim is exclusive for the length of the lease.  After a successful \<open>ClaimJob\<close>, whatever
  statements other clients interleave (submissions, claims, completions, history rows, failures of
  other jobs, reclaims whose lease has not run out), a second claim of the job is refused with
  \<open>ErrAlreadyClaimed\<close> and changes nothing.
\<close>
theorem ClaimJob_exclusive:
  assumes "ClaimJob now jid db = (Inr j, db1)" and "list_all (\<lambda>e. \<not> ends_lease now jid e) es"
  shows "ClaimJob now' jid (exec_events es db1) = (Inl err_already_claimed, exec_events es db1)"
  using jobs.claim_exclusive [OF assms] by simp

lemma ClaimJob_exclusive_witness:
  "\<exists>db1. ClaimJob 10 ''job-1'' demo_store = (Inr (claimed 10 (job_row ''job-1'' 0 demo_new_job)), db1) \<and>
     fst (ClaimJob 20 ''job-1'' (exec_events [EvReclaim 15 (10 * second), EvFail 16 ''job-2'' ''x''] db1)) =
       Inl err_already_claimed"
proof -
  have c: "claimable (job_row ''job-1'' 0 demo_new_job)" by (simp add: claimable_def job_row_def)
  then have 1: "ClaimJob 10 ''job-1'' demo_store =
      (Inr (claimed 10 (job_row ''job-1'' 0 demo_new_job)), update_job ''job-1'' (claimed 10) demo_store)"
    by (simp add: ClaimJob_def demo_store_row)
  have "list_all (\<lambda>e. \<not> ends_lease 10 ''job-1'' e) [EvReclaim 15 (10 * second), EvFail 16 ''job-2'' ''x'']"
    by (simp add: whole_seconds_def second_def go_quot_def)
  from ClaimJob_exclusive [OF 1 this] 1 show ?thesis by simp
qed

text \<open>
  A job is run a bounded number of times.  From a well-formed table, under any sequence of
  statements, the number of successful claims of a job is at most the attempts it has left; so a job
  that was just submitted is executed at most \<open>max_attempts\<close> times, whatever is redelivered.
\<close>
theorem claims_bounded:
  assumes "store_ok db" and "list_all legal_event es" and "find_job jid db = Some j"
  shows "int (claims_won jid es db) \<le> j_max_attempts j - j_attempts j"
  using jobs.won_bounded [OF assms] by simp

lemma claims_bounded_witness:
  "int (claims_won ''job-1'' [EvClaim 1 ''job-1'', EvFail 2 ''job-1'' ''x'', EvClaim 3 ''job-1''] demo_store) \<le> 3"
proof -
  have "list_all legal_event [EvClaim 1 ''job-1'', EvFail 2 ''job-1'' ''x'', EvClaim 3 ''job-1'']" by simp
  from claims_bounded [OF demo_store_ok this demo_store_row] show ?thesis by (simp add: job_row_def demo_new_job_def)
qed

text \<open>A row stays in the table, and its key with it.\<close>

lemma exec_event_key:
  "find (\<lambda>x. j_key x = k) (db_jobs db) = Some j \<Longrightarrow>
   \<exists>j'. find (\<lambda>x. j_key x = k) (db_jobs (exec_event e db)) = Some j' \<and> j_id j' = j_id j"
  by (cases e)
    (auto simp: CreateJob_def ClaimJob_def CompleteJob_def MarkFailure_def ReclaimStale_def RecordRun_def Let_def
      update_job_def find_map_same find_append split: option.splits sum.splits)

lemma exec_events_key:
  "find (\<lambda>x. j_key x = k) (db_jobs db) = Some j \<Longrightarrow>
   \<exists>j'. find (\<lambda>x. j_key x = k) (db_jobs (exec_events es db)) = Some j' \<and> j_id j' = j_id j"
proof (induction es arbitrary: db j)
  case (Cons e es)
  obtain j1 where 1: "find (\<lambda>x. j_key x = k) (db_jobs (exec_event e db)) = Some j1" "j_id j1 = j_id j"
    using exec_event_key [OF Cons.prems] by blast
  show ?case using Cons.IH [OF 1(1)] 1(2) by auto
qed simp

lemma CreateJob_key:
  "CreateJob new_id now nj db = (Inr (j, c), db') \<Longrightarrow>
   find (\<lambda>x. j_key x = nj_key nj) (db_jobs db') = Some j"
  by (auto simp: CreateJob_def Let_def job_row_def find_None_iff find_Some_iff nth_append
      split: option.splits if_splits intro!: exI [of _ "length (db_jobs db)"])

text \<open>
  C15: submission is idempotent.  Once \<open>CreateJob\<close> has stored a job under a key, then after any
  statements of any clients a submission with the same key creates nothing: it returns that same
  job, says so, and leaves the table as it is.
\<close>
theorem CreateJob_idempotent:
  assumes "CreateJob new_id now nj db = (Inr (j, c), db1)" and "nj_key nj' = nj_key nj"
  shows "\<exists>j'. CreateJob new_id' now' nj' (exec_events es db1) = (Inr (j', False), exec_events es db1) \<and> j_id j' = j_id j"
  using exec_events_key [OF CreateJob_key [OF assms(1)], of es] assms(2) by (auto simp: CreateJob_def Let_def)

lemma CreateJob_idempotent_witness:
  "\<exists>j'. CreateJob ''job-2'' 9 demo_new_job (exec_events [EvClaim 3 ''job-1''] demo_store) =
     (Inr (j', False), exec_events [EvClaim 3 ''job-1''] demo_store) \<and> j_id j' = ''job-1''"
proof -
  have 1: "CreateJob ''job-1'' 0 demo_new_job empty_store = (Inr (job_row ''job-1'' 0 demo_new_job, True), demo_store)"
    by (simp add: demo_store_def CreateJob_def Let_def empty_store_def find_job_def)
  have "j_id (job_row ''job-1'' 0 demo_new_job) = ''job-1''" by (simp add: job_row_def demo_new_job_def)
  with CreateJob_idempotent [OF 1 refl, of "''job-2''" 9 "[EvClaim 3 ''job-1'']"] show ?thesis by simp
qed

end
