(* ===== verification/Worker_Facts.thy ===== *)
theory Worker_Facts
  imports Worker Store_Facts Optimizer_Facts
begin

text \<open>
  What the worker does with a job, whatever fails on the way: how often it executes it, where its
  message goes next, and where a job can get lost.
\<close>

section \<open>Remote calls\<close>

lemma publish_op_frame:
  assumes "publish_op wk topic req h = (r, h1)"
  shows "h_world h1 = h_world h" and "h_store h1 = h_store h"
  using send_op_frame [of "wk_codec wk" topic req h r h1] assms by (simp_all add: publish_op_def)

lemma publish_op_Done:
  "h_faults h = [] \<Longrightarrow> encode_request (wk_codec wk) req = Inr body \<Longrightarrow>
   publish_op wk topic req h = (Inr (), h\<lparr>h_broker := (h_broker h)(topic := h_broker h topic @ [body])\<rparr>)"
  by (simp add: publish_op_def send_op_Done)

section \<open>The statements a worker sends\<close>

text \<open>\<open>quiet\<close> statements claim nothing; \<open>sends P h h'\<close>: from \<open>h\<close> to \<open>h'\<close> the table ran statements in \<open>P\<close>.\<close>

definition quiet :: "statement_event \<Rightarrow> bool" where
  "quiet e \<longleftrightarrow> (case e of EvCreate n t j \<Rightarrow> False | EvClaim t jid \<Rightarrow> False | _ \<Rightarrow> True)"

definition sends :: "(statement_event \<Rightarrow> bool) \<Rightarrow> 'w host \<Rightarrow> 'w host \<Rightarrow> bool" where
  "sends P h h' \<longleftrightarrow> (\<exists>es. list_all P es \<and> h_store h' = exec_events es (h_store h))"

lemma exec_events_append [simp]: "exec_events (es @ fs) db = exec_events fs (exec_events es db)"
  by (induction es arbitrary: db) simp_all

lemma claims_won_append [simp]:
  "claims_won jid (es @ fs) db = claims_won jid es db + claims_won jid fs (exec_events es db)"
  by (induction es arbitrary: db) simp_all

lemma sends_store: "h_store h' = h_store h \<Longrightarrow> sends P h h'"
  by (auto simp: sends_def intro: exI [of _ "[]"])

lemma sends_trans: "sends P h h1 \<Longrightarrow> sends P h1 h2 \<Longrightarrow> sends P h h2"
  by (auto simp: sends_def) (metis exec_events_append list_all_append)

lemma sends_event:
  "P e \<Longrightarrow> h_store h' = h_store h \<or> h_store h' = exec_event e (h_store h) \<Longrightarrow> sends P h h'"
  by (auto simp: sends_def intro: exI [of _ "[]"] exI [of _ "[e]"])

lemma sends_store_op:
  assumes "store_op f h = (r, h1)" and "P e" and "\<And>db. exec_event e db = snd (f db)"
  shows "sends P h h1"
  using store_op_frame(3) [OF assms(1)] assms(2,3) by (intro sends_event [of P e]) auto

lemma quiet_legal: "quiet e \<Longrightarrow> legal_event e \<and> \<not> is_win jid e db"
  by (cases e) (simp_all add: quiet_def)

lemma quiet_events: "list_all quiet es \<Longrightarrow> list_all legal_event es \<and> claims_won jid es db = 0"
  by (induction es arbitrary: db) (auto dest: quiet_legal)

lemma record_op_quiet: "sends quiet h (record_op wk r h)"
proof -
  obtain x h1 where s: "store_op (\<lambda>db. (Inr (), RecordRun (now_of wk h) r db)) h = (x, h1)" by fastforce
  then show ?thesis unfolding record_op_def
    by (auto intro: sends_store_op [OF s, where e = "EvRecord (now_of wk h) r"] simp: quiet_def)
qed

lemma fold_sends: "(\<And>x h. sends P h (f x h)) \<Longrightarrow> sends P h (fold f xs h)"
  by (induction xs arbitrary: h) (auto intro: sends_store sends_trans)

lemma recordRuns_quiet: "sends quiet h (recordRuns wk job rep h)"
  unfolding recordRuns_def by (rule fold_sends) (rule record_op_quiet)

lemma dead_letter_store [simp]: "h_store (dead_letter wk nxt h) = h_store h"
  by (simp add: dead_letter_def publish_op_def send_op_def split: prod.split)

lemma scheduleRetry_quiet: "sends quiet h (scheduleRetry wk job req cause h)"
proof -
  obtain r h1 where s: "store_op (MarkFailure (now_of wk h) (j_id job) cause) h = (r, h1)" by fastforce
  have 1: "sends quiet h h1"
    by (rule sends_store_op [OF s, where e = "EvFail (now_of wk h) (j_id job) cause"]) (simp_all add: quiet_def)
  have "h_store (scheduleRetry wk job req cause h) = h_store h1"
    by (simp add: scheduleRetry_def s Let_def publish_op_frame(2) split: prod.split sum.split option.split)
  with 1 show ?thesis by (auto simp: sends_def)
qed

lemma complete_op_quiet: "sends quiet h (complete_op wk job start rep h)"
proof -
  let ?f = "CompleteJob (now_of wk h) (j_id job) (wk_marshal wk rep) (br_median (rp_baseline rep))
       (best_ms_of rep) (improvement_of rep) (milliseconds (now_of wk h - start))"
  obtain r h1 where s: "store_op ?f h = (r, h1)" by fastforce
  show ?thesis
    unfolding complete_op_def s snd_conv
    by (rule sends_store_op [OF s, where e = "EvComplete (now_of wk h) (j_id job) (wk_marshal wk rep)
          (br_median (rp_baseline rep)) (best_ms_of rep) (improvement_of rep) (milliseconds (now_of wk h - start))"])
      (simp_all add: quiet_def)
qed

text \<open>Whether a delivery executes its job: its claim went through and was acknowledged.\<close>

definition executes :: "'w worker \<Rightarrow> optimize_request \<Rightarrow> 'w host \<Rightarrow> bool" where
  "executes wk req h = is_ok (fst (store_op (ClaimJob (now_of wk h) (q_job req)) h))"

lemma handle_after_claim:
  assumes "store_op (ClaimJob (now_of wk h) (q_job req)) h = (r, h1)"
  shows "sends quiet h1 (handle wk req h)"
proof (cases r)
  case (Inr job)
  obtain x w where run: "Run (wk_opt wk) (j_sql job) (h_world h1) = (x, w)" by fastforce
  have "sends quiet h1 (h1\<lparr>h_world := w\<rparr>)" by (rule sends_store) simp
  moreover have "sends quiet (h1\<lparr>h_world := w\<rparr>) (handle wk req h)"
  proof (cases x)
    case (Inl err)
    then show ?thesis using scheduleRetry_quiet by (simp add: handle_def assms Inr run)
  next
    case (Inr rep)
    then show ?thesis
      using sends_trans [OF recordRuns_quiet complete_op_quiet] by (simp add: handle_def assms \<open>r = Inr job\<close> run)
  qed
  ultimately show ?thesis by (rule sends_trans)
next
  case (Inl err)
  then show ?thesis by (simp add: handle_def assms sends_store)
qed

lemma handle_events:
  "\<exists>es. list_all legal_event es \<and> h_store (handle wk req h) = exec_events es (h_store h) \<and>
     of_bool (executes wk req h \<and> q_job req = jid) \<le> claims_won jid es (h_store h)"
proof -
  let ?e = "EvClaim (now_of wk h) (q_job req)"
  obtain r h1 where s: "store_op (ClaimJob (now_of wk h) (q_job req)) h = (r, h1)" by fastforce
  obtain fs where fs: "list_all quiet fs" "h_store (handle wk req h) = exec_events fs (h_store h1)"
    using handle_after_claim [OF s] by (auto simp: sends_def)
  have legal: "list_all legal_event fs" using quiet_events [OF fs(1)] by blast
  show ?thesis
  proof (cases r)
    case (Inr job)
    have "ClaimJob (now_of wk h) (q_job req) (h_store h) = (Inr job, h_store h1)"
      using store_op_frame(4) [OF s Inr] .
    then have "h_store (handle wk req h) = exec_events (?e # fs) (h_store h)" "is_win (q_job req) ?e (h_store h)"
      using fs(2) by simp_all
    then show ?thesis using legal by (intro exI [of _ "?e # fs"]) auto
  next
    case (Inl err)
    then have no: "\<not> executes wk req h" by (simp add: executes_def s)
    from store_op_frame(3) [OF s] show ?thesis
    proof
      assume "h_store h1 = h_store h"
      then show ?thesis using fs legal no by (intro exI [of _ fs]) simp
    next
      assume "h_store h1 = snd (ClaimJob (now_of wk h) (q_job req) (h_store h))"
      then show ?thesis using fs legal no by (intro exI [of _ "?e # fs"]) simp
    qed
  qed
qed

section \<open>Deliveries in any order\<close>

text \<open>
  What can happen to a host: a message is delivered to the worker, the worker reclaims jobs, another
  process runs a statement on the table, or the rest of the outside changes: the target, the clock,
  the broker, and which calls are going to fail.
\<close>

datatype 'w happening =
    Deliver optimize_request
  | Reclaim
  | Statement statement_event
  | Outside 'w broker "outcome list"

fun happens :: "'w worker \<Rightarrow> 'w happening \<Rightarrow> 'w host \<Rightarrow> 'w host" where
  "happens wk (Deliver req) h = handle wk req h"
| "happens wk Reclaim h = reclaim_step wk h"
| "happens wk (Statement e) h = h\<lparr>h_store := exec_event e (h_store h)\<rparr>"
| "happens wk (Outside w b fs) h = h\<lparr>h_world := w, h_broker := b, h_faults := fs\<rparr>"

fun legal_happening :: "'w happening \<Rightarrow> bool" where
  "legal_happening (Statement e) = legal_event e"
| "legal_happening _ = True"

text \<open>How often the job \<open>jid\<close> is executed by this worker.\<close>

fun executions :: "'w worker \<Rightarrow> string \<Rightarrow> 'w happening list \<Rightarrow> 'w host \<Rightarrow> nat" where
  "executions wk jid [] h = 0"
| "executions wk jid (x # xs) h =
     (case x of Deliver req \<Rightarrow> of_bool (executes wk req h \<and> q_job req = jid) | _ \<Rightarrow> 0) +
     executions wk jid xs (happens wk x h)"

lemma reclaim_step_sends: "sends quiet h (reclaim_step wk h)"
proof -
  let ?t = "lease_time (wk_cfg wk)"
  let ?f = "\<lambda>db. case ReclaimStale (now_of wk h) ?t db of (n, db1) \<Rightarrow> (Inr n :: int result, db1)"
  obtain r h1 where s: "store_op ?f h = (r, h1)" by fastforce
  show ?thesis unfolding reclaim_step_def s snd_conv
    by (rule sends_store_op [OF s, where e = "EvReclaim (now_of wk h) ?t"]) (simp_all add: quiet_def split: prod.split)
qed

lemma happens_events:
  assumes "legal_happening x"
  shows "\<exists>es. list_all legal_event es \<and> h_store (happens wk x h) = exec_events es (h_store h) \<and>
     (case x of Deliver req \<Rightarrow> of_bool (executes wk req h \<and> q_job req = jid) | _ \<Rightarrow> 0) \<le> claims_won jid es (h_store h)"
proof (cases x)
  case (Deliver req)
  then show ?thesis using handle_events [of wk req h jid] by simp
next
  case Reclaim
  then show ?thesis using reclaim_step_sends [of h wk] quiet_events by (fastforce simp: sends_def)
next
  case (Statement e)
  then show ?thesis using assms by (intro exI [of _ "[e]"]) simp
next
  case (Outside w b fs)
  then show ?thesis by (intro exI [of _ "[]"]) simp
qed

lemma executions_claims:
  assumes "list_all legal_happening xs"
  shows "\<exists>es. list_all legal_event es \<and> executions wk jid xs h \<le> claims_won jid es (h_store h)"
  using assms
proof (induction xs arbitrary: h)
  case Nil
  then show ?case by (intro exI [of _ "[]"]) simp
next
  case (Cons x xs)
  from Cons.prems have x: "legal_happening x" and xs: "list_all legal_happening xs" by simp_all
  obtain es where es: "list_all legal_event es" "h_store (happens wk x h) = exec_events es (h_store h)"
      "(case x of Deliver req \<Rightarrow> of_bool (executes wk req h \<and> q_job req = jid) | _ \<Rightarrow> 0) \<le> claims_won jid es (h_store h)"
    using happens_events [OF x, of wk h jid] by blast
  obtain fs where fs: "list_all legal_event fs"
      "executions wk jid xs (happens wk x h) \<le> claims_won jid fs (exec_events es (h_store h))"
    using Cons.IH [OF xs, of "happens wk x h"] es(2) by auto
  show ?case using es(1,3) fs by (intro exI [of _ "es @ fs"]) simp
qed

section \<open>Properties\<close>

text \<open>A worker for the witnesses.\<close>

definition demo_codec :: codec where
  "demo_codec = \<lparr>encode_request = \<lambda>r. Inr (q_job r),
     decode_request = \<lambda>s. Inr \<lparr>q_job = s, q_sql = '''', q_attempt = 1, q_not_before = 0, q_last_error = '''', q_enqueued = 0\<rparr>\<rparr>"

definition demo_config :: config where
  "demo_config = read_env (\<lambda>k. '''')"

definition demo_worker :: "nat worker" where
  "demo_worker = \<lparr>wk_cfg = demo_config, wk_opt = demo_optimizer, wk_codec = demo_codec,
     wk_marshal = \<lambda>r. Inr ''{}'', wk_sleep = \<lambda>d w. w + nat d\<rparr>"

definition demo_host :: "nat host" where
  "demo_host = \<lparr>h_world = 0, h_store = demo_store, h_broker = (\<lambda>t. []), h_faults = []\<rparr>"

definition demo_request :: optimize_request where
  "demo_request = \<lparr>q_job = ''job-1'', q_sql = ''SELECT 1'', q_attempt = 1, q_not_before = zero_time,
     q_last_error = '''', q_enqueued = 0\<rparr>"

text \<open>
  C14: a job is executed at most as often as it has attempts left.  Whatever messages are delivered and
  redelivered, whatever other processes do to the job table, whatever the clock, the target and the
  broker do, and whichever remote calls fail before or after their effect, the number of deliveries
  on which the worker runs the optimizer for a job is bounded by \<open>max_attempts - attempts\<close>.
\<close>
theorem executions_bounded:
  assumes "store_ok (h_store h)" and "list_all legal_happening xs" and "find_job jid (h_store h) = Some j"
  shows "int (executions wk jid xs h) \<le> j_max_attempts j - j_attempts j"
proof -
  obtain es where "list_all legal_event es" "executions wk jid xs h \<le> claims_won jid es (h_store h)"
    using executions_claims [OF assms(2)] by blast
  moreover from this(1) have "int (claims_won jid es (h_store h)) \<le> j_max_attempts j - j_attempts j"
    using jobs.won_bounded [OF assms(1) _ assms(3)] by simp
  ultimately show ?thesis by linarith
qed

lemma executions_bounded_witness:
  "int (executions demo_worker ''job-1'' [Deliver demo_request, Outside 5 (\<lambda>t. []) [Lost], Deliver demo_request, Reclaim]
     demo_host) \<le> 3"
proof -
  have "find_job ''job-1'' (h_store demo_host) = Some (job_row ''job-1'' 0 demo_new_job)"
    by (simp add: demo_host_def demo_store_row)
  from executions_bounded [OF _ _ this, of "[Deliver demo_request, Outside 5 (\<lambda>t. []) [Lost], Deliver demo_request, Reclaim]"
      demo_worker] demo_store_ok
  show ?thesis by (simp add: demo_host_def job_row_def demo_new_job_def del: executions.simps)
qed

text \<open>
  A duplicate delivery is harmless.  While a job is held by a claim or is finished, the delivery of
  a message for it runs nothing on the target, publishes nothing and leaves the job table as it is,
  whatever remote call fails.
\<close>
theorem handle_duplicate_ignored:
  assumes "held t (find_job (q_job req) (h_store h))"
  shows "h_world (handle wk req h) = h_world h \<and> h_broker (handle wk req h) = h_broker h \<and>
    h_store (handle wk req h) = h_store h \<and> \<not> executes wk req h"
proof -
  have c: "ClaimJob (now_of wk h) (q_job req) (h_store h) = (Inl err_already_claimed, h_store h)"
    by (rule ClaimJob_excludes [OF assms])
  obtain r h1 where s: "store_op (ClaimJob (now_of wk h) (q_job req)) h = (r, h1)" by fastforce
  then have "\<exists>err. r = Inl err" using store_op_frame(4) [OF s] c by (cases r) auto
  moreover have "h_store h1 = h_store h" using store_op_frame(3) [OF s] c by auto
  ultimately show ?thesis using store_op_frame(1,2) [OF s] s by (auto simp: handle_def executes_def)
qed

lemma handle_duplicate_ignored_witness:
  "\<exists>db. ClaimJob 0 ''job-1'' demo_store = (Inr (claimed 0 (job_row ''job-1'' 0 demo_new_job)), db) \<and>
     h_store (handle demo_worker demo_request (demo_host\<lparr>h_store := db\<rparr>)) = db"
proof -
  have c: "ClaimJob 0 ''job-1'' demo_store =
      (Inr (claimed 0 (job_row ''job-1'' 0 demo_new_job)), update_job ''job-1'' (claimed 0) demo_store)"
    by (simp add: ClaimJob_def demo_store_row) (simp add: claimable_def job_row_def)
  let ?h = "demo_host\<lparr>h_store := update_job ''job-1'' (claimed 0) demo_store\<rparr>"
  have names: "q_job demo_request = ''job-1''" "h_store ?h = update_job ''job-1'' (claimed 0) demo_store"
    by (simp_all add: demo_request_def)
  have "held 0 (find_job (q_job demo_request) (h_store ?h))"
    unfolding names using ClaimJob_holds [OF c] by (rule conjunct2)
  from handle_duplicate_ignored [OF this, of demo_worker] c show ?thesis by auto
qed

text \<open>The bytes of a request, for an encoding that does not fail.\<close>

definition body_of :: "'w worker \<Rightarrow> optimize_request \<Rightarrow> string" where
  "body_of wk req = (case encode_request (wk_codec wk) req of Inr b \<Rightarrow> b | Inl err \<Rightarrow> '''')"

definition encodes :: "'w worker \<Rightarrow> bool" where
  "encodes wk \<longleftrightarrow> (\<forall>req. is_ok (encode_request (wk_codec wk) req))"

definition published :: "'w worker \<Rightarrow> string \<Rightarrow> optimize_request \<Rightarrow> broker \<Rightarrow> broker" where
  "published wk topic req b = b(topic := b topic @ [body_of wk req])"

lemma publish_op_ok:
  "h_faults h = [] \<Longrightarrow> encodes wk \<Longrightarrow>
   publish_op wk topic req h = (Inr (), h\<lparr>h_broker := published wk topic req (h_broker h)\<rparr>)"
  using publish_op_Done [of h wk req "body_of wk req" topic]
  by (auto simp: encodes_def body_of_def published_def is_ok_iff split: sum.splits)
    (metis Inl_Inr_False)

lemma claim_ok:
  "h_faults h = [] \<Longrightarrow> find_job jid (h_store h) = Some j \<Longrightarrow> claimable j \<Longrightarrow>
   store_op (ClaimJob t jid) h = (Inr (claimed t j), h\<lparr>h_store := update_job jid (claimed t) (h_store h)\<rparr>)"
  by (simp add: store_op_Done ClaimJob_def)

lemma failed_status_iff: "failed_status j = StatusRetrying \<longleftrightarrow> j_attempts j < j_max_attempts j"
  by (simp add: failed_status_def)

lemma scheduleRetry_ok:
  assumes "h_faults h = []" and "encodes wk" and job: "find_job (j_id job) (h_store h) = Some job"
  shows "scheduleRetry wk job req cause h =
    (let nxt = req\<lparr>q_attempt := j_attempts job + 1, q_last_error := cause\<rparr>;
         h1 = h\<lparr>h_store := update_job (j_id job) (marked_failed (now_of wk h) cause) (h_store h)\<rparr>
     in case (if j_attempts job < j_max_attempts job then RetryTopic (JobTopic (wk_cfg wk)) (j_attempts job) else None) of
          Some (topic, d) \<Rightarrow>
            h1\<lparr>h_broker := published wk topic (nxt\<lparr>q_not_before := now_of wk h + d\<rparr>) (h_broker h)\<rparr>
        | None \<Rightarrow> h1\<lparr>h_broker := published wk (DLQTopic (wk_cfg wk)) (nxt\<lparr>q_not_before := zero_time\<rparr>) (h_broker h)\<rparr>)"
  by (simp add: scheduleRetry_def store_op_Done MarkFailure_def job failed_status_iff publish_op_ok assms(1,2)
      dead_letter_def now_of_def Let_def split: option.split)

lemma scheduleRetry_found:
  assumes "h_faults h = []" and "encodes wk" and "find_job (j_id job) (h_store h) = Some job"
  shows "find_job (j_id job) (h_store (scheduleRetry wk job req cause h)) = Some (marked_failed (now_of wk h) cause job)"
proof -
  have "h_store (scheduleRetry wk job req cause h) = update_job (j_id job) (marked_failed (now_of wk h) cause) (h_store h)"
    by (simp add: scheduleRetry_ok [OF assms] Let_def split: option.split)
  then show ?thesis using assms(3) by (simp add: find_job_update)
qed

lemma j_id_claimed_found: "find_job jid db = Some j \<Longrightarrow> j_id (claimed t j) = jid"
  using find_job_Some by simp

lemma handle_failure:
  assumes "h_faults h = []" and "encodes wk" and j: "find_job (q_job req) (h_store h) = Some j" "claimable j"
    and run: "Run (wk_opt wk) (j_sql j) (h_world h) = (Inl err, w)" and n: "n = j_attempts j + 1"
  shows "\<exists>j'. find_job (q_job req) (h_store (handle wk req h)) = Some j' \<and> j_attempts j' = n \<and>
    j_max_attempts j' = j_max_attempts j \<and> j_sql j' = j_sql j \<and>
    j_status j' = (if n < j_max_attempts j then StatusRetrying else StatusFailed) \<and>
    h_broker (handle wk req h) =
      (case (if n < j_max_attempts j then RetryTopic (JobTopic (wk_cfg wk)) n else None) of
         Some (topic, d) \<Rightarrow> published wk topic (req\<lparr>q_attempt := n + 1, q_last_error := err_text err,
             q_not_before := op_clock (wk_opt wk) w + d\<rparr>) (h_broker h)
       | None \<Rightarrow> published wk (DLQTopic (wk_cfg wk)) (req\<lparr>q_attempt := n + 1, q_last_error := err_text err,
             q_not_before := zero_time\<rparr>) (h_broker h))"
proof -
  define t where "t = now_of wk h"
  let ?job = "claimed t j" and ?db = "update_job (q_job req) (claimed t) (h_store h)"
  let ?h1 = "h\<lparr>h_store := ?db, h_world := w\<rparr>"
  have jid: "j_id ?job = q_job req" using j_id_claimed_found [OF j(1)] .
  have found: "find_job (j_id ?job) (h_store ?h1) = Some ?job" using j(1) jid by (simp add: find_job_update)
  have "j_sql ?job = j_sql j" by (simp add: claimed_def)
  then have h: "handle wk req h = scheduleRetry wk ?job req (err_text err) ?h1"
    using claim_ok [OF assms(1) j, of t] run by (simp add: handle_def t_def)
  have "find_job (q_job req) (h_store (handle wk req h)) = Some (marked_failed (now_of wk ?h1) (err_text err) ?job)"
    using scheduleRetry_found [OF _ assms(2) found] assms(1) unfolding h jid by simp
  moreover have "j_status (marked_failed (now_of wk ?h1) (err_text err) ?job) =
      (if n < j_max_attempts j then StatusRetrying else StatusFailed)"
    by (simp add: marked_failed_def failed_status_def n)
  moreover have "j_max_attempts (marked_failed u e ?job) = j_max_attempts j \<and> j_sql (marked_failed u e ?job) = j_sql j \<and>
      j_attempts (marked_failed u e ?job) = n" for u e by (simp add: marked_failed_def claimed_def n)
  moreover have "h_broker (handle wk req h) =
      (case (if n < j_max_attempts j then RetryTopic (JobTopic (wk_cfg wk)) n else None) of
         Some (topic, d) \<Rightarrow> published wk topic (req\<lparr>q_attempt := n + 1, q_last_error := err_text err,
             q_not_before := op_clock (wk_opt wk) w + d\<rparr>) (h_broker h)
       | None \<Rightarrow> published wk (DLQTopic (wk_cfg wk)) (req\<lparr>q_attempt := n + 1, q_last_error := err_text err,
             q_not_before := zero_time\<rparr>) (h_broker h))"
    using found unfolding h
    by (simp add: scheduleRetry_ok assms(1,2) Let_def now_of_def n split: option.split)
  ultimately show ?thesis by simp
qed

text \<open>
  C16: a failed run is dispatched.  When no remote call fails, and the optimizer fails on the \<open>n\<close>-th
  execution of a job, the job ends up retrying when attempts are left and failed otherwise, and
  exactly one message goes out: for a retry to the topic of the \<open>n\<close>-th tier, not to be delivered
  before the delay of that tier, and otherwise to the dead letter topic.  The ladder has two tiers, so
  with more than three attempts the third failure leaves the job retrying with its message in the
  dead letter topic, which nothing consumes.
\<close>
theorem handle_failure_dispatched:
  assumes "h_faults h = []" and "encodes wk" and j: "find_job (q_job req) (h_store h) = Some j" "claimable j"
    and run: "Run (wk_opt wk) (j_sql j) (h_world h) = (Inl err, w)" and n: "n = j_attempts j + 1"
  shows "\<exists>j'. find_job (q_job req) (h_store (handle wk req h)) = Some j' \<and> j_attempts j' = n \<and>
    j_status j' = (if n < j_max_attempts j then StatusRetrying else StatusFailed) \<and>
    h_broker (handle wk req h) =
      (case (if n < j_max_attempts j then RetryTopic (JobTopic (wk_cfg wk)) n else None) of
         Some (topic, d) \<Rightarrow> published wk topic (req\<lparr>q_attempt := n + 1, q_last_error := err_text err,
             q_not_before := op_clock (wk_opt wk) w + d\<rparr>) (h_broker h)
       | None \<Rightarrow> published wk (DLQTopic (wk_cfg wk)) (req\<lparr>q_attempt := n + 1, q_last_error := err_text err,
             q_not_before := zero_time\<rparr>) (h_broker h))"
  using handle_failure [OF assms] by blast

text \<open>A worker whose target speaks a dialect that the parser does not know.\<close>

definition demo_failing_worker :: "nat worker" where
  "demo_failing_worker = demo_worker\<lparr>wk_opt := demo_optimizer\<lparr>op_dialect := ''oracle''\<rparr>\<rparr>"

lemma demo_encodes: "encodes demo_worker" "encodes demo_failing_worker"
  by (simp_all add: encodes_def demo_failing_worker_def demo_worker_def demo_codec_def)

lemma demo_claimable: "claimable (job_row ''job-1'' 0 demo_new_job)"
  by (simp add: claimable_def job_row_def)

lemma demo_found: "find_job (q_job demo_request) (h_store demo_host) = Some (job_row ''job-1'' 0 demo_new_job)"
  by (simp add: demo_request_def demo_host_def demo_store_row)

lemma handle_failure_dispatched_witness:
  "\<exists>j'. find_job ''job-1'' (h_store (handle demo_failing_worker demo_request demo_host)) = Some j' \<and>
     j_attempts j' = 1 \<and> j_status j' = StatusRetrying \<and>
     h_broker (handle demo_failing_worker demo_request demo_host) ''sql.optimize.requested.retry.15s'' = [''job-1'']"
proof -
  let ?j = "job_row ''job-1'' 0 demo_new_job"
  have run: "Run (wk_opt demo_failing_worker) (j_sql ?j) (h_world demo_host) =
      (Inl (new_error (''unknown dialect '' @ go_quote ''oracle'')), 0)"
    by (simp add: Run_def demo_failing_worker_def ParseDialect_def DialectMySQL_def DialectPostgres_def demo_host_def)
  have topic: "JobTopic (wk_cfg demo_failing_worker) = ''sql.optimize.requested''"
    by (simp add: demo_failing_worker_def demo_worker_def demo_config_def read_env_def env_def trim_space_def
        trim_func_def trim_left_def)
  have faults: "h_faults demo_host = []" and broker: "h_broker demo_host = (\<lambda>t. [])" and jid: "q_job demo_request = ''job-1''"
    by (simp_all add: demo_host_def demo_request_def)
  have job: "j_attempts ?j = 0" "j_max_attempts ?j = 3" by (simp_all add: job_row_def demo_new_job_def)
  have "body_of demo_failing_worker (demo_request\<lparr>q_attempt := a, q_last_error := e, q_not_before := t\<rparr>) = ''job-1''" for a e t
    by (simp add: body_of_def demo_failing_worker_def demo_worker_def demo_codec_def demo_request_def)
  then show ?thesis
    using handle_failure_dispatched [OF faults demo_encodes(2) demo_found demo_claimable run refl] topic job
    by (auto simp: RetryTopic_texts published_def broker jid)
qed

section \<open>A run that succeeds\<close>

lemma recordRuns_ok:
  "h_faults h = [] \<Longrightarrow> recordRuns wk job rep h =
     h\<lparr>h_store := (h_store h)\<lparr>db_runs := db_runs (h_store h) @ map (\<lambda>r. (now_of wk h, r)) (runs_to_record wk job rep)\<rparr>\<rparr>"
proof -
  have "fold (record_op wk) rs h =
      h\<lparr>h_store := (h_store h)\<lparr>db_runs := db_runs (h_store h) @ map (\<lambda>r. (now_of wk h, r)) rs\<rparr>\<rparr>" if "h_faults h = []" for rs h
    using that by (induction rs arbitrary: h) (simp_all add: record_op_def store_op_Done RecordRun_def now_of_def)
  then show "h_faults h = [] \<Longrightarrow> ?thesis" by (simp add: recordRuns_def)
qed

lemma find_job_runs [simp]: "find_job jid (db\<lparr>db_runs := rs\<rparr>) = find_job jid db"
  by (simp add: find_job_def)

lemma db_runs_update_job [simp]: "db_runs (update_job jid f db) = db_runs db"
  by (simp add: update_job_def)

lemma handle_success:
  assumes "h_faults h = []" and j: "find_job (q_job req) (h_store h) = Some j" "claimable j"
    and run: "Run (wk_opt wk) (j_sql j) (h_world h) = (Inr rep, w)" and raw: "wk_marshal wk rep = Inr raw"
    and job: "job = claimed (now_of wk h) j" and t: "t = op_clock (wk_opt wk) w"
  shows "find_job (q_job req) (h_store (handle wk req h)) =
      Some (completed t raw (br_median (rp_baseline rep)) (best_ms_of rep) (improvement_of rep)
        (milliseconds (t - now_of wk h)) job) \<and>
    db_runs (h_store (handle wk req h)) = db_runs (h_store h) @ map (\<lambda>r. (t, r)) (runs_to_record wk job rep) \<and>
    h_broker (handle wk req h) = h_broker h \<and> h_world (handle wk req h) = w"
proof -
  let ?db = "update_job (q_job req) (claimed (now_of wk h)) (h_store h)"
  let ?h1 = "h\<lparr>h_store := ?db, h_world := w\<rparr>"
  have jid: "j_id job = q_job req" using j_id_claimed_found [OF j(1)] job by simp
  have found: "find_job (q_job req) ?db = Some job" using j(1) job by (simp add: find_job_update)
  have "j_sql job = j_sql j" by (simp add: claimed_def job)
  then have "handle wk req h = complete_op wk job (now_of wk h) rep (recordRuns wk job rep ?h1)"
    using claim_ok [OF assms(1) j, of "now_of wk h"] run by (simp add: handle_def job now_of_def)
  then show ?thesis using found
    by (auto simp: recordRuns_ok assms(1) complete_op_def store_op_Done CompleteJob_def raw now_of_def t jid find_job_update)
qed

text \<open>
  A run that succeeds is recorded.  When no remote call fails and the report can be marshalled, the
  job is \<open>succeeded\<close> with the report, the baseline and the best verified timing; the history gains the
  baseline and one row for each accepted candidate, in that order; and no message is published.
\<close>
theorem handle_success_recorded:
  assumes "h_faults h = []" and j: "find_job (q_job req) (h_store h) = Some j" "claimable j"
    and run: "Run (wk_opt wk) (j_sql j) (h_world h) = (Inr rep, w)" and raw: "wk_marshal wk rep = Inr raw"
    and job: "job = claimed (now_of wk h) j" and t: "t = op_clock (wk_opt wk) w"
  shows "find_job (q_job req) (h_store (handle wk req h)) =
      Some (completed t raw (br_median (rp_baseline rep)) (best_ms_of rep) (improvement_of rep)
        (milliseconds (t - now_of wk h)) job) \<and>
    db_runs (h_store (handle wk req h)) = db_runs (h_store h) @ map (\<lambda>r. (t, r)) (runs_to_record wk job rep) \<and>
    h_broker (handle wk req h) = h_broker h \<and> h_world (handle wk req h) = w"
  by (rule handle_success [OF assms])

lemma handle_success_recorded_witness:
  "\<exists>j'. find_job ''job-1'' (h_store (handle demo_worker demo_request demo_host)) = Some j' \<and> j_status j' = StatusSucceeded"
proof -
  let ?j = "job_row ''job-1'' 0 demo_new_job"
  obtain rep w where "Run demo_optimizer ''SELECT 1'' 0 = (Inr rep, w)" using demo_run by blast
  then have run: "Run (wk_opt demo_worker) (j_sql ?j) (h_world demo_host) = (Inr rep, w)"
    by (simp add: demo_worker_def demo_host_def job_row_def demo_new_job_def)
  have faults: "h_faults demo_host = []" and jid: "q_job demo_request = ''job-1''"
    by (simp_all add: demo_host_def demo_request_def)
  have raw: "wk_marshal demo_worker rep = Inr ''{}''" by (simp add: demo_worker_def)
  from handle_success_recorded [OF faults demo_found demo_claimable run raw refl refl] show ?thesis
    by (simp add: jid completed_def)
qed

section \<open>Jobs and messages that get lost\<close>

text \<open>
  A job whose worker died is not rescued.  Take a job that a worker claimed at \<open>t\<close> and never
  finished, and its message, which is delivered again.  The delivery finds the job running, drops the
  message and commits it.  When the lease has run out the job is moved to \<open>retrying\<close>, but nothing
  publishes a message for it: the broker is as before, and the consumer stands behind the message.
\<close>
theorem reclaimed_job_stranded:
  assumes faults: "h_faults h = []" and j: "find_job (q_job req) (h_store h) = Some j"
    and running: "j_status j = StatusRunning" "j_started j = Some t" "j_attempts j < j_max_attempts j"
    and fetch: "Fetch (wk_codec wk) (h_broker h) c = Some (Inr (offset, req), c1)"
    and step: "consumeMain_step wk c h = (c2, h2)"
    and lease: "t < now_of wk h - whole_seconds (lease_time (wk_cfg wk))"
  shows "cn_position c2 = Suc (cn_position c) \<and> cn_committed c2 = Suc offset \<and>
    h_broker (reclaim_step wk h2) = h_broker h \<and> h_world (reclaim_step wk h2) = h_world h \<and>
    (\<exists>j'. find_job (q_job req) (h_store (reclaim_step wk h2)) = Some j' \<and> j_status j' = StatusRetrying)"
proof -
  have held: "held t (find_job (q_job req) (h_store h))" using j running by (simp add: held_def)
  have "handle wk req h = h"
    using ClaimJob_excludes [OF held] faults by (simp add: handle_def store_op_Done)
  then have 2: "c2 = Commit offset c1" "h2 = h\<lparr>h_faults := tl (h_faults h)\<rparr>"
    using step fetch faults by (auto simp: consumeMain_step_def commit_op_def)
  have h2: "h2 = h" using 2(2) faults by simp
  have "stale (now_of wk h) (lease_time (wk_cfg wk)) j" using running lease by (simp add: stale_def)
  then have "find_job (q_job req) (h_store (reclaim_step wk h)) = Some (reclaimed (now_of wk h) j)"
    using j find_job_ReclaimStale [of "q_job req" "now_of wk h" "lease_time (wk_cfg wk)" "h_store h"]
    by (simp add: reclaim_step_def store_op_Done faults split_beta)
  moreover have "h_broker (reclaim_step wk h) = h_broker h" "h_world (reclaim_step wk h) = h_world h"
    by (simp_all add: reclaim_step_def store_op_Done faults)
  moreover have "j_status (reclaimed (now_of wk h) j) = StatusRetrying"
    using running(3) by (simp add: reclaimed_def failed_status_def)
  ultimately show ?thesis using Fetch_position [OF fetch] 2(1) by (simp add: h2 Commit_def)
qed

lemma reclaimed_job_stranded_witness:
  "\<exists>c h j'. h_broker (reclaim_step demo_worker (snd (consumeMain_step demo_worker c h))) ''sql'' = [''job-1''] \<and>
     cn_committed (fst (consumeMain_step demo_worker c h)) = 1 \<and>
     find_job ''job-1'' (h_store (reclaim_step demo_worker (snd (consumeMain_step demo_worker c h)))) = Some j' \<and>
     j_status j' = StatusRetrying"
proof -
  let ?j = "claimed 0 (job_row ''job-1'' 0 demo_new_job)"
  let ?c = "NewConsumer ''sql'' 0" and ?h = "demo_host\<lparr>h_store := update_job ''job-1'' (claimed 0) demo_store,
      h_broker := (\<lambda>t. [])(''sql'' := [''job-1'']), h_world := 3 * 10 ^ 12\<rparr>"
  let ?req = "\<lparr>q_job = ''job-1'', q_sql = '''', q_attempt = 1, q_not_before = 0, q_last_error = '''', q_enqueued = 0\<rparr>"
  obtain c2 h2 where step: "consumeMain_step demo_worker ?c ?h = (c2, h2)" by fastforce
  have faults: "h_faults ?h = []" by (simp add: demo_host_def)
  have j: "find_job (q_job ?req) (h_store ?h) = Some ?j" using demo_store_row by (simp add: find_job_update)
  have running: "j_status ?j = StatusRunning" "j_started ?j = Some 0" "j_attempts ?j < j_max_attempts ?j"
    by (simp_all add: claimed_def job_row_def demo_new_job_def)
  have fetch: "Fetch (wk_codec demo_worker) (h_broker ?h) ?c = Some (Inr (0, ?req), ?c\<lparr>cn_position := Suc 0\<rparr>)"
    by (simp add: Fetch_def NewConsumer_def demo_worker_def demo_codec_def)
  have lease: "0 < now_of demo_worker ?h - whole_seconds (lease_time (wk_cfg demo_worker))"
    by (simp add: now_of_def demo_worker_def demo_optimizer_def demo_config_def lease_time_def wrap64_def read_env_def envDur_def env_parsed_def
        whole_seconds_def go_quot_def second_def)
  from reclaimed_job_stranded [OF faults j running fetch step lease] step show ?thesis
    by (intro exI [of _ ?c] exI [of _ ?h]) auto
qed

text \<open>
  A retry message is lost when it cannot be republished.  The consumer of a retry topic leaves the
  message uncommitted and goes on; when the next message is republished and committed, the committed
  offset is behind both, so the first is never delivered again, and the job topic has only the second.
\<close>
theorem consumeRetry_loses_message:
  assumes faults: "h_faults h = [Lost]" and enc: "encodes wk" and main: "cn_topic c \<noteq> JobTopic (wk_cfg wk)"
    and m1: "Fetch (wk_codec wk) (h_broker h) c = Some (Inr (i, req1), c1)" "q_not_before req1 \<le> now_of wk h"
    and m2: "Fetch (wk_codec wk) (h_broker h) c1 = Some (Inr (k, req2), c2)" "q_not_before req2 \<le> now_of wk h"
    and s1: "consumeRetry_step wk c h = (d1, h1)" and s2: "consumeRetry_step wk d1 h1 = (d2, h2)"
  shows "cn_committed d1 = cn_committed c \<and> cn_committed d2 = Suc k \<and> i < k \<and>
    h_broker h2 = published wk (JobTopic (wk_cfg wk)) (req2\<lparr>q_not_before := zero_time\<rparr>) (h_broker h)"
proof -
  have c1: "c1 = c\<lparr>cn_position := Suc (cn_position c)\<rparr>" "i = cn_position c"
    using m1(1) by (auto simp: Fetch_def Let_def split: if_splits sum.splits)
  have k: "k = Suc i" "c2 = c1\<lparr>cn_position := Suc k\<rparr>"
    using m2(1) c1 by (auto simp: Fetch_def Let_def split: if_splits sum.splits)
  have 1: "d1 = c1" "h1 = h\<lparr>h_faults := []\<rparr>"
    using s1 m1 faults
    by (auto simp: consumeRetry_step_def wait_until_def publish_op_def send_op_def next_outcome_def remote_def)
  have b: "h_broker h1 = h_broker h" "now_of wk h1 = now_of wk h" "h_faults h1 = []"
    by (simp_all add: 1(2) now_of_def)
  then have "(d2, h2) = commit_op k c2 (h1\<lparr>h_broker := published wk (JobTopic (wk_cfg wk)) (req2\<lparr>q_not_before := zero_time\<rparr>) (h_broker h)\<rparr>)"
    using s2 m2 1(1) by (simp add: consumeRetry_step_def wait_until_def publish_op_ok enc)
  then have "d2 = Commit k c2" "h_broker h2 = published wk (JobTopic (wk_cfg wk)) (req2\<lparr>q_not_before := zero_time\<rparr>) (h_broker h)"
    using b(3) by (simp_all add: commit_op_def)
  then show ?thesis using 1(1) c1 k by (simp add: Commit_def)
qed

lemma consumeRetry_loses_message_witness:
  "\<exists>d1 h1 d2 h2. consumeRetry_step demo_worker (NewConsumer ''r'' 0)
       (demo_host\<lparr>h_broker := (\<lambda>t. [])(''r'' := [''job-1'', ''job-2'']), h_faults := [Lost]\<rparr>) = (d1, h1) \<and>
     consumeRetry_step demo_worker d1 h1 = (d2, h2) \<and> cn_committed d2 = 2"
proof -
  let ?h = "demo_host\<lparr>h_broker := (\<lambda>t. [])(''r'' := [''job-1'', ''job-2'']), h_faults := [Lost]\<rparr>"
  let ?c = "NewConsumer ''r'' 0"
  let ?req = "\<lambda>s. \<lparr>q_job = s, q_sql = '''', q_attempt = 1, q_not_before = 0, q_last_error = '''', q_enqueued = 0\<rparr>"
  obtain d1 h1 d2 h2 where s: "consumeRetry_step demo_worker ?c ?h = (d1, h1)" "consumeRetry_step demo_worker d1 h1 = (d2, h2)"
    by fastforce
  have topic: "cn_topic ?c \<noteq> JobTopic (wk_cfg demo_worker)"
    by (simp add: NewConsumer_def demo_worker_def demo_config_def read_env_def env_def trim_space_def trim_func_def
        trim_left_def)
  have f1: "Fetch (wk_codec demo_worker) (h_broker ?h) ?c = Some (Inr (0, ?req ''job-1''), ?c\<lparr>cn_position := 1\<rparr>)"
    and f2: "Fetch (wk_codec demo_worker) (h_broker ?h) (?c\<lparr>cn_position := 1\<rparr>) =
      Some (Inr (1, ?req ''job-2''), ?c\<lparr>cn_position := 2\<rparr>)"
    by (simp_all add: Fetch_def NewConsumer_def demo_worker_def demo_codec_def)
  have past: "q_not_before (?req x) \<le> now_of demo_worker ?h" for x
    by (simp add: now_of_def demo_worker_def demo_optimizer_def)
  have "cn_committed d2 = Suc 1"
    using consumeRetry_loses_message [OF _ demo_encodes(1) topic f1 past f2 past s] by simp
  then show ?thesis using s by fastforce
qed

text \<open>
  A retry is not delivered early.  When waiting lets at least the asked time pass, one turn of a
  retry consumer either leaves the broker as it was, or puts the message on the job topic, with its
  \<open>NotBefore\<close> cleared, at a time that is not before it.
\<close>
theorem consumeRetry_waits:
  assumes sleep: "\<And>d w. 0 < d \<Longrightarrow> op_clock (wk_opt wk) w + d \<le> op_clock (wk_opt wk) (wk_sleep wk d w)"
    and "encodes wk" and fetch: "Fetch (wk_codec wk) (h_broker h) c = Some (Inr (i, req), c1)"
    and step: "consumeRetry_step wk c h = (d, h1)"
  shows "h_broker h1 = h_broker h \<or>
    h_broker h1 = published wk (JobTopic (wk_cfg wk)) (req\<lparr>q_not_before := zero_time\<rparr>) (h_broker h) \<and>
    q_not_before req \<le> now_of wk h1"
proof -
  let ?h = "wait_until wk (q_not_before req) h"
  let ?req = "req\<lparr>q_not_before := zero_time\<rparr>"
  have late: "q_not_before req \<le> now_of wk ?h"
    using sleep [of "q_not_before req - now_of wk h" "h_world h"] by (auto simp: wait_until_def sleep_for_def now_of_def)
  have same: "h_broker ?h = h_broker h" by (simp add: wait_until_def sleep_for_def)
  have enc: "encode_request (wk_codec wk) ?req = Inr (body_of wk ?req)"
    using assms(2) by (auto simp: encodes_def body_of_def is_ok_iff split: sum.split) (metis Inl_Inr_False)
  obtain r h2 where p: "publish_op wk (JobTopic (wk_cfg wk)) ?req ?h = (r, h2)" by fastforce
  then have "h_broker h2 = h_broker h \<or> h_broker h2 = published wk (JobTopic (wk_cfg wk)) ?req (h_broker h)"
    by (auto simp: publish_op_def send_op_def remote_def Publish_def enc published_def same split: outcome.splits)
  moreover have "h_world h2 = h_world ?h" using publish_op_frame(1) [OF p] .
  moreover have "h_broker h1 = h_broker h2 \<and> h_world h1 = h_world h2"
    using step fetch p by (auto simp: consumeRetry_step_def commit_op_def split: sum.splits)
  ultimately show ?thesis using late by (simp add: now_of_def)
qed

lemma consumeRetry_waits_witness:
  "h_broker (snd (consumeRetry_step demo_worker (NewConsumer ''r'' 0)
     (demo_host\<lparr>h_broker := (\<lambda>t. [])(''r'' := [''job-1''])\<rparr>))) ''r'' = [''job-1'']"
proof -
  let ?h = "demo_host\<lparr>h_broker := (\<lambda>t. [])(''r'' := [''job-1''])\<rparr>"
  let ?req = "\<lparr>q_job = ''job-1'', q_sql = '''', q_attempt = 1, q_not_before = 0, q_last_error = '''', q_enqueued = 0\<rparr>"
  obtain d h1 where s: "consumeRetry_step demo_worker (NewConsumer ''r'' 0) ?h = (d, h1)" by fastforce
  have f: "Fetch (wk_codec demo_worker) (h_broker ?h) (NewConsumer ''r'' 0) =
      Some (Inr (0, ?req), (NewConsumer ''r'' 0)\<lparr>cn_position := 1\<rparr>)"
    by (simp add: Fetch_def NewConsumer_def demo_worker_def demo_codec_def)
  have law: "0 < e \<Longrightarrow> op_clock (wk_opt demo_worker) w + e \<le> op_clock (wk_opt demo_worker) (wk_sleep demo_worker e w)" for e w
    by (simp add: demo_worker_def demo_optimizer_def)
  have topic: "JobTopic (wk_cfg demo_worker) = ''sql.optimize.requested''"
    by (simp add: demo_worker_def demo_config_def read_env_def env_def trim_space_def trim_func_def trim_left_def)
  show ?thesis using consumeRetry_waits [OF law demo_encodes(1) f s] s topic by (auto simp: published_def)
qed


text \<open>
  A timeout above half of what a \<open>time.Duration\<close> holds makes the lease negative, because the product
  wraps: then the reclaim loop takes a job from its worker in the moment that it was claimed.  The
  configuration accepts such a timeout.
\<close>
theorem lease_overflow_reclaims:
  assumes "2 ^ 62 \<le> JobTimeout cfg" and "JobTimeout cfg \<le> 2 ^ 63 - second"
    and "find_job jid db = Some j" and "claimable j"
  shows "lease_time cfg < 0 \<and>
    find_job jid (snd (ReclaimStale now (lease_time cfg) (snd (ClaimJob now jid db)))) = Some (reclaimed now (claimed now j))"
proof -
  have lease: "lease_time cfg = 2 * JobTimeout cfg - 2 ^ 64" unfolding lease_time_def
    by (rule wrap64_over) (use assms(1,2) in \<open>simp_all add: second_def\<close>)
  then have neg: "lease_time cfg \<le> - (2 * second)" using assms(2) by (simp add: second_def)
  then have "\<bar>lease_time cfg\<bar> div second \<ge> 2" using zdiv_mono1 [of "2 * second" "\<bar>lease_time cfg\<bar>" second] by (simp add: second_def)
  then have "whole_seconds (lease_time cfg) < 0" using neg by (simp add: whole_seconds_def go_quot_def second_def sgn_if)
  then have "stale now (lease_time cfg) (claimed now j)" by (simp add: stale_def claimed_def)
  then show ?thesis using neg assms(3,4) by (simp add: find_job_events second_def)
qed

lemma lease_overflow_reclaims_witness:
  "\<exists>cfg. Load (\<lambda>k. if k = ''JOB_TIMEOUT'' then ''2000000h'' else '''') = Inr cfg \<and> lease_time cfg < 0"
proof -
  let ?env = "\<lambda>k. if k = ''JOB_TIMEOUT'' then ''2000000h'' else ''''"
  have e: "duration_element ''2000000h'' = Some (2000000 * 3600000000000, '''')"
    by (simp add: duration_element_def fraction_part_def is_digit_def char_code_def digits_value_def unit_char_def
        duration_unit_def)
  have t: "trim_space ''2000000h'' = ''2000000h''" "split_sign ''2000000h'' = (False, ''2000000h'')" by code_simp+
  have p: "go_parse_duration (trim_space ''2000000h'') = Some (2000000 * 3600 * second)"
    unfolding t go_parse_duration_def
    by (subst duration_loop.simps, simp add: e, subst duration_loop.simps) (simp add: second_def)
  have "Load ?env = Inr (read_env ?env)" "JobTimeout (read_env ?env) = 2000000 * 3600 * second"
    by (simp_all add: Load_Inr read_env_def envInt_def envFloat_def envDur_def env_parsed_def p)
  then show ?thesis using lease_overflow_reclaims [of "read_env ?env" "''job-1''" demo_store _ 0] demo_store_row demo_claimable
    by (auto simp: second_def)
qed

end
