(* ===== verification/Api.thy ===== *)
theory Api
  imports Host Config Sqlparse Engine_Open
begin

text \<open>
  \<open>internal/api/server.go\<close>: the HTTP handlers.  A handler takes the decoded request (the result of
  decoding at most 1 MiB of the body, or the query parameters) and returns a status with a body.
  Routing by method and path is that of \<open>net/http\<close>; of the request log, what it records is kept.
\<close>

section \<open>Requests and responses\<close>

record create_request =
  cr_sql :: string
  cr_key :: string

record create_response =
  ce_job_id :: string
  ce_status :: string
  ce_fingerprint :: string
  ce_deduped :: bool
  ce_status_url :: string

record analysis_response =
  ay_fingerprint :: string
  ay_normalized :: string
  ay_tables :: "string list"
  ay_output_columns :: "string list"
  ay_select_star :: bool
  ay_has_order_by :: bool
  ay_has_limit :: bool

datatype response_body =
    ErrorBody string
  | CreatedBody create_response
  | AnalysisBody analysis_response
  | JobBody job
  | JobsBody "job list"
  | HistoryBody history
  | StatusBody string
  | DegradedBody string
  | HealthBody int

type_synonym response = "int \<times> response_body"

section \<open>The server\<close>

text \<open>
  \<open>parse_uuid\<close> is \<open>uuid.Parse\<close>, in the canonical form; \<open>sv_clock\<close> reads the time.
\<close>

record 'w api_server =
  sv_cfg :: config
  sv_parsers :: parsers
  sv_codec :: codec
  parse_uuid :: "string \<Rightarrow> string result"
  sv_clock :: "'w \<Rightarrow> int"
  sv_started :: int

definition api_dialect :: "config \<Rightarrow> sql_dialect" where
  "api_dialect cfg =
     (if TargetDialect cfg \<noteq> '''' then TargetDialect cfg
      else case DialectForDSN (TargetDSN cfg) of Inr d \<Rightarrow> d | Inl err \<Rightarrow> DialectPostgres)"

definition status_for :: "go_error \<Rightarrow> int" where
  "status_for err = (if errors_is err ErrNotReadOnly then 422 else 400)"

definition idempotency_key :: "create_request \<Rightarrow> statement \<Rightarrow> string" where
  "idempotency_key req st = (if cr_key req = '''' then ''sql:'' @ st_sql st else cr_key req)"

definition submission :: "config \<Rightarrow> create_request \<Rightarrow> statement \<Rightarrow> new_job" where
  "submission cfg req st =
     \<lparr>nj_id = '''', nj_key = idempotency_key req st, nj_sql = st_sql st, nj_fingerprint = st_fingerprint st,
      nj_max_attempts = MaxDeliveryAttempt cfg\<rparr>"

definition first_message :: "int \<Rightarrow> job \<Rightarrow> optimize_request" where
  "first_message now job =
     \<lparr>q_job = j_id job, q_sql = j_sql job, q_attempt = 1, q_not_before = zero_time,
      q_last_error = '''', q_enqueued = now\<rparr>"

definition created_response :: "job \<Rightarrow> bool \<Rightarrow> response" where
  "created_response job created =
     (if created then 202 else 200,
      CreatedBody \<lparr>ce_job_id = j_id job, ce_status = status_text (j_status job), ce_fingerprint = j_fingerprint job,
        ce_deduped = (\<not> created), ce_status_url = ''/v1/optimizations/'' @ j_id job\<rparr>)"

text \<open>\<open>new_id\<close> is the identifier that \<open>uuid.New\<close> would return.\<close>

definition createOptimization ::
    "'w api_server \<Rightarrow> string \<Rightarrow> create_request result \<Rightarrow> 'w host \<Rightarrow> response \<times> 'w host" where
  "createOptimization sv new_id body h =
     (case body of
        Inl err \<Rightarrow> ((400, ErrorBody (''malformed JSON body: '' @ err_text err)), h)
      | Inr req \<Rightarrow>
          case ParseDialect (sv_parsers sv) (cr_sql req) (api_dialect (sv_cfg sv)) of
            Inl err \<Rightarrow> ((status_for err, ErrorBody (err_text err)), h)
          | Inr st \<Rightarrow>
              case store_op (CreateJob new_id (sv_clock sv (h_world h)) (submission (sv_cfg sv) req st)) h of
                (Inl err, h1) \<Rightarrow> ((500, ErrorBody ''could not create job''), h1)
              | (Inr (job, created), h1) \<Rightarrow>
                  if \<not> created then (created_response job False, h1)
                  else case send_op (sv_codec sv) (JobTopic (sv_cfg sv)) (first_message (sv_clock sv (h_world h1)) job) h1 of
                      (Inl err, h2) \<Rightarrow> ((503, ErrorBody ''job recorded but could not be queued; it will be retried''), h2)
                    | (Inr _, h2) \<Rightarrow> (created_response job True, h2))"

definition analyzeOnly :: "'w api_server \<Rightarrow> create_request result \<Rightarrow> response" where
  "analyzeOnly sv body =
     (case body of
        Inl err \<Rightarrow> (400, ErrorBody ''malformed JSON body'')
      | Inr req \<Rightarrow>
          case ParseDialect (sv_parsers sv) (cr_sql req) (api_dialect (sv_cfg sv)) of
            Inl err \<Rightarrow> (status_for err, ErrorBody (err_text err))
          | Inr st \<Rightarrow>
              (200, AnalysisBody \<lparr>ay_fingerprint = st_fingerprint st, ay_normalized = st_normalized st,
                 ay_tables = map Qualified (st_tables st), ay_output_columns = st_output_cols st,
                 ay_select_star = st_select_star st, ay_has_order_by = st_has_order_by st,
                 ay_has_limit = st_has_limit st\<rparr>))"

definition getOptimization :: "'w api_server \<Rightarrow> string \<Rightarrow> 'w host \<Rightarrow> response \<times> 'w host" where
  "getOptimization sv path_id h =
     (case parse_uuid sv path_id of
        Inl err \<Rightarrow> ((400, ErrorBody ''invalid job id''), h)
      | Inr jid \<Rightarrow>
          case store_op (\<lambda>db. (JobByID jid db, db)) h of
            (Inl err, h1) \<Rightarrow>
              (if errors_is err ErrNotFound then (404, ErrorBody ''no such job'') else (500, ErrorBody (err_text err)), h1)
          | (Inr job, h1) \<Rightarrow> ((200, JobBody job), h1))"

text \<open>A limit that is not a number is zero; one out of range is larger than any that \<open>ListJobs\<close> takes.\<close>

definition listOptimizations :: "string \<Rightarrow> string \<Rightarrow> 'w host \<Rightarrow> response \<times> 'w host" where
  "listOptimizations status limit_text h =
     (let n = (case go_atoi limit_text of Some n \<Rightarrow> n | None \<Rightarrow> 0) in
      case store_op (\<lambda>db. (Inr (ListJobs status n db), db)) h of
        (Inl err, h1) \<Rightarrow> ((500, ErrorBody (err_text err)), h1)
      | (Inr jobs, h1) \<Rightarrow> ((200, JobsBody (map (\<lambda>j. j\<lparr>j_report := None\<rparr>) jobs)), h1))"

definition api_history :: "'w api_server \<Rightarrow> string \<Rightarrow> string \<Rightarrow> 'w host \<Rightarrow> response \<times> 'w host" where
  "api_history sv fingerprint_text sql h =
     (case (if sql \<noteq> '''' then map_sum (\<lambda>err. err) st_fingerprint (ParseDialect (sv_parsers sv) sql (api_dialect (sv_cfg sv)))
            else Inr fingerprint_text) of
        Inl err \<Rightarrow> ((400, ErrorBody (err_text err)), h)
      | Inr fingerprint \<Rightarrow>
          if fingerprint = '''' then ((400, ErrorBody ''provide fingerprint or sql''), h)
          else case store_op (\<lambda>db. (Inr (HistoryFor (sv_clock sv (h_world h)) fingerprint db), db)) h of
              (Inl err, h1) \<Rightarrow> ((500, ErrorBody (err_text err)), h1)
            | (Inr hist, h1) \<Rightarrow> ((200, HistoryBody hist), h1))"

definition readyz :: "'w host \<Rightarrow> response \<times> 'w host" where
  "readyz h =
     (case store_op (\<lambda>db. (Inr (), db)) h of
        (Inl err, h1) \<Rightarrow> ((503, DegradedBody (err_text err)), h1)
      | (Inr _, h1) \<Rightarrow> ((200, StatusBody ''ready''), h1))"

section \<open>Routing\<close>

text \<open>
  What \<open>ServeMux\<close> makes of \<open>Routes\<close>: a pattern with GET also serves HEAD, a path that only other
  methods serve is answered with 405, any other path with 404.  A request carries its path by segments,
  the query parameters (empty when absent) and the decoded body.
\<close>

datatype http_method = GET | HEAD | POST | OTHER

record http_request =
  hr_method :: http_method
  hr_path :: "string list"
  hr_query :: "string \<Rightarrow> string"
  hr_body :: "create_request result"

text \<open>\<open>healthz\<close> answers with the uptime in whole seconds.\<close>

definition healthz :: "'w api_server \<Rightarrow> 'w host \<Rightarrow> response" where
  "healthz sv h = (200, HealthBody (go_quot (sv_clock sv (h_world h) - sv_started sv) second))"

definition serve :: "'w api_server \<Rightarrow> string \<Rightarrow> http_request \<Rightarrow> 'w host \<Rightarrow> response \<times> 'w host" where
  "serve sv new_id r h =
     (let reads = (hr_method r = GET \<or> hr_method r = HEAD); writes = (hr_method r = POST);
          refused = ((405, StatusBody ''Method Not Allowed''), h) in
      case hr_path r of
        [v, name] \<Rightarrow>
          if v = ''v1'' \<and> name = ''optimizations'' then
            if writes then createOptimization sv new_id (hr_body r) h
            else if reads then listOptimizations (hr_query r ''status'') (hr_query r ''limit'') h
            else refused
          else if v = ''v1'' \<and> name = ''analyze'' then if writes then (analyzeOnly sv (hr_body r), h) else refused
          else if v = ''v1'' \<and> name = ''history'' then
            if reads then api_history sv (hr_query r ''fingerprint'') (hr_query r ''sql'') h else refused
          else ((404, StatusBody ''404 page not found''), h)
      | [v, name, path_id] \<Rightarrow>
          if v = ''v1'' \<and> name = ''optimizations'' \<and> path_id \<noteq> '''' then
            if reads then getOptimization sv path_id h else refused
          else ((404, StatusBody ''404 page not found''), h)
      | [name] \<Rightarrow>
          if name = ''healthz'' then if reads then (healthz sv h, h) else refused
          else if name = ''readyz'' then if reads then readyz h else refused
          else ((404, StatusBody ''404 page not found''), h)
      | _ \<Rightarrow> ((404, StatusBody ''404 page not found''), h))"

section \<open>The request log\<close>

text \<open>
  \<open>statusRecorder\<close> keeps the status that was written last, 200 before any; every handler writes one.
\<close>

record log_entry =
  le_method :: http_method
  le_path :: "string list"
  le_status :: int
  le_duration :: int

definition recorded_status :: "int list \<Rightarrow> int" where
  "recorded_status codes = fold (\<lambda>code status. code) codes 200"

definition withLogging :: "'w api_server \<Rightarrow> string \<Rightarrow> http_request \<Rightarrow> 'w host \<Rightarrow> (response \<times> log_entry) \<times> 'w host" where
  "withLogging sv new_id r h =
     (case serve sv new_id r h of
        (resp, h1) \<Rightarrow>
          ((resp, \<lparr>le_method = hr_method r, le_path = hr_path r, le_status = recorded_status [fst resp],
             le_duration = milliseconds (sv_clock sv (h_world h1) - sv_clock sv (h_world h))\<rparr>), h1))"

text \<open>The log is transparent: the answer and the effect are those of the handler, the status is the answer's.\<close>

lemma withLogging_transparent:
  "withLogging sv new_id r h = ((resp, le), h1) \<Longrightarrow> serve sv new_id r h = (resp, h1) \<and> le_status le = fst resp"
  by (auto simp: withLogging_def recorded_status_def split: prod.splits)

end
