(* ===== verification/Api_Facts.thy ===== *)
theory Api_Facts
  imports Api Store_Facts Verify_Facts
begin

text \<open>
  What a submission does: what is stored and queued when it is accepted, that nothing happens when it
  is refused, and the two ways in which a submission goes wrong.
\<close>

lemma CreateJob_created:
  assumes "CreateJob new_id now nj db = (Inr (job, True), db1)"
  shows "job = job_row new_id now nj" and "find_job (j_id job) db1 = Some job" and "db_runs db1 = db_runs db"
    and "length (db_jobs db1) = Suc (length (db_jobs db))"
  using assms
  by (auto simp: CreateJob_def Let_def find_job_def find_None_iff split: option.splits if_splits)
    (auto simp: find_Some_iff nth_append intro!: exI [of _ "length (db_jobs db)"] dest: nth_mem)

lemma createOptimization_202:
  assumes "createOptimization sv new_id body h = ((202, b), h1)"
  shows "\<exists>req st job msg. body = Inr req \<and> ParseDialect (sv_parsers sv) (cr_sql req) (api_dialect (sv_cfg sv)) = Inr st \<and>
    job = job_row new_id (sv_clock sv (h_world h)) (submission (sv_cfg sv) req st) \<and> (202, b) = created_response job True \<and>
    h_world h1 = h_world h \<and> find_job (j_id job) (h_store h1) = Some job \<and> j_status job = StatusQueued \<and> j_sql job = st_sql st \<and>
    length (db_jobs (h_store h1)) = Suc (length (db_jobs (h_store h))) \<and>
    encode_request (sv_codec sv) (first_message (sv_clock sv (h_world h)) job) = Inr msg \<and>
    h_broker h1 = (h_broker h)(JobTopic (sv_cfg sv) := h_broker h (JobTopic (sv_cfg sv)) @ [msg])"
proof -
  obtain req where req: "body = Inr req" using assms by (cases body) (auto simp: createOptimization_def)
  obtain st where st: "ParseDialect (sv_parsers sv) (cr_sql req) (api_dialect (sv_cfg sv)) = Inr st"
    using assms req by (cases "ParseDialect (sv_parsers sv) (cr_sql req) (api_dialect (sv_cfg sv))")
      (auto simp: createOptimization_def status_for_def split: if_splits)
  let ?nj = "submission (sv_cfg sv) req st" and ?now = "sv_clock sv (h_world h)"
  obtain r h2 where s: "store_op (CreateJob new_id ?now ?nj) h = (r, h2)" by fastforce
  obtain job where r: "r = Inr (job, True)"
    using assms s by (auto simp: createOptimization_def req st created_response_def split: sum.splits if_splits)
  let ?msg = "first_message ?now job"
  have w: "h_world h2 = h_world h" "h_broker h2 = h_broker h" using store_op_frame(1,2) [OF s] by simp_all
  obtain x h3 where p: "send_op (sv_codec sv) (JobTopic (sv_cfg sv)) ?msg h2 = (x, h3)" by fastforce
  have x: "x = Inr ()" and h1: "h1 = h3"
    using assms s r p w(1) by (auto simp: createOptimization_def req st created_response_def split: sum.splits)
  note c = CreateJob_created [OF store_op_frame(4) [OF s r]]
  have "h_store h3 = h_store h2" using send_op_frame(2) [OF p] .
  moreover have "Publish (sv_codec sv) (JobTopic (sv_cfg sv)) ?msg (h_broker h) = (Inr (), h_broker h3)"
    using send_op_frame(4) [OF p x] w(2) by simp
  moreover have "j_status job = StatusQueued" "j_sql job = st_sql st"
    unfolding c(1) by (simp_all add: job_row_def submission_def)
  moreover have "(202, b) = created_response job True"
    using assms s r p w(1) x by (auto simp: createOptimization_def req st)
  moreover have "h_world h3 = h_world h2" using send_op_frame(1) [OF p] .
  ultimately show ?thesis using req st c(1,2,4) h1 w(1)
    by (auto simp: Publish_def split: sum.splits)
qed

text \<open>
  C19: what the status 202 promises.  A submission that is answered with 202 was parsed as a single
  read-only statement of the target's dialect; a new job for exactly that text is in the table,
  queued; and exactly one message, for that job, is on the job topic.
\<close>
theorem createOptimization_accepted:
  assumes "createOptimization sv new_id body h = ((202, b), h1)"
  shows "\<exists>req st job msg. body = Inr req \<and> ParseDialect (sv_parsers sv) (cr_sql req) (api_dialect (sv_cfg sv)) = Inr st \<and>
    find_job (j_id job) (h_store h1) = Some job \<and> j_status job = StatusQueued \<and> j_sql job = st_sql st \<and>
    length (db_jobs (h_store h1)) = Suc (length (db_jobs (h_store h))) \<and>
    encode_request (sv_codec sv) (first_message (sv_clock sv (h_world h)) job) = Inr msg \<and>
    h_broker h1 = (h_broker h)(JobTopic (sv_cfg sv) := h_broker h (JobTopic (sv_cfg sv)) @ [msg])"
  using createOptimization_202 [OF assms] by blast

text \<open>
  A statement that is refused leaves no trace.  When the text does not parse, or is not read-only,
  nothing is stored and nothing is queued; the status is 422 for a statement that parses and is not
  read-only, 400 otherwise.
\<close>
theorem createOptimization_refused:
  assumes "body = Inr req" and "ParseDialect (sv_parsers sv) (cr_sql req) (api_dialect (sv_cfg sv)) = Inl err"
  shows "createOptimization sv new_id body h =
    ((if errors_is err ErrNotReadOnly then 422 else 400, ErrorBody (err_text err)), h)"
  using assms by (simp add: createOptimization_def status_for_def)

definition demo_server :: "config \<Rightarrow> nat api_server" where
  "demo_server cfg = \<lparr>sv_cfg = cfg, sv_parsers = demo_parsers,
     sv_codec = \<lparr>encode_request = \<lambda>r. Inr (q_job r), decode_request = \<lambda>s. Inl (new_error ''unused'')\<rparr>,
     parse_uuid = Inr, sv_clock = int, sv_started = 0\<rparr>"

definition demo_api_config :: config where
  "demo_api_config = (read_env (\<lambda>k. ''''))\<lparr>TargetDialect := DialectPostgres, JobTopic := ''jobs''\<rparr>"

definition demo_api_host :: "nat host" where
  "demo_api_host = \<lparr>h_world = 0, h_store = empty_store, h_broker = (\<lambda>t. []), h_faults = []\<rparr>"

lemma demo_dialect: "api_dialect (sv_cfg (demo_server demo_api_config)) = DialectPostgres"
  by (simp add: demo_server_def demo_api_config_def api_dialect_def DialectPostgres_def)

lemma demo_submit_parse:
  obtains st where "ParseDialect (sv_parsers (demo_server demo_api_config)) ''SELECT 1''
    (api_dialect (sv_cfg (demo_server demo_api_config))) = Inr st"
proof -
  have "trim_space ''SELECT 1'' \<noteq> ''''" by code_simp
  then show ?thesis using demo_parse that unfolding demo_dialect by (auto simp: demo_server_def)
qed

lemma createOptimization_accepted_witness:
  "\<exists>b h1. createOptimization (demo_server demo_api_config) ''job-7'' (Inr \<lparr>cr_sql = ''SELECT 1'', cr_key = ''''\<rparr>)
       demo_api_host = ((202, b), h1) \<and> h_broker h1 ''jobs'' = [''job-7'']"
proof -
  let ?sv = "demo_server demo_api_config" and ?req = "\<lparr>cr_sql = ''SELECT 1'', cr_key = ''''\<rparr>"
  obtain st where st: "ParseDialect (sv_parsers ?sv) ''SELECT 1'' (api_dialect (sv_cfg ?sv)) = Inr st"
    by (rule demo_submit_parse)
  have "\<exists>b h1. createOptimization ?sv ''job-7'' (Inr ?req) demo_api_host = ((202, b), h1) \<and>
      length (db_jobs (h_store h1)) = 1 \<and> (\<forall>j \<in> set (db_jobs (h_store h1)). j_id j = ''job-7'')"
    using st by (simp add: createOptimization_def store_op_def send_op_def CreateJob_def demo_api_host_def empty_store_def
        find_job_def Publish_def demo_server_def created_response_def job_row_def submission_def Let_def)
  then obtain b h1 where run: "createOptimization ?sv ''job-7'' (Inr ?req) demo_api_host = ((202, b), h1)"
    and ids: "\<forall>j \<in> set (db_jobs (h_store h1)). j_id j = ''job-7''" by blast
  have "sv_codec ?sv = \<lparr>encode_request = \<lambda>r. Inr (q_job r), decode_request = \<lambda>s. Inl (new_error ''unused'')\<rparr>"
    "JobTopic (sv_cfg ?sv) = ''jobs''" "h_broker demo_api_host = (\<lambda>t. [])"
    by (simp_all add: demo_server_def demo_api_config_def demo_api_host_def)
  with createOptimization_accepted [OF run] ids have "h_broker h1 ''jobs'' = [''job-7'']"
    by (auto simp: first_message_def dest!: find_job_Some)
  with run show ?thesis by blast
qed

lemma createOptimization_refused_witness:
  "createOptimization (demo_server (demo_api_config\<lparr>TargetDialect := ''oracle''\<rparr>)) ''job-7''
     (Inr \<lparr>cr_sql = ''SELECT 1'', cr_key = ''''\<rparr>) demo_api_host =
   ((400, ErrorBody (''unknown dialect '' @ go_quote ''oracle'')), demo_api_host)"
proof -
  let ?sv = "demo_server (demo_api_config\<lparr>TargetDialect := ''oracle''\<rparr>)" and ?req = "\<lparr>cr_sql = ''SELECT 1'', cr_key = ''''\<rparr>"
  have "ParseDialect (sv_parsers ?sv) (cr_sql ?req) (api_dialect (sv_cfg ?sv)) =
      Inl (new_error (''unknown dialect '' @ go_quote ''oracle''))"
    by (simp add: demo_server_def api_dialect_def ParseDialect_def DialectMySQL_def DialectPostgres_def)
  from createOptimization_refused [OF refl this] show ?thesis by simp (simp add: new_error_def)
qed

text \<open>
  A submission whose message is not accepted by the broker is lost.  The answer 503 says that the
  job will be retried; but the job stays queued without a message, and when the client submits again it
  is told that the job exists, and nothing is published.
\<close>
theorem createOptimization_lost_job:
  assumes st: "ParseDialect (sv_parsers sv) (cr_sql req) (api_dialect (sv_cfg sv)) = Inr st"
    and fresh: "find (\<lambda>x. j_key x = idempotency_key req st) (db_jobs (h_store h)) = None"
      "find_job new_id (h_store h) = None"
    and faults: "h_faults h = [Done, Lost]"
    and s1: "createOptimization sv new_id (Inr req) h = ((status1, b1), h1)"
    and s2: "createOptimization sv new_id' (Inr req) h1 = ((status2, b2), h2)"
  shows "status1 = 503 \<and> status2 = 200 \<and> h_broker h2 = h_broker h \<and> h_store h2 = h_store h1 \<and>
    (\<exists>job. find_job new_id (h_store h2) = Some job \<and> j_status job = StatusQueued)"
proof -
  let ?nj = "submission (sv_cfg sv) req st" and ?now = "sv_clock sv (h_world h)"
  let ?job = "job_row new_id ?now ?nj"
  let ?db = "(h_store h)\<lparr>db_jobs := db_jobs (h_store h) @ [?job]\<rparr>"
  have job: "j_id ?job = new_id" "j_status ?job = StatusQueued" "nj_key ?nj = idempotency_key req st"
    by (simp_all add: job_row_def submission_def)
  have c: "CreateJob new_id ?now ?nj (h_store h) = (Inr (?job, True), ?db)"
    using fresh job by (simp add: CreateJob_def Let_def)
  have 1: "createOptimization sv new_id (Inr req) h =
      ((503, ErrorBody ''job recorded but could not be queued; it will be retried''), h\<lparr>h_store := ?db, h_faults := []\<rparr>)"
    using st c faults by (simp add: createOptimization_def store_op_def send_op_def next_outcome_def remote_def)
  have h1: "h1 = h\<lparr>h_store := ?db, h_faults := []\<rparr>" and "status1 = 503" using 1 s1 by simp_all
  have key: "find (\<lambda>x. j_key x = idempotency_key req st) (db_jobs ?db) = Some ?job"
    using CreateJob_key [OF c] job(3) by simp
  have "createOptimization sv new_id' (Inr req) h1 = (created_response ?job False, h1)"
    using st key job(3) by (simp add: createOptimization_def h1 store_op_Done CreateJob_def Let_def)
  then have "status2 = 200" "h2 = h1" using s2 by (simp_all add: created_response_def)
  moreover have "find_job new_id ?db = Some ?job" using CreateJob_created(2) [OF c] job(1) by simp
  ultimately show ?thesis using \<open>status1 = 503\<close> h1 job(2) by simp
qed

lemma createOptimization_lost_job_witness:
  "\<exists>b1 h1. createOptimization (demo_server demo_api_config) ''job-7'' (Inr \<lparr>cr_sql = ''SELECT 1'', cr_key = ''''\<rparr>)
       (demo_api_host\<lparr>h_faults := [Done, Lost]\<rparr>) = ((503, b1), h1)"
proof -
  let ?sv = "demo_server demo_api_config" and ?req = "\<lparr>cr_sql = ''SELECT 1'', cr_key = ''''\<rparr>"
  let ?h = "demo_api_host\<lparr>h_faults := [Done, Lost]\<rparr>"
  obtain st where st: "ParseDialect (sv_parsers ?sv) (cr_sql ?req) (api_dialect (sv_cfg ?sv)) = Inr st"
    using demo_submit_parse by auto
  obtain s1 b1 h1 s2 b2 h2 where runs: "createOptimization ?sv ''job-7'' (Inr ?req) ?h = ((s1, b1), h1)"
    "createOptimization ?sv ''job-8'' (Inr ?req) h1 = ((s2, b2), h2)" by (metis surj_pair)
  have "find (\<lambda>x. j_key x = idempotency_key ?req st) (db_jobs (h_store ?h)) = None"
    "find_job ''job-7'' (h_store ?h) = None" "h_faults ?h = [Done, Lost]"
    by (simp_all add: demo_api_host_def empty_store_def find_job_def)
  from createOptimization_lost_job [OF st this runs] runs show ?thesis by auto
qed

text \<open>
  The API and the engine read \<open>TARGET_DIALECT\<close> differently.  With the spelling \<open>postgresql\<close>, which
  \<open>engine.Open\<close> accepts, the API refuses every statement with status 400.
\<close>
theorem api_dialect_spelling:
  assumes "TargetDialect (sv_cfg sv) = ''postgresql''"
  shows "Open con js dsn (TargetDialect (sv_cfg sv)) tim w = NewPostgres con js dsn tim w \<and>
    createOptimization sv new_id (Inr req) h =
      ((400, ErrorBody (''unknown dialect '' @ go_quote ''postgresql'')), h)"
proof -
  have "to_lower ''postgresql'' = ''postgresql''" by code_simp
  moreover have "ParseDialect (sv_parsers sv) (cr_sql req) (api_dialect (sv_cfg sv)) =
      Inl (new_error (''unknown dialect '' @ go_quote ''postgresql''))"
    using assms by (simp add: api_dialect_def ParseDialect_def DialectMySQL_def DialectPostgres_def)
  ultimately show ?thesis using assms
    by (simp add: Open_def createOptimization_def status_for_def) (simp add: new_error_def)
qed

lemma api_dialect_spelling_witness:
  "fst (createOptimization (demo_server (demo_api_config\<lparr>TargetDialect := ''postgresql''\<rparr>)) ''job-7''
     (Inr \<lparr>cr_sql = ''SELECT 1'', cr_key = ''''\<rparr>) demo_api_host) =
   (400, ErrorBody (''unknown dialect '' @ go_quote ''postgresql''))"
proof -
  have "TargetDialect (sv_cfg (demo_server (demo_api_config\<lparr>TargetDialect := ''postgresql''\<rparr>))) = ''postgresql''"
    by (simp add: demo_server_def)
  then show ?thesis by (simp only: api_dialect_spelling [THEN conjunct2] fst_conv)
qed

section \<open>Requests that only read\<close>

lemma store_op_reads:
  assumes "store_op f h = (r, h1)" and "\<And>db. snd (f db) = db"
  shows "h_store h1 = h_store h" and "h_broker h1 = h_broker h" and "h_world h1 = h_world h"
  using store_op_frame [OF assms(1)] assms(2) by auto

lemma handlers_read:
  "h_store (snd (getOptimization sv path_id h)) = h_store h \<and> h_broker (snd (getOptimization sv path_id h)) = h_broker h"
  "h_store (snd (listOptimizations status limit_text h)) = h_store h \<and>
   h_broker (snd (listOptimizations status limit_text h)) = h_broker h"
  "h_store (snd (api_history sv fp sql h)) = h_store h \<and> h_broker (snd (api_history sv fp sql h)) = h_broker h"
  "h_store (snd (readyz h)) = h_store h \<and> h_broker (snd (readyz h)) = h_broker h"
  by (auto simp: getOptimization_def listOptimizations_def api_history_def readyz_def Let_def
      split: sum.split prod.split dest: store_op_reads)

text \<open>
  C20: only a submission changes anything.  Whatever the method, the path, the parameters and the body
  are, and whatever remote call fails, a request that is not a POST to \<open>/v1/optimizations\<close> leaves the
  job table, the history and the broker as they are.
\<close>
theorem serve_reads_only:
  assumes "\<not> (hr_method r = POST \<and> hr_path r = [''v1'', ''optimizations''])"
  shows "h_store (snd (serve sv new_id r h)) = h_store h \<and> h_broker (snd (serve sv new_id r h)) = h_broker h"
proof -
  consider "hr_path r = []" | a where "hr_path r = [a]" | a b where "hr_path r = [a, b]"
    | a b d where "hr_path r = [a, b, d]" | a b d e es where "hr_path r = a # b # d # e # es"
    by (metis list.exhaust)
  then show ?thesis
    by cases (use assms in \<open>auto simp: serve_def Let_def handlers_read\<close>)
qed

lemma serve_reads_only_witness:
  "h_store (snd (serve (demo_server demo_api_config) ''job-7''
     \<lparr>hr_method = GET, hr_path = [''v1'', ''optimizations'', ''job-7''], hr_query = \<lambda>k. '''', hr_body = Inl (new_error '''')\<rparr>
     (demo_api_host\<lparr>h_faults := [Unacked]\<rparr>))) = empty_store"
  using serve_reads_only [of "\<lparr>hr_method = GET, hr_path = [''v1'', ''optimizations'', ''job-7''],
      hr_query = \<lambda>k. '''', hr_body = Inl (new_error '''')\<rparr>" "demo_server demo_api_config" "''job-7''"
      "demo_api_host\<lparr>h_faults := [Unacked]\<rparr>"]
  by (simp add: demo_api_host_def)

end
