(* ===== verification/Service.thy ===== *)
theory Service
  imports Worker_Facts Api_Facts
begin

text \<open>
  The service as a whole, the API, the table, the topics and the worker, when no remote call fails: what
  becomes of a submission, turn by turn.
\<close>

section \<open>Single turns\<close>

lemma no_faults_left:
  "h_faults h = [] \<Longrightarrow> h_faults (snd (store_op f h)) = []"
  "h_faults h = [] \<Longrightarrow> h_faults (snd (send_op cd topic req h)) = []"
  by (simp_all add: store_op_def send_op_def split: prod.split)

lemma recordRuns_faults: "h_faults h = [] \<Longrightarrow> h_faults (recordRuns wk job rep h) = []"
  by (simp add: recordRuns_ok)

lemma scheduleRetry_faults: "h_faults h = [] \<Longrightarrow> h_faults (scheduleRetry wk job req cause h) = []"
  by (auto simp: scheduleRetry_def dead_letter_def publish_op_def Let_def split: prod.split sum.split option.split
      dest: arg_cong [of _ _ "\<lambda>x. h_faults (snd x)"]
      intro!: no_faults_left) (metis no_faults_left snd_conv)+

lemma handle_faults:
  assumes "h_faults h = []"
  shows "h_faults (handle wk req h) = []"
proof -
  obtain r h1 where c: "store_op (ClaimJob (now_of wk h) (q_job req)) h = (r, h1)" by fastforce
  then have h1: "h_faults h1 = []" using no_faults_left(1) [OF assms] by (metis snd_conv)
  show ?thesis
  proof (cases r)
    case (Inr job)
    obtain x w where run: "Run (wk_opt wk) (j_sql job) (h_world h1) = (x, w)" by fastforce
    show ?thesis using h1
      by (cases x) (simp_all add: handle_def c Inr run scheduleRetry_faults complete_op_def no_faults_left recordRuns_faults)
  qed (simp add: handle_def c h1)
qed

text \<open>Messages that decode to what was encoded.\<close>

definition decodes :: "'w worker \<Rightarrow> bool" where
  "decodes wk \<longleftrightarrow> (\<forall>req. decode_request (wk_codec wk) (body_of wk req) = Inr req)"

definition consumed :: "consumer \<Rightarrow> consumer" where
  "consumed c = Commit (cn_position c) (c\<lparr>cn_position := Suc (cn_position c)\<rparr>)"

text \<open>The next message of a consumer, the last one in its topic.\<close>

definition next_message :: "'w worker \<Rightarrow> broker \<Rightarrow> consumer \<Rightarrow> optimize_request \<Rightarrow> bool" where
  "next_message wk b c req \<longleftrightarrow> (\<exists>pre. b (cn_topic c) = pre @ [body_of wk req] \<and> cn_position c = length pre)"

lemma Fetch_next:
  "decodes wk \<Longrightarrow> next_message wk b c req \<Longrightarrow>
   Fetch (wk_codec wk) b c = Some (Inr (cn_position c, req), c\<lparr>cn_position := Suc (cn_position c)\<rparr>)"
  by (auto simp: next_message_def Fetch_def decodes_def Let_def)

lemma main_turn:
  assumes "h_faults h = []" and "decodes wk" and "next_message wk (h_broker h) c req"
  shows "consumeMain_step wk c h = (consumed c, handle wk req h)"
  using Fetch_next [OF assms(2,3)] handle_faults [OF assms(1), of wk req]
  by (simp add: consumeMain_step_def commit_op_def consumed_def)

lemma retry_turn:
  assumes "h_faults h = []" and "encodes wk" and "decodes wk" and "next_message wk (h_broker h) c req"
  shows "\<exists>h1. consumeRetry_step wk c h = (consumed c, h1) \<and> h_faults h1 = [] \<and> h_store h1 = h_store h \<and>
    h_broker h1 = published wk (JobTopic (wk_cfg wk)) (req\<lparr>q_not_before := zero_time\<rparr>) (h_broker h)"
proof -
  let ?h = "wait_until wk (q_not_before req) h"
  have w: "h_faults ?h = []" "h_store ?h = h_store h" "h_broker ?h = h_broker h"
    using assms(1) by (simp_all add: wait_until_def sleep_for_def)
  show ?thesis
    by (simp add: consumeRetry_step_def Fetch_next [OF assms(3,4)] publish_op_ok [OF w(1) assms(2)] w commit_op_def
        consumed_def)
qed

lemma next_published:
  "cn_topic c = topic \<Longrightarrow> cn_position c = length (b topic) \<Longrightarrow> next_message wk (published wk topic req b) c req"
  by (simp add: next_message_def published_def)

section \<open>From the submission on\<close>

lemma createOptimization_faults:
  fixes h :: "'w host"
  assumes "h_faults h = []"
  shows "h_faults (snd (createOptimization sv new_id body h)) = []"
proof -
  have "h_faults h1 = []" if "store_op f h = (r, h1)" for f and h1 :: "'w host" and r :: "(job \<times> bool) result"
    using no_faults_left(1) [OF assms] that by (metis snd_conv)
  moreover have "h_faults h2 = []" if "send_op cd topic msg h1 = (r, h2)" "h_faults h1 = []" for cd topic msg r
    and h1 h2 :: "'w host"
    using no_faults_left(2) that by (metis snd_conv)
  ultimately show ?thesis
    by (auto simp: createOptimization_def assms split: sum.split prod.split) (metis+)?
qed

text \<open>What a 202 leaves: a claimable job and its message, last on the job topic.\<close>

lemma submitted:
  assumes "sv_cfg sv = wk_cfg wk" and "sv_codec sv = wk_codec wk"
    and "createOptimization sv new_id (Inr req) h = ((202, b), h1)" and "h_faults h = []"
  shows "\<exists>st job msg. ParseDialect (sv_parsers sv) (cr_sql req) (api_dialect (sv_cfg sv)) = Inr st \<and>
    job = job_row new_id (sv_clock sv (h_world h)) (submission (sv_cfg sv) req st) \<and> (202, b) = created_response job True \<and>
    find_job (j_id job) (h_store h1) = Some job \<and> claimable job \<and> q_job msg = j_id job \<and> q_sql msg = j_sql job \<and>
    h_broker h1 = published wk (JobTopic (wk_cfg wk)) msg (h_broker h) \<and> h_faults h1 = [] \<and> h_world h1 = h_world h"
proof -
  from createOptimization_202 [OF assms(3)] obtain st job where
    st: "ParseDialect (sv_parsers sv) (cr_sql req) (api_dialect (sv_cfg sv)) = Inr st"
      "job = job_row new_id (sv_clock sv (h_world h)) (submission (sv_cfg sv) req st)"
      "(202, b) = created_response job True" "find_job (j_id job) (h_store h1) = Some job" "j_status job = StatusQueued"
      "h_world h1 = h_world h"
    and pub: "\<exists>msg. encode_request (sv_codec sv) (first_message (sv_clock sv (h_world h)) job) = Inr msg \<and>
      h_broker h1 = (h_broker h)(JobTopic (sv_cfg sv) := h_broker h (JobTopic (sv_cfg sv)) @ [msg])" by blast
  let ?msg = "first_message (sv_clock sv (h_world h)) job"
  have "h_broker h1 = published wk (JobTopic (wk_cfg wk)) ?msg (h_broker h)"
    using pub assms(1,2) by (auto simp: published_def body_of_def)
  moreover have "h_faults h1 = []" using createOptimization_faults [OF assms(4)] assms(3) by (metis snd_conv)
  ultimately show ?thesis using st by (intro exI [of _ st] exI [of _ job] exI [of _ ?msg])
      (simp add: claimable_def first_message_def)
qed


section \<open>The ladder\<close>

text \<open>One failing turn of the main consumer: the job after it, and the topics.\<close>

lemma failing_turn:
  assumes "h_faults h = []" and "encodes wk" and "decodes wk" and "next_message wk (h_broker h) c req"
    and j: "find_job (q_job req) (h_store h) = Some j" "claimable j"
    and fails: "\<And>w. \<exists>err w'. Run (wk_opt wk) (j_sql j) w = (Inl err, w')" and n: "n = j_attempts j + 1"
    and turn: "consumeMain_step wk c h = (c1, h1)"
  shows "c1 = consumed c \<and> h_faults h1 = [] \<and> (\<exists>j' err t. find_job (q_job req) (h_store h1) = Some j' \<and> j_attempts j' = n \<and>
    j_max_attempts j' = j_max_attempts j \<and> j_sql j' = j_sql j \<and>
    j_status j' = (if n < j_max_attempts j then StatusRetrying else StatusFailed) \<and>
    h_broker h1 =
      (case (if n < j_max_attempts j then RetryTopic (JobTopic (wk_cfg wk)) n else None) of
         Some (topic, d) \<Rightarrow> published wk topic (req\<lparr>q_attempt := n + 1, q_last_error := err,
             q_not_before := t + d\<rparr>) (h_broker h)
       | None \<Rightarrow> published wk (DLQTopic (wk_cfg wk)) (req\<lparr>q_attempt := n + 1, q_last_error := err,
             q_not_before := zero_time\<rparr>) (h_broker h)))"
proof -
  obtain err w where run: "Run (wk_opt wk) (j_sql j) (h_world h) = (Inl err, w)" using fails by blast
  have "c1 = consumed c" "h1 = handle wk req h" using main_turn [OF assms(1,3,4)] turn by simp_all
  then show ?thesis using handle_failure [OF assms(1,2) j run n] handle_faults [OF assms(1)] by blast
qed

lemma failing_turn_retry:
  assumes "h_faults h = []" and "encodes wk" and "decodes wk" and "next_message wk (h_broker h) c req"
    and j: "find_job (q_job req) (h_store h) = Some j" "claimable j"
    and fails: "\<And>w. \<exists>err w'. Run (wk_opt wk) (j_sql j) w = (Inl err, w')"
    and n: "j_attempts j + 1 < j_max_attempts j" "RetryTopic (JobTopic (wk_cfg wk)) (j_attempts j + 1) = Some (topic, d)"
    and turn: "consumeMain_step wk c h = (c1, h1)"
  obtains j' err t where "c1 = consumed c" "h_faults h1 = []" "find_job (q_job req) (h_store h1) = Some j'" "claimable j'"
    "j_attempts j' = j_attempts j + 1" "j_max_attempts j' = j_max_attempts j" "j_sql j' = j_sql j"
    "h_broker h1 = published wk topic (req\<lparr>q_attempt := j_attempts j + 1 + 1, q_last_error := err, q_not_before := t\<rparr>)
      (h_broker h)"
  using failing_turn [OF assms(1-7) refl turn] n by (auto simp: claimable_def)

lemma failing_turn_last:
  assumes "h_faults h = []" and "encodes wk" and "decodes wk" and "next_message wk (h_broker h) c req"
    and j: "find_job (q_job req) (h_store h) = Some j" "claimable j"
    and fails: "\<And>w. \<exists>err w'. Run (wk_opt wk) (j_sql j) w = (Inl err, w')"
    and n: "\<not> j_attempts j + 1 < j_max_attempts j" and turn: "consumeMain_step wk c h = (c1, h1)"
  obtains j' err where "c1 = consumed c" "find_job (q_job req) (h_store h1) = Some j'" "j_status j' = StatusFailed"
    "j_attempts j' = j_attempts j + 1"
    "h_broker h1 = published wk (DLQTopic (wk_cfg wk))
      (req\<lparr>q_attempt := j_attempts j + 1 + 1, q_last_error := err, q_not_before := zero_time\<rparr>) (h_broker h)"
  using failing_turn [OF assms(1-7) refl turn] n by auto

lemma published_other [simp]: "t \<noteq> topic \<Longrightarrow> published wk topic req b t = b t"
  by (simp add: published_def)

lemma published_same: "published wk topic req b topic = b topic @ [body_of wk req]"
  by (simp add: published_def)

lemma consumed_fields [simp]:
  "cn_topic (consumed c) = cn_topic c" "cn_position (consumed c) = Suc (cn_position c)"
  "cn_committed (consumed c) = Suc (cn_position c)"
  by (simp_all add: consumed_def Commit_def)

lemma next_at_end:
  "cn_topic c = topic \<Longrightarrow> b1 = published wk topic req b \<Longrightarrow> cn_position c = length (b topic) \<Longrightarrow> next_message wk b1 c req"
  using next_published [of c topic b wk req] by simp

text \<open>A round: a failing turn that is not the last, and the turn of the consumer of its tier.\<close>

lemma failing_round:
  assumes faults: "h_faults h = []" and enc: "encodes wk" and dec: "decodes wk"
    and main: "cn_topic c = JobTopic (wk_cfg wk)" "next_message wk (h_broker h) c req"
    and j: "find_job (q_job req) (h_store h) = Some j" "claimable j" "j_attempts j + 1 < j_max_attempts j"
    and fails: "\<And>w. \<exists>err w'. Run (wk_opt wk) (j_sql j) w = (Inl err, w')"
    and r: "RetryTopic (JobTopic (wk_cfg wk)) (j_attempts j + 1) = Some (cn_topic r, d)"
      "cn_position r = length (h_broker h (cn_topic r))"
    and turns: "consumeMain_step wk c h = (c1, h1)" "consumeRetry_step wk r h1 = (e, h2)"
  obtains j' err where "c1 = consumed c" "e = consumed r" "h_faults h2 = []"
    "find_job (q_job req) (h_store h2) = Some j'" "claimable j'" "j_attempts j' = j_attempts j + 1"
    "j_max_attempts j' = j_max_attempts j" "j_sql j' = j_sql j"
    "next_message wk (h_broker h2) c1
      (req\<lparr>q_attempt := j_attempts j + 1 + 1, q_last_error := err, q_not_before := zero_time\<rparr>)"
    "length (h_broker h2 (cn_topic r)) = Suc (length (h_broker h (cn_topic r)))"
    "\<And>t. t \<noteq> JobTopic (wk_cfg wk) \<Longrightarrow> t \<noteq> cn_topic r \<Longrightarrow> h_broker h2 t = h_broker h t"
proof -
  let ?J = "JobTopic (wk_cfg wk)"
  have ne: "cn_topic r \<noteq> ?J" by (rule RetryTopic_fresh [OF r(1)])
  obtain j' err t where 1: "c1 = consumed c" "h_faults h1 = []" "find_job (q_job req) (h_store h1) = Some j'" "claimable j'"
      "j_attempts j' = j_attempts j + 1" "j_max_attempts j' = j_max_attempts j" "j_sql j' = j_sql j"
    and b1: "h_broker h1 = published wk (cn_topic r)
      (req\<lparr>q_attempt := j_attempts j + 1 + 1, q_last_error := err, q_not_before := t\<rparr>) (h_broker h)"
    by (rule failing_turn_retry [OF faults enc dec main(2) j(1,2) fails j(3) r(1) turns(1)])
  let ?m = "req\<lparr>q_attempt := j_attempts j + 1 + 1, q_last_error := err, q_not_before := zero_time\<rparr>"
  from retry_turn [OF 1(2) enc dec next_at_end [OF refl b1 r(2)]] turns(2)
  have 2: "e = consumed r" "h_faults h2 = []" "h_store h2 = h_store h1" "h_broker h2 = published wk ?J ?m (h_broker h1)"
    by auto
  have p: "cn_position c1 = length (h_broker h1 ?J)" using main ne by (auto simp: 1(1) b1 next_message_def)
  have nxt: "next_message wk (h_broker h2) c1 ?m" by (rule next_at_end [OF _ 2(4) p]) (simp add: 1(1) main(1))
  have "find_job (q_job req) (h_store h2) = Some j'" using 1(3) 2(3) by simp
  moreover have "length (h_broker h2 (cn_topic r)) = Suc (length (h_broker h (cn_topic r)))"
    "t \<noteq> ?J \<Longrightarrow> t \<noteq> cn_topic r \<Longrightarrow> h_broker h2 t = h_broker h t" for t
    using ne by (simp_all add: 2(4) b1 published_same)
  ultimately show ?thesis using 1 2(1,2) nxt that by blast
qed

text \<open>
  C8: a job that keeps failing ends.  A job with three attempts, whose optimization fails every time, is
  executed three times: after the first failure its message waits on the topic of the first tier, after
  the second on that of the second tier, and after the third the job is \<open>failed\<close>, the dead letter topic
  has got exactly one message, the one for this job, and every consumer has committed all its messages.
\<close>
theorem failing_job_dead_lettered:
  assumes faults: "h_faults h = []" and enc: "encodes wk" and dec: "decodes wk"
    and fails: "\<And>w. \<exists>err w'. Run (wk_opt wk) (j_sql j) w = (Inl err, w')"
    and j: "find_job (q_job req) (h_store h) = Some j" "claimable j" "j_attempts j = 0" "j_max_attempts j = 3"
    and main: "cn_topic c = JobTopic (wk_cfg wk)" "next_message wk (h_broker h) c req"
    and r1: "RetryTopic (JobTopic (wk_cfg wk)) 1 = Some (cn_topic r1, d1)" "cn_position r1 = length (h_broker h (cn_topic r1))"
    and r2: "RetryTopic (JobTopic (wk_cfg wk)) 2 = Some (cn_topic r2, d2)" "cn_position r2 = length (h_broker h (cn_topic r2))"
    and dlq: "DLQTopic (wk_cfg wk) \<notin> {JobTopic (wk_cfg wk), cn_topic r1, cn_topic r2}"
    and turns: "consumeMain_step wk c h = (c1, h1)" "consumeRetry_step wk r1 h1 = (e1, h2)"
      "consumeMain_step wk c1 h2 = (c2, h3)" "consumeRetry_step wk r2 h3 = (e2, h4)"
      "consumeMain_step wk c2 h4 = (c3, h5)"
  shows "\<exists>j' err. find_job (q_job req) (h_store h5) = Some j' \<and> j_status j' = StatusFailed \<and> j_attempts j' = 3 \<and>
    h_broker h5 (DLQTopic (wk_cfg wk)) = h_broker h (DLQTopic (wk_cfg wk)) @
      [body_of wk (req\<lparr>q_attempt := 4, q_last_error := err, q_not_before := zero_time\<rparr>)] \<and>
    cn_committed c3 = length (h_broker h5 (cn_topic c)) \<and> cn_committed e1 = length (h_broker h5 (cn_topic r1)) \<and>
    cn_committed e2 = length (h_broker h5 (cn_topic r2))"
proof -
  let ?J = "JobTopic (wk_cfg wk)" and ?D = "DLQTopic (wk_cfg wk)"
  have ts: "cn_topic r1 = ?J @ ''.retry.15s''" "cn_topic r2 = ?J @ ''.retry.120s''"
    using r1(1) r2(1) by (simp_all add: RetryTopic_texts)
  have ne: "cn_topic r1 \<noteq> ?J" "cn_topic r2 \<noteq> ?J" "cn_topic r1 \<noteq> cn_topic r2" "?D \<noteq> ?J" "?D \<noteq> cn_topic r1"
    "?D \<noteq> cn_topic r2"
    using dlq by (auto simp: ts)
  have d1: "j_attempts j + 1 < j_max_attempts j" "RetryTopic ?J (j_attempts j + 1) = Some (cn_topic r1, d1)"
    using j(3,4) r1(1) by simp_all
  obtain j1 err1 where 1: "c1 = consumed c" "e1 = consumed r1" "h_faults h2 = []"
      "find_job (q_job req) (h_store h2) = Some j1" "claimable j1" "j_attempts j1 = 1" "j_max_attempts j1 = 3" "j_sql j1 = j_sql j"
      "next_message wk (h_broker h2) c1 (req\<lparr>q_attempt := 2, q_last_error := err1, q_not_before := zero_time\<rparr>)"
      "length (h_broker h2 (cn_topic r1)) = Suc (length (h_broker h (cn_topic r1)))"
      "\<And>t. t \<noteq> ?J \<Longrightarrow> t \<noteq> cn_topic r1 \<Longrightarrow> h_broker h2 t = h_broker h t"
    by (rule failing_round [OF faults enc dec main j(1,2) d1(1) fails d1(2) r1(2) turns(1,2)]) (simp add: j(3,4))
  let ?m1 = "req\<lparr>q_attempt := 2, q_last_error := err1, q_not_before := zero_time\<rparr>"
  have p2: "cn_topic c1 = ?J" "find_job (q_job ?m1) (h_store h2) = Some j1" "j_attempts j1 + 1 < j_max_attempts j1"
    "RetryTopic ?J (j_attempts j1 + 1) = Some (cn_topic r2, d2)" "cn_position r2 = length (h_broker h2 (cn_topic r2))"
    using 1 main(1) r2 ne by simp_all
  have fails1: "\<exists>err w'. Run (wk_opt wk) (j_sql j1) w = (Inl err, w')" for w using fails 1(8) by simp
  obtain j2 err2 where 2: "c2 = consumed c1" "e2 = consumed r2" "h_faults h4 = []"
      "find_job (q_job ?m1) (h_store h4) = Some j2" "claimable j2" "j_attempts j2 = 2" "j_max_attempts j2 = 3" "j_sql j2 = j_sql j"
      "next_message wk (h_broker h4) c2 (req\<lparr>q_attempt := 3, q_last_error := err2, q_not_before := zero_time\<rparr>)"
      "length (h_broker h4 (cn_topic r2)) = Suc (length (h_broker h2 (cn_topic r2)))"
      "\<And>t. t \<noteq> ?J \<Longrightarrow> t \<noteq> cn_topic r2 \<Longrightarrow> h_broker h4 t = h_broker h2 t"
    by (rule failing_round [OF 1(3) enc dec p2(1) 1(9) p2(2) 1(5) p2(3) fails1 p2(4,5) turns(3,4)]) (simp add: 1(6-8))
  let ?m2 = "req\<lparr>q_attempt := 3, q_last_error := err2, q_not_before := zero_time\<rparr>"
  have p4: "cn_topic c2 = ?J" "find_job (q_job ?m2) (h_store h4) = Some j2" "\<not> j_attempts j2 + 1 < j_max_attempts j2"
    using 2 p2(1) by simp_all
  have fails2: "\<exists>err w'. Run (wk_opt wk) (j_sql j2) w = (Inl err, w')" for w using fails 2(8) by simp
  obtain j3 err3 where 3: "c3 = consumed c2" "find_job (q_job ?m2) (h_store h5) = Some j3" "j_status j3 = StatusFailed"
      "j_attempts j3 = 3"
    and b5: "h_broker h5 = published wk ?D (req\<lparr>q_attempt := 4, q_last_error := err3, q_not_before := zero_time\<rparr>) (h_broker h4)"
    by (rule failing_turn_last [OF 2(3) enc dec 2(9) p4(2) 2(5) fails2 p4(3) turns(5)]) (simp add: 2(6))
  have "h_broker h5 ?D = h_broker h ?D @ [body_of wk (req\<lparr>q_attempt := 4, q_last_error := err3, q_not_before := zero_time\<rparr>)]"
    using ne 1(11) 2(11) by (simp add: b5 published_same)
  moreover have "cn_committed c3 = length (h_broker h5 (cn_topic c))"
    using 2(9) p4(1) ne(4) main(1) by (auto simp: 3(1) b5 next_message_def published_def)
  moreover have "cn_committed e1 = length (h_broker h5 (cn_topic r1))" "cn_committed e2 = length (h_broker h5 (cn_topic r2))"
    using 1(2,10) 2(2,10,11) r1(2) p2(5) ne by (simp_all add: b5 published_def)
  ultimately show ?thesis using 3 by auto
qed

section \<open>Witnesses\<close>

text \<open>An encoding of requests that can be read back: lengths and numbers in unary.\<close>

definition wire_str :: "string \<Rightarrow> string" where
  "wire_str s = replicate (length s) (CHR ''1'') @ CHR ''0'' # s"

definition wire_int :: "int \<Rightarrow> string" where
  "wire_int i = (if i < 0 then CHR ''-'' else CHR ''+'') # replicate (nat \<bar>i\<bar>) (CHR ''1'') @ ''0''"

definition read_count :: "string \<Rightarrow> nat \<times> string" where
  "read_count t = (length (takeWhile (\<lambda>c. c = CHR ''1'') t), tl (dropWhile (\<lambda>c. c = CHR ''1'') t))"

definition read_str :: "string \<Rightarrow> string \<times> string" where
  "read_str t = (case read_count t of (n, u) \<Rightarrow> (take n u, drop n u))"

definition read_int :: "string \<Rightarrow> int \<times> string" where
  "read_int t = (case read_count (tl t) of (n, u) \<Rightarrow> (if hd t = CHR ''-'' then - int n else int n, u))"

lemma read_count_unary: "read_count (replicate n (CHR ''1'') @ CHR ''0'' # rest) = (n, rest)"
  by (induction n) (simp_all add: read_count_def)

lemma read_wire: "read_str (wire_str s @ rest) = (s, rest)" "read_int (wire_int i @ rest) = (i, rest)"
  by (simp_all add: read_str_def wire_str_def read_int_def wire_int_def read_count_unary)

definition wire_codec :: codec where
  "wire_codec =
     \<lparr>encode_request = \<lambda>r. Inr (wire_str (q_job r) @ wire_str (q_sql r) @ wire_int (q_attempt r) @
        wire_int (q_not_before r) @ wire_str (q_last_error r) @ wire_int (q_enqueued r)),
      decode_request = \<lambda>t.
        (case read_str t of (job, t1) \<Rightarrow> case read_str t1 of (sql, t2) \<Rightarrow> case read_int t2 of (a, t3) \<Rightarrow>
         case read_int t3 of (nb, t4) \<Rightarrow> case read_str t4 of (e, t5) \<Rightarrow> case read_int t5 of (q, t6) \<Rightarrow>
           Inr \<lparr>q_job = job, q_sql = sql, q_attempt = a, q_not_before = nb, q_last_error = e, q_enqueued = q\<rparr>)\<rparr>"

definition service_worker :: "nat worker" where
  "service_worker = demo_worker\<lparr>wk_cfg := demo_api_config, wk_codec := wire_codec\<rparr>"

definition service_api :: "nat api_server" where
  "service_api = (demo_server demo_api_config)\<lparr>sv_codec := wire_codec\<rparr>"

lemma wire_carries: "wk_codec wk = wire_codec \<Longrightarrow> encodes wk \<and> decodes wk"
proof -
  have "read_int (wire_int i) = (i, [])" for i using read_wire(2) [of i "[]"] by simp
  then show "wk_codec wk = wire_codec \<Longrightarrow> ?thesis"
    by (simp add: encodes_def decodes_def body_of_def wire_codec_def read_wire)
qed


lemma failing_job_dead_lettered_witness:
  "\<exists>(h5 :: nat host) j'. find_job ''job-1'' (h_store h5) = Some j' \<and> j_status j' = StatusFailed \<and> j_attempts j' = 3 \<and>
     length (h_broker h5 (DLQTopic demo_config)) = 1"
proof -
  let ?wk = "demo_failing_worker\<lparr>wk_codec := wire_codec\<rparr>"
  let ?j = "job_row ''job-1'' 0 demo_new_job" and ?J = "''sql.optimize.requested''"
  have cfg: "wk_cfg ?wk = demo_config" "JobTopic demo_config = ?J" "DLQTopic demo_config = ''sql.optimize.dlq''"
    "wk_opt ?wk = demo_optimizer\<lparr>op_dialect := ''oracle''\<rparr>"
    by (simp_all add: demo_failing_worker_def demo_worker_def demo_config_def read_env_def env_def trim_space_def
        trim_func_def trim_left_def)
  have car: "encodes ?wk" "decodes ?wk" using wire_carries [of ?wk] by simp_all
  let ?h = "demo_host\<lparr>h_broker := (\<lambda>t. [])(?J := [body_of ?wk demo_request])\<rparr>"
  let ?c = "NewConsumer ?J 0" and ?r1 = "NewConsumer (?J @ ''.retry.15s'') 0" and ?r2 = "NewConsumer (?J @ ''.retry.120s'') 0"
  have fails: "\<exists>err w'. Run (wk_opt ?wk) (j_sql ?j) w = (Inl err, w')" for w
    unfolding cfg by (simp add: Run_def ParseDialect_def DialectMySQL_def DialectPostgres_def)
  have found: "find_job (q_job demo_request) (h_store ?h) = Some ?j" using demo_found by simp
  have job: "j_attempts ?j = 0" "j_max_attempts ?j = 3" "h_faults ?h = []" "q_job demo_request = ''job-1''"
    by (simp_all add: job_row_def demo_new_job_def demo_host_def demo_request_def)
  have main: "cn_topic ?c = JobTopic (wk_cfg ?wk)" "next_message ?wk (h_broker ?h) ?c demo_request"
    by (simp_all add: NewConsumer_def cfg next_message_def)
  have r: "RetryTopic (JobTopic (wk_cfg ?wk)) 1 = Some (cn_topic ?r1, 15 * second)" "cn_position ?r1 = length (h_broker ?h (cn_topic ?r1))"
    "RetryTopic (JobTopic (wk_cfg ?wk)) 2 = Some (cn_topic ?r2, 120 * second)" "cn_position ?r2 = length (h_broker ?h (cn_topic ?r2))"
    by (simp_all add: NewConsumer_def cfg RetryTopic_texts)
  have dlq: "DLQTopic (wk_cfg ?wk) \<notin> {JobTopic (wk_cfg ?wk), cn_topic ?r1, cn_topic ?r2}" "h_broker ?h (DLQTopic demo_config) = []"
    by (simp_all add: NewConsumer_def cfg)
  obtain c1 h1 e1 h2 c2 h3 e2 h4 c3 h5 where turns: "consumeMain_step ?wk ?c ?h = (c1, h1)" "consumeRetry_step ?wk ?r1 h1 = (e1, h2)"
      "consumeMain_step ?wk c1 h2 = (c2, h3)" "consumeRetry_step ?wk ?r2 h3 = (e2, h4)" "consumeMain_step ?wk c2 h4 = (c3, h5)"
    by (metis surj_pair)
  from failing_job_dead_lettered [OF job(3) car fails found demo_claimable job(1,2) main r dlq(1) turns]
  obtain j' err where j': "find_job (q_job demo_request) (h_store h5) = Some j'" "j_status j' = StatusFailed" "j_attempts j' = 3"
    and d: "h_broker h5 (DLQTopic (wk_cfg ?wk)) = h_broker ?h (DLQTopic (wk_cfg ?wk)) @
      [body_of ?wk (demo_request\<lparr>q_attempt := 4, q_last_error := err, q_not_before := zero_time\<rparr>)]" by blast
  have "length (h_broker h5 (DLQTopic demo_config)) = 1" using d unfolding cfg(1) dlq(2) by simp
  with j' job(4) show ?thesis by (intro exI [of _ h5] exI [of _ j']) simp
qed

end
