(* ===== verification/Lifecycle.thy ===== *)
theory Lifecycle
  imports Worker_Facts
begin

text \<open>
  The life of a job as a state machine, the specification that the job table and the worker implement:
  a phase is the status with the number of attempts used.  The machine has no fault, no clock and no
  message; every turn of a worker is a path of it.
\<close>

section \<open>The state machine\<close>

type_synonym phase = "job_status \<times> int"

inductive job_step :: "int \<Rightarrow> phase \<Rightarrow> phase \<Rightarrow> bool" for m where
  claim: "s = StatusQueued \<or> s = StatusRetrying \<Longrightarrow> job_step m (s, n) (StatusRunning, n + 1)"
| succeed: "job_step m (StatusRunning, n) (StatusSucceeded, n)"
| retry: "n < m \<Longrightarrow> job_step m (StatusRunning, n) (StatusRetrying, n)"
| give_up: "\<not> n < m \<Longrightarrow> job_step m (StatusRunning, n) (StatusFailed, n)"

inductive_cases job_step_cases: "job_step m p q"
inductive_simps job_step_from [simp]:
  "job_step m (StatusSucceeded, n) q" "job_step m (StatusFailed, n) q" "job_step m (StatusRunning, n) q"

text \<open>What holds in every phase that a new job reaches: the attempts are bounded, a job fails with the last.\<close>

definition phase_ok :: "int \<Rightarrow> phase \<Rightarrow> bool" where
  "phase_ok m p \<longleftrightarrow> (case p of (s, n) \<Rightarrow> 0 \<le> n \<and> n \<le> m \<and>
     (s = StatusQueued \<longrightarrow> n = 0 \<and> n < m) \<and> (s = StatusRetrying \<longrightarrow> 1 \<le> n \<and> n < m) \<and>
     (s = StatusRunning \<or> s = StatusSucceeded \<longrightarrow> 1 \<le> n) \<and> (s = StatusFailed \<longrightarrow> n = m))"

lemma job_step_ok: "job_step m p q \<Longrightarrow> phase_ok m p \<Longrightarrow> phase_ok m q"
  by (induction rule: job_step.induct) (auto simp: phase_ok_def)

lemma job_steps_ok: "(job_step m)\<^sup>*\<^sup>* p q \<Longrightarrow> phase_ok m p \<Longrightarrow> phase_ok m q"
  by (induction rule: rtranclp_induct) (auto intro: job_step_ok)

lemma final_stays: "(job_step m)\<^sup>*\<^sup>* p q \<Longrightarrow> fst p = StatusSucceeded \<or> fst p = StatusFailed \<Longrightarrow> q = p"
  by (induction rule: converse_rtranclp_induct) (auto elim: job_step_cases)

section \<open>The implementation\<close>

definition phase_of :: "job \<Rightarrow> phase" where
  "phase_of j = (j_status j, j_attempts j)"

text \<open>From one table to another, the row \<open>jid\<close> takes a path of the machine.\<close>

definition moves :: "string \<Rightarrow> store_db \<Rightarrow> store_db \<Rightarrow> bool" where
  "moves jid db db' \<longleftrightarrow> (\<forall>j. find_job jid db = Some j \<longrightarrow> (\<exists>j'. find_job jid db' = Some j' \<and>
     j_max_attempts j' = j_max_attempts j \<and> (job_step (j_max_attempts j))\<^sup>*\<^sup>* (phase_of j) (phase_of j')))"

lemma moves_same: "find_job jid db' = find_job jid db \<Longrightarrow> moves jid db db'"
  by (auto simp: moves_def)

lemma moves_trans: "moves jid db db1 \<Longrightarrow> moves jid db1 db2 \<Longrightarrow> moves jid db db2"
  unfolding moves_def by (metis rtranclp_trans)

lemma moves_step:
  assumes "find_job jid db = Some j" and "find_job jid db' = Some j'" and "j_max_attempts j' = j_max_attempts j"
    and "job_step (j_max_attempts j) (phase_of j) (phase_of j')"
  shows "moves jid db db'"
  using assms unfolding moves_def by (auto intro: r_into_rtranclp)

lemma failed_step:
  "j_status j = StatusRunning \<Longrightarrow> job_step (j_max_attempts j) (phase_of j) (failed_status j, j_attempts j)"
  by (simp add: phase_of_def failed_status_def)

text \<open>The statements: a claim moves any row, the others a row that is running.\<close>

lemma ClaimJob_moves: "moves jid db (snd (ClaimJob now jid' db))"
proof (cases "\<exists>j. find_job jid' db = Some j \<and> claimable j \<and> jid = jid'")
  case True
  then obtain j where j: "find_job jid db = Some j" "claimable j" "jid' = jid" by blast
  have "job_step (j_max_attempts j) (phase_of j) (phase_of (claimed now j))"
    using j(2) by (auto simp: phase_of_def claimed_def claimable_def intro: job_step.claim)
  then show ?thesis
    by (intro moves_step [OF j(1), of _ "claimed now j"]) (simp_all add: ClaimJob_def j find_job_update claimed_def)
qed (auto simp: ClaimJob_def find_job_update intro!: moves_same split: option.split)

definition runs :: "string \<Rightarrow> store_db \<Rightarrow> bool" where
  "runs jid db \<longleftrightarrow> (\<forall>j. find_job jid db = Some j \<longrightarrow> j_status j = StatusRunning)"

lemma update_moves:
  assumes "runs jid' db" and "\<And>j. j_id (f j) = j_id j" and "\<And>j. j_max_attempts (f j) = j_max_attempts j"
    and "\<And>j. j_status j = StatusRunning \<Longrightarrow> job_step (j_max_attempts j) (phase_of j) (phase_of (f j))"
  shows "moves jid db (update_job jid' f db)"
proof (cases "\<exists>j. find_job jid db = Some j \<and> jid = jid'")
  case True
  then obtain j where j: "find_job jid db = Some j" "jid' = jid" by blast
  then have "j_status j = StatusRunning" using assms(1) by (simp add: runs_def)
  then show ?thesis using assms j by (intro moves_step [OF j(1), of _ "f j"]) (simp_all add: find_job_update)
next
  case False
  then show ?thesis by (intro moves_same) (auto simp: find_job_update assms(2))
qed

lemma CompleteJob_moves:
  "runs jid' db \<Longrightarrow> moves jid db (snd (CompleteJob now jid' rep a b c d db))"
  by (auto simp: CompleteJob_def moves_same phase_of_def completed_def split: sum.split intro!: update_moves)

lemma MarkFailure_moves: "runs jid' db \<Longrightarrow> moves jid db (snd (MarkFailure now jid' cause db))"
  using failed_step
  by (auto simp: MarkFailure_def moves_same phase_of_def marked_failed_def split: option.split intro!: update_moves)

lemma ReclaimStale_moves: "moves jid db (snd (ReclaimStale now t db))"
proof (cases "\<exists>j. find_job jid db = Some j \<and> stale now t j")
  case True
  then obtain j where j: "find_job jid db = Some j" "stale now t j" by blast
  then have "job_step (j_max_attempts j) (phase_of j) (phase_of (reclaimed now j))"
    using failed_step [of j] by (simp add: stale_def phase_of_def reclaimed_def)
  then show ?thesis using j
    by (intro moves_step [OF j(1), of _ "reclaimed now j"]) (simp_all add: find_job_ReclaimStale reclaimed_def)
qed (auto simp: find_job_ReclaimStale moves_def)

section \<open>The worker\<close>

text \<open>A statement under a fault is the statement or nothing.\<close>

lemma store_op_moves:
  assumes "store_op f h = (r, h1)" and "moves jid (h_store h) (snd (f (h_store h)))"
  shows "moves jid (h_store h) (h_store h1)"
  using store_op_frame(3) [OF assms(1)] assms(2) by (auto simp: moves_same)

lemma recordRuns_row: "find_job jid (h_store (recordRuns wk job rep h)) = find_job jid (h_store h)"
proof -
  have one: "find_job jid (h_store (record_op wk r h)) = find_job jid (h_store h)" for r and h :: "'a host"
  proof -
    obtain x h1 where s: "store_op (\<lambda>db. (Inr (), RecordRun (now_of wk h) r db)) h = (x, h1)" by fastforce
    show ?thesis using store_op_frame(3) [OF s] by (auto simp: record_op_def s find_job_RecordRun)
  qed
  have "find_job jid (h_store (fold (record_op wk) rs h)) = find_job jid (h_store h)" for rs and h :: "'a host"
    by (induction rs arbitrary: h) (simp_all add: one)
  then show ?thesis by (simp add: recordRuns_def)
qed

lemma complete_op_moves: "runs (j_id job) (h_store h) \<Longrightarrow> moves jid (h_store h) (h_store (complete_op wk job start rep h))"
  unfolding complete_op_def
  by (rule store_op_moves [OF surjective_pairing]) (rule CompleteJob_moves)

lemma scheduleRetry_moves:
  assumes "runs (j_id job) (h_store h)"
  shows "moves jid (h_store h) (h_store (scheduleRetry wk job req cause h))"
proof -
  obtain r h1 where s: "store_op (MarkFailure (now_of wk h) (j_id job) cause) h = (r, h1)" by fastforce
  have "h_store (scheduleRetry wk job req cause h) = h_store h1"
    by (simp add: scheduleRetry_def s Let_def publish_op_frame(2) split: prod.split sum.split option.split)
  then show ?thesis using store_op_moves [OF s MarkFailure_moves [OF assms]] by simp
qed

lemma claim_runs:
  assumes "store_op (ClaimJob t jid) h = (Inr job, h1)"
  shows "j_id job = jid \<and> runs jid (h_store h1)"
proof -
  have "ClaimJob t jid (h_store h) = (Inr job, h_store h1)" using store_op_frame(4) [OF assms refl] .
  then obtain j where "find_job jid (h_store h) = Some j" "job = claimed t j" "h_store h1 = update_job jid (claimed t) (h_store h)"
    by (auto simp: ClaimJob_def split: option.splits if_splits)
  then show ?thesis using j_id_claimed_found by (auto simp: runs_def find_job_update claimed_def)
qed

lemma handle_moves: "moves jid (h_store h) (h_store (handle wk req h))"
proof -
  obtain r h1 where c: "store_op (ClaimJob (now_of wk h) (q_job req)) h = (r, h1)" by fastforce
  have 1: "moves jid (h_store h) (h_store h1)" by (rule store_op_moves [OF c ClaimJob_moves])
  show ?thesis
  proof (cases r)
    case (Inr job)
    note run = claim_runs [OF c [unfolded Inr]]
    obtain x w where x: "Run (wk_opt wk) (j_sql job) (h_world h1) = (x, w)" by fastforce
    let ?h = "h1\<lparr>h_world := w\<rparr>"
    have run': "runs (j_id job) (h_store ?h)" using run by simp
    have "moves jid (h_store ?h) (h_store (handle wk req h))"
    proof (cases x)
      case (Inl err)
      then show ?thesis using scheduleRetry_moves [OF run'] by (simp add: handle_def c Inr x)
    next
      case (Inr rep)
      have "runs (j_id job) (h_store (recordRuns wk job rep ?h))"
        using run' by (simp add: runs_def recordRuns_row)
      from moves_trans [OF moves_same [OF recordRuns_row] complete_op_moves [OF this]]
      show ?thesis by (simp add: handle_def c \<open>r = Inr job\<close> x Inr)
    qed
    then show ?thesis using moves_trans [OF 1] by simp
  qed (use 1 in \<open>simp add: handle_def c\<close>)
qed

lemma reclaim_step_moves: "moves jid (h_store h) (h_store (reclaim_step wk h))"
  unfolding reclaim_step_def
  by (rule store_op_moves [OF surjective_pairing]) (use ReclaimStale_moves in \<open>simp add: split_beta\<close>)

text \<open>What the turns of workers and the submissions of clients, one after another, do to the table.\<close>

fun service_event :: "'w happening \<Rightarrow> bool" where
  "service_event (Statement (EvCreate new_id t j)) = True"
| "service_event (Statement e) = False"
| "service_event _ = True"

lemma happens_moves:
  assumes "service_event x"
  shows "moves jid (h_store h) (h_store (happens wk x h))"
proof (cases x)
  case (Statement e)
  then obtain new_id t j where "e = EvCreate new_id t j" using assms by (cases e) auto
  then show ?thesis using Statement find_job_CreateJob by (auto simp: moves_def)
qed (simp_all add: handle_moves reclaim_step_moves moves_same)

definition run_all :: "'w worker \<Rightarrow> 'w happening list \<Rightarrow> 'w host \<Rightarrow> 'w host" where
  "run_all wk xs h = fold (happens wk) xs h"

lemma run_all_moves: "list_all service_event xs \<Longrightarrow> moves jid (h_store h) (h_store (run_all wk xs h))"
  unfolding run_all_def
proof (induction xs arbitrary: h)
  case (Cons x xs)
  then show ?case using moves_trans [OF happens_moves [of x jid h wk] Cons.IH [of "happens wk x h"]] by simp
qed (simp add: moves_same)

section \<open>Properties\<close>



end
