(* ===== verification/Fleet.thy ===== *)
theory Fleet
  imports Lifecycle
begin

text \<open>
  Several workers at once on one job table.  The other theories take the handling of a message as one
  turn; here it is cut into the statements that it sends, and the statements of any number of workers,
  of the reclaim loops, of the API and of the passing of time interleave in any order.  A worker is
  busy from its claim to its last statement, and it can vanish at any point.
\<close>

section \<open>The steps\<close>

text \<open>\<open>f_busy n\<close> is the row that the claim of worker \<open>n\<close> returned, while \<open>n\<close> works on it.\<close>

record fleet =
  f_now :: int
  f_table :: store_db
  f_busy :: "nat \<Rightarrow> job option"

inductive fleet_step :: "config \<Rightarrow> fleet \<Rightarrow> fleet \<Rightarrow> bool" for cfg where
  tick: "fleet_step cfg f (f\<lparr>f_now := t\<rparr>)"
| claim: "f_busy f n = None \<Longrightarrow> ClaimJob (f_now f) jid (f_table f) = (Inr job, db) \<Longrightarrow>
    fleet_step cfg f (f\<lparr>f_table := db, f_busy := (f_busy f)(n := Some job)\<rparr>)"
| record_run: "f_busy f n = Some job \<Longrightarrow>
    fleet_step cfg f (f\<lparr>f_table := RecordRun (f_now f) r (f_table f)\<rparr>)"
| complete: "f_busy f n = Some job \<Longrightarrow>
    fleet_step cfg f (f\<lparr>f_table := snd (CompleteJob (f_now f) (j_id job) rep a b c d (f_table f)),
      f_busy := (f_busy f)(n := None)\<rparr>)"
| fail: "f_busy f n = Some job \<Longrightarrow>
    fleet_step cfg f (f\<lparr>f_table := snd (MarkFailure (f_now f) (j_id job) cause (f_table f)),
      f_busy := (f_busy f)(n := None)\<rparr>)"
| vanish: "fleet_step cfg f (f\<lparr>f_busy := (f_busy f)(n := None)\<rparr>)"
| reclaim: "fleet_step cfg f (f\<lparr>f_table := snd (ReclaimStale (f_now f) (lease_time cfg) (f_table f))\<rparr>)"
| submit: "fleet_step cfg f (f\<lparr>f_table := snd (CreateJob new_id (f_now f) nj (f_table f))\<rparr>)"

inductive_cases fleet_step_E: "fleet_step cfg f f'"
lemmas fleet_step_cases =
  fleet_step_E [consumes 1, case_names tick claim record_run complete fail vanish reclaim submit]

definition idle :: "fleet \<Rightarrow> bool" where
  "idle f \<longleftrightarrow> f_busy f = (\<lambda>n. None)"

text \<open>
  Every worker is still inside the lease of its claim: the reclaim loop would leave its row alone.  The
  deadline of a job is \<open>JobTimeout\<close> and the lease twice that, so this asks that a worker takes at most
  as long again to write its result.
\<close>

definition in_lease :: "config \<Rightarrow> fleet \<Rightarrow> bool" where
  "in_lease cfg f \<longleftrightarrow> (\<forall>n job. f_busy f n = Some job \<longrightarrow> \<not> stale (f_now f) (lease_time cfg) job)"

inductive timely :: "config \<Rightarrow> fleet \<Rightarrow> fleet \<Rightarrow> bool" for cfg f0 where
  start: "timely cfg f0 f0"
| step: "timely cfg f0 f \<Longrightarrow> fleet_step cfg f f' \<Longrightarrow> in_lease cfg f' \<Longrightarrow> timely cfg f0 f'"

section \<open>The invariant\<close>

text \<open>The row of a busy worker is as its claim left it, and no two workers are busy with one job.\<close>

definition owned :: "fleet \<Rightarrow> bool" where
  "owned f \<longleftrightarrow> (\<forall>n job. f_busy f n = Some job \<longrightarrow>
     find_job (j_id job) (f_table f) = Some job \<and> j_status job = StatusRunning)"

definition exclusive :: "fleet \<Rightarrow> bool" where
  "exclusive f \<longleftrightarrow> (\<forall>n m job job'. f_busy f n = Some job \<longrightarrow> f_busy f m = Some job' \<longrightarrow>
     j_id job' = j_id job \<longrightarrow> m = n)"

lemma ownedD: "owned f \<Longrightarrow> f_busy f n = Some job \<Longrightarrow> find_job (j_id job) (f_table f) = Some job \<and> j_status job = StatusRunning"
  by (simp add: owned_def)

lemma exclusiveD: "exclusive f \<Longrightarrow> f_busy f n = Some job \<Longrightarrow> f_busy f m = Some job' \<Longrightarrow> j_id job' = j_id job \<Longrightarrow> m = n"
  by (simp add: exclusive_def)

lemma idle_inv: "idle f \<Longrightarrow> owned f \<and> exclusive f \<and> in_lease cfg f"
  by (simp add: idle_def owned_def exclusive_def in_lease_def)

lemma ClaimJob_Inr:
  "ClaimJob now jid db = (Inr job, db') \<longleftrightarrow>
     (\<exists>j. find_job jid db = Some j \<and> claimable j \<and> job = claimed now j \<and> db' = update_job jid (claimed now) db)"
  by (auto simp: ClaimJob_def split: option.splits if_splits)

text \<open>A row that a worker holds is untouched by every step but that worker's own last one.\<close>

lemma fleet_step_inv:
  assumes "fleet_step cfg f f'" and "owned f" and "exclusive f" and "in_lease cfg f"
  shows "owned f' \<and> exclusive f'"
  using assms(1)
proof (cases rule: fleet_step_cases)
  case (claim n jid job db)
  then obtain j where j: "find_job jid (f_table f) = Some j" "claimable j" "job = claimed (f_now f) j"
    "db = update_job jid (claimed (f_now f)) (f_table f)" by (auto simp: ClaimJob_Inr)
  have jid: "j_id job = jid" using find_job_Some [OF j(1)] j(3) by simp
  have other: "j_id k \<noteq> jid" if "f_busy f m = Some k" for m k
    using ownedD [OF assms(2) that] j(1,2) by (auto simp: claimable_def)
  have row: "find_job jid db = Some job" "j_status job = StatusRunning" "\<And>k. k \<noteq> jid \<Longrightarrow> find_job k db = find_job k (f_table f)"
    using j by (simp_all add: find_job_update claimed_def)
  have busy: "f_busy f' m = (if m = n then Some job else f_busy f m)" for m using claim(1) by simp
  have "owned f'"
    using row jid other ownedD [OF assms(2)] claim(1) unfolding owned_def busy by (auto split: if_splits)
  moreover have "exclusive f'"
    unfolding exclusive_def busy
    using jid other exclusiveD [OF assms(3)] by (metis option.inject)
  ultimately show ?thesis ..
next
  case (complete n job rep a b c d)
  have "j_id k \<noteq> j_id job" if "f_busy f m = Some k" "m \<noteq> n" for m k
    using exclusiveD [OF assms(3) complete(2) that(1)] that(2) by auto
  then show ?thesis using assms(2,3) unfolding owned_def exclusive_def complete(1)
    by (auto simp: find_job_CompleteJob split: sum.split)
next
  case (fail n job cause)
  have "j_id k \<noteq> j_id job" if "f_busy f m = Some k" "m \<noteq> n" for m k
    using exclusiveD [OF assms(3) fail(2) that(1)] that(2) by auto
  then show ?thesis using assms(2,3) unfolding owned_def exclusive_def fail(1)
    by (auto simp: find_job_MarkFailure)
next
  case (submit new_id nj)
  then show ?thesis using assms(2,3) by (auto simp: owned_def exclusive_def find_job_CreateJob)
next
  case reclaim
  then show ?thesis using assms(2-4) by (auto simp: owned_def exclusive_def in_lease_def find_job_ReclaimStale)
qed (use assms(2,3) in \<open>auto simp: owned_def exclusive_def\<close>)

lemma timely_inv:
  assumes "timely cfg f0 f" and "idle f0"
  shows "owned f \<and> exclusive f \<and> in_lease cfg f"
  using assms(1)
  by (induction rule: timely.induct) (use idle_inv [OF assms(2)] fleet_step_inv in \<open>blast+\<close>)

section \<open>Refinement of the life of a job\<close>

text \<open>Under the invariant, a step of the fleet takes every row along the state machine.\<close>

lemma owned_runs: "owned f \<Longrightarrow> f_busy f n = Some job \<Longrightarrow> runs (j_id job) (f_table f)"
  using ownedD by (fastforce simp: runs_def)

lemma fleet_step_moves:
  assumes "fleet_step cfg f f'" and "owned f"
  shows "moves jid (f_table f) (f_table f')"
  using assms(1)
proof (cases rule: fleet_step_cases)
  case (claim n jid' job db)
  then show ?thesis using ClaimJob_moves [of jid "f_table f" "f_now f" jid'] by simp
next
  case (submit new_id nj)
  then show ?thesis using find_job_CreateJob by (auto simp: moves_def)
next
  case (complete n job rep a b c d)
  then show ?thesis using CompleteJob_moves [OF owned_runs [OF assms(2) complete(2)]] by simp
next
  case (fail n job cause)
  then show ?thesis using MarkFailure_moves [OF owned_runs [OF assms(2) fail(2)]] by simp
qed (simp_all add: moves_same ReclaimStale_moves)

lemma timely_moves:
  assumes "timely cfg f0 f" and "idle f0"
  shows "moves jid (f_table f0) (f_table f)"
  using assms(1)
proof (induction rule: timely.induct)
  case start
  then show ?case by (simp add: moves_same)
next
  case (step f f')
  then show ?case
    using moves_trans [OF step.IH fleet_step_moves [OF step.hyps(2)]] timely_inv [OF step.hyps(1) assms(2)] by blast
qed


section \<open>The turns of a worker are paths of the fleet\<close>

text \<open>From \<open>f\<close> the table \<open>db\<close> is reached, and of the workers only \<open>n\<close> has changed, to \<open>b\<close>.\<close>

definition reaches :: "config \<Rightarrow> nat \<Rightarrow> job option \<Rightarrow> fleet \<Rightarrow> store_db \<Rightarrow> bool" where
  "reaches cfg n b f db \<longleftrightarrow>
     (\<exists>f'. (fleet_step cfg)\<^sup>*\<^sup>* f f' \<and> f_table f' = db \<and> f_busy f' = (f_busy f)(n := b))"

lemma reaches_refl: "f_busy f n = b \<Longrightarrow> reaches cfg n b f (f_table f)"
  unfolding reaches_def by (intro exI [of _ f]) auto

lemma reaches_trans:
  assumes "reaches cfg n b f db"
    and "\<And>f'. f_table f' = db \<Longrightarrow> f_busy f' n = b \<Longrightarrow> reaches cfg n b' f' db'"
  shows "reaches cfg n b' f db'"
proof -
  obtain f1 where 1: "(fleet_step cfg)\<^sup>*\<^sup>* f f1" "f_table f1 = db" "f_busy f1 = (f_busy f)(n := b)"
    using assms(1) by (auto simp: reaches_def)
  then obtain f2 where "(fleet_step cfg)\<^sup>*\<^sup>* f1 f2" "f_table f2 = db'" "f_busy f2 = (f_busy f1)(n := b')"
    using assms(2) [of f1] by (auto simp: reaches_def)
  then show ?thesis using 1 by (auto simp: reaches_def intro!: exI [of _ f2])
qed

lemma reaches_step:
  assumes "fleet_step cfg (f\<lparr>f_now := t\<rparr>) f'" and "f_busy f' = (f_busy f)(n := b)"
  shows "reaches cfg n b f (f_table f')"
proof -
  have "(fleet_step cfg)\<^sup>*\<^sup>* f f'"
    by (rule converse_rtranclp_into_rtranclp [of _ _ "f\<lparr>f_now := t\<rparr>"]) (simp_all add: fleet_step.tick assms(1) r_into_rtranclp)
  then show ?thesis using assms(2) unfolding reaches_def by blast
qed

lemma reaches_vanish: "reaches cfg n None f (f_table f)"
  using reaches_step [OF fleet_step.vanish [of cfg "f\<lparr>f_now := t\<rparr>" n]] by simp

lemma reaches_record:
  "f_busy f n = Some job \<Longrightarrow> reaches cfg n (Some job) f (RecordRun t r (f_table f))"
  using reaches_step [OF fleet_step.record_run [of "f\<lparr>f_now := t\<rparr>" n job cfg r], of n "Some job"]
  by (simp add: fun_upd_idem)

lemma reaches_complete:
  "f_busy f n = Some job \<Longrightarrow> reaches cfg n None f (snd (CompleteJob t (j_id job) rep a b c d (f_table f)))"
  using reaches_step [OF fleet_step.complete [of "f\<lparr>f_now := t\<rparr>" n job cfg rep a b c d], of n None] by simp

lemma reaches_fail:
  "f_busy f n = Some job \<Longrightarrow> reaches cfg n None f (snd (MarkFailure t (j_id job) cause (f_table f)))"
  using reaches_step [OF fleet_step.fail [of "f\<lparr>f_now := t\<rparr>" n job cfg cause], of n None] by simp

lemma reaches_claim:
  "f_busy f n = None \<Longrightarrow> ClaimJob t jid (f_table f) = (Inr job, db) \<Longrightarrow> reaches cfg n (Some job) f db"
  using reaches_step [OF fleet_step.claim [of "f\<lparr>f_now := t\<rparr>" n jid job db cfg], of n "Some job"] by simp

lemma reaches_lost_claim:
  assumes "f_busy f n = None"
  shows "reaches cfg n None f (snd (ClaimJob t jid (f_table f)))"
proof (cases "fst (ClaimJob t jid (f_table f))")
  case (Inr job)
  then have "ClaimJob t jid (f_table f) = (Inr job, snd (ClaimJob t jid (f_table f)))" by (metis surjective_pairing)
  from reaches_trans [OF reaches_claim [OF assms this]] show ?thesis using reaches_vanish by metis
next
  case (Inl err)
  then have "snd (ClaimJob t jid (f_table f)) = f_table f" by (auto simp: ClaimJob_def split: option.splits if_splits)
  then show ?thesis using reaches_refl [of f n None cfg] assms by simp
qed

lemma reaches_record_op:
  assumes "f_busy f n = Some job" and "f_table f = h_store h"
  shows "reaches cfg n (Some job) f (h_store (record_op wk r h))"
proof -
  obtain x h1 where s: "store_op (\<lambda>db. (Inr (), RecordRun (now_of wk h) r db)) h = (x, h1)" by fastforce
  show ?thesis using store_op_frame(3) [OF s] reaches_refl [OF assms(1)] reaches_record [OF assms(1)] assms(2)
    by (auto simp: record_op_def s)
qed

lemma reaches_recordRuns:
  "f_busy f n = Some job \<Longrightarrow> f_table f = h_store h \<Longrightarrow> reaches cfg n (Some job) f (h_store (recordRuns wk job' rep h))"
proof -
  have "f_busy f n = Some job \<Longrightarrow> f_table f = h_store h \<Longrightarrow>
      reaches cfg n (Some job) f (h_store (fold (record_op wk) rs h))" for rs and f :: fleet and h :: "'a host"
  proof (induction rs arbitrary: f h)
    case Nil
    then show ?case using reaches_refl by fastforce
  next
    case (Cons r rs)
    from reaches_trans [OF reaches_record_op [OF Cons.prems, of cfg wk r] Cons.IH [of _ "record_op wk r h"]]
    show ?case by simp
  qed
  then show "f_busy f n = Some job \<Longrightarrow> f_table f = h_store h \<Longrightarrow> ?thesis" by (simp add: recordRuns_def)
qed

lemma reaches_complete_op:
  assumes "f_busy f n = Some job" and "f_table f = h_store h"
  shows "reaches cfg n None f (h_store (complete_op wk job s rep h))"
  unfolding complete_op_def
  using store_op_frame(3) [OF surjective_pairing] reaches_complete [OF assms(1)] reaches_vanish assms(2) by metis

lemma reaches_scheduleRetry:
  assumes "f_busy f n = Some job" and "f_table f = h_store h"
  shows "reaches cfg n None f (h_store (scheduleRetry wk job req cause h))"
proof -
  obtain r h1 where s: "store_op (MarkFailure (now_of wk h) (j_id job) cause) h = (r, h1)" by fastforce
  have "h_store (scheduleRetry wk job req cause h) = h_store h1"
    by (simp add: scheduleRetry_def s Let_def publish_op_frame(2) split: prod.split sum.split option.split)
  then show ?thesis using store_op_frame(3) [OF s] reaches_fail [OF assms(1)] reaches_vanish assms(2) by metis
qed

lemma reaches_handle:
  assumes "f_busy f n = None" and "f_table f = h_store h"
  shows "reaches cfg n None f (h_store (handle wk req h))"
proof -
  obtain r h1 where c: "store_op (ClaimJob (now_of wk h) (q_job req)) h = (r, h1)" by fastforce
  show ?thesis
  proof (cases r)
    case (Inl err)
    then have "h_store (handle wk req h) = h_store h1" by (simp add: handle_def c)
    then show ?thesis
      using store_op_frame(3) [OF c] reaches_lost_claim [OF assms(1)] reaches_refl [OF assms(1)] assms(2) by metis
  next
    case (Inr job)
    obtain x w where x: "Run (wk_opt wk) (j_sql job) (h_world h1) = (x, w)" by fastforce
    let ?h = "h1\<lparr>h_world := w\<rparr>"
    have "ClaimJob (now_of wk h) (q_job req) (f_table f) = (Inr job, h_store ?h)"
      using store_op_frame(4) [OF c Inr] assms(2) by simp
    from reaches_claim [OF assms(1) this] have 1: "reaches cfg n (Some job) f (h_store ?h)" .
    show ?thesis
    proof (cases x)
      case (Inl err)
      have "reaches cfg n None f (h_store (scheduleRetry wk job req (err_text err) ?h))"
        by (rule reaches_trans [OF 1]) (rule reaches_scheduleRetry)
      then show ?thesis by (simp add: handle_def c \<open>r = Inr job\<close> x Inl)
    next
      case (Inr rep)
      have "reaches cfg n (Some job) f (h_store (recordRuns wk job rep ?h))"
        by (rule reaches_trans [OF 1]) (rule reaches_recordRuns)
      then have "reaches cfg n None f (h_store (complete_op wk job (now_of wk h1) rep (recordRuns wk job rep ?h)))"
        by (rule reaches_trans) (rule reaches_complete_op)
      then show ?thesis by (simp add: handle_def c \<open>r = Inr job\<close> x Inr)
    qed
  qed
qed

lemma reaches_happens:
  assumes "service_event x" and "f_busy f n = None" and "f_table f = h_store h"
  shows "reaches (wk_cfg wk) n None f (h_store (happens wk x h))"
proof (cases x)
  case (Deliver req)
  then show ?thesis using reaches_handle [OF assms(2,3)] by simp
next
  case Reclaim
  have "reaches (wk_cfg wk) n None f (snd (ReclaimStale (now_of wk h) (lease_time (wk_cfg wk)) (f_table f)))"
    using reaches_step [OF fleet_step.reclaim [of "wk_cfg wk" "f\<lparr>f_now := now_of wk h\<rparr>"], of n None] assms(2)
    by (simp add: fun_upd_idem)
  moreover have "h_store (reclaim_step wk h) = h_store h \<or>
      h_store (reclaim_step wk h) = snd (ReclaimStale (now_of wk h) (lease_time (wk_cfg wk)) (h_store h))"
    using store_op_frame(3) [OF surjective_pairing] unfolding reclaim_step_def by (metis (mono_tags, lifting) case_prod_unfold snd_conv)
  ultimately show ?thesis using Reclaim reaches_refl [OF assms(2)] assms(3) by (metis happens.simps(2))
next
  case (Statement e)
  then obtain new_id t nj where "e = EvCreate new_id t nj" using assms(1) by (cases e) auto
  then show ?thesis
    using Statement reaches_step [OF fleet_step.submit [of "wk_cfg wk" "f\<lparr>f_now := t\<rparr>" new_id nj], of n None] assms(2,3)
    by (simp add: fun_upd_idem)
next
  case (Outside w b fs)
  then show ?thesis using reaches_refl [OF assms(2)] assms(3) by (metis happens.simps(4) host.select_convs(2) host.surjective host.update_convs(1,3,4))
qed


section \<open>Without the deadline\<close>

text \<open>
  \<open>CompleteJob\<close> and \<open>MarkFailure\<close> name the job but not the attempt they speak for.  So a worker that
  comes back after its lease, from a pause of its process say, changes the row of a job that another
  worker has finished: a job that has succeeded becomes retrying or failed, with the report still in it.
\<close>
theorem late_worker_overwrites:
  assumes "find_job jid (f_table f) = Some j" and "claimable j" and "j_attempts j + 2 \<le> j_max_attempts j"
    and "f_busy f 0 = None" and "f_busy f 1 = None"
  shows "\<exists>f1 f2 j1 j2. (fleet_step cfg)\<^sup>*\<^sup>* f f1 \<and> find_job jid (f_table f1) = Some j1 \<and> j_status j1 = StatusSucceeded \<and>
    fleet_step cfg f1 f2 \<and> find_job jid (f_table f2) = Some j2 \<and>
    (j_status j2 = StatusRetrying \<or> j_status j2 = StatusFailed) \<and> j_report j2 = j_report j1 \<and> j_report j1 \<noteq> None"
proof -
  let ?t = "f_now f + whole_seconds (lease_time cfg) + 1"
  let ?ja = "claimed (f_now f) j" let ?jr = "reclaimed ?t ?ja" let ?jb = "claimed ?t ?jr"
  let ?js = "completed ?t ''report'' 0 0 0 0 ?jb"
  have jid: "j_id j = jid" using find_job_Some [OF assms(1)] by blast
  have stale: "stale ?t (lease_time cfg) ?ja" by (simp add: stale_def claimed_def)
  have again: "claimable ?jr" using assms(3) by (simp add: claimable_def reclaimed_def failed_status_def claimed_def)
  obtain db1 where c1: "ClaimJob (f_now f) jid (f_table f) = (Inr ?ja, db1)" and 1: "find_job jid db1 = Some ?ja"
    using assms(1,2) by (auto simp: ClaimJob_Inr find_job_update)
  let ?db2 = "snd (ReclaimStale ?t (lease_time cfg) db1)"
  have 2: "find_job jid ?db2 = Some ?jr" using 1 stale by (simp add: find_job_ReclaimStale)
  obtain db3 where c3: "ClaimJob ?t jid ?db2 = (Inr ?jb, db3)" and 3: "find_job jid db3 = Some ?jb"
    using 2 again by (auto simp: ClaimJob_Inr find_job_update)
  let ?db4 = "snd (CompleteJob ?t jid (Inr ''report'') 0 0 0 0 db3)"
  have 4: "find_job jid ?db4 = Some ?js" using 3 by (simp add: find_job_CompleteJob)
  let ?f1 = "f\<lparr>f_table := db1, f_busy := (f_busy f)(0 := Some ?ja)\<rparr>"
  let ?f2 = "?f1\<lparr>f_now := ?t\<rparr>" let ?f3 = "?f2\<lparr>f_table := ?db2\<rparr>"
  let ?f4 = "?f3\<lparr>f_table := db3, f_busy := (f_busy ?f3)(1 := Some ?jb)\<rparr>"
  let ?f5 = "?f4\<lparr>f_table := ?db4, f_busy := (f_busy ?f4)(1 := None)\<rparr>"
  let ?f6 = "?f5\<lparr>f_table := snd (MarkFailure ?t jid ''deadline'' ?db4), f_busy := (f_busy ?f5)(0 := None)\<rparr>"
  have s: "fleet_step cfg f ?f1" "fleet_step cfg ?f1 ?f2" "fleet_step cfg ?f2 ?f3" "fleet_step cfg ?f3 ?f4"
    using fleet_step.claim [OF assms(4) c1] fleet_step.tick fleet_step.reclaim [of cfg ?f2]
      fleet_step.claim [of ?f3 1 jid ?jb db3 cfg] assms(5) c3 by simp_all
  have s': "fleet_step cfg ?f4 ?f5" "fleet_step cfg ?f5 ?f6"
    using fleet_step.complete [of ?f4 1 ?jb cfg "Inr ''report''" 0 0 0 0] fleet_step.fail [of ?f5 0 ?ja cfg "''deadline''"] jid
    by simp_all
  have "(fleet_step cfg)\<^sup>*\<^sup>* f ?f5" using s s'(1) by (meson converse_rtranclp_into_rtranclp rtranclp.rtrancl_refl)
  moreover have "find_job jid (f_table ?f6) = Some (marked_failed ?t ''deadline'' ?js)"
    using 4 by (simp add: find_job_MarkFailure)
  ultimately show ?thesis using s'(2) 4
    by (intro exI [of _ ?f5] exI [of _ ?f6] exI [of _ ?js] exI [of _ "marked_failed ?t ''deadline'' ?js"])
      (auto simp: completed_def marked_failed_def failed_status_def)
qed

definition demo_fleet :: fleet where
  "demo_fleet = \<lparr>f_now = 10, f_table = demo_store, f_busy = (\<lambda>n. None)\<rparr>"

lemma late_worker_overwrites_witness:
  "\<exists>f1 f2 j1 j2. (fleet_step demo_config)\<^sup>*\<^sup>* demo_fleet f1 \<and> find_job ''job-1'' (f_table f1) = Some j1 \<and>
     j_status j1 = StatusSucceeded \<and> fleet_step demo_config f1 f2 \<and> find_job ''job-1'' (f_table f2) = Some j2 \<and>
     (j_status j2 = StatusRetrying \<or> j_status j2 = StatusFailed)"
proof -
  have "find_job ''job-1'' (f_table demo_fleet) = Some (job_row ''job-1'' 0 demo_new_job)"
    by (simp add: demo_fleet_def demo_store_row)
  from late_worker_overwrites [OF this demo_claimable, of demo_config] show ?thesis
    by (simp add: demo_fleet_def job_row_def demo_new_job_def) blast
qed

section \<open>Properties\<close>

text \<open>
  C9: mutual exclusion of the workers.  Whatever the order in which the statements of any number of
  workers, reclaim loops and clients reach the table, and whichever workers vanish, as long as no worker
  outlives its lease: a worker's job is running in the table, the row is still the one its claim returned,
  and no other worker has that job.
\<close>
theorem fleet_exclusive:
  assumes "idle f0" and "timely cfg f0 f" and "f_busy f n = Some job"
  shows "find_job (j_id job) (f_table f) = Some job \<and> j_status job = StatusRunning \<and>
    (\<forall>m job'. f_busy f m = Some job' \<and> j_id job' = j_id job \<longrightarrow> m = n)"
  using timely_inv [OF assms(2,1)] ownedD [of f n job] exclusiveD [of f n job] assms(3) by blast

lemma demo_idle: "idle demo_fleet"
  by (simp add: idle_def demo_fleet_def)

lemma demo_timely: "\<exists>f job. timely demo_config demo_fleet f \<and> f_busy f 0 = Some job"
proof -
  let ?j = "job_row ''job-1'' 0 demo_new_job"
  let ?f = "demo_fleet\<lparr>f_table := update_job ''job-1'' (claimed 10) demo_store,
    f_busy := (f_busy demo_fleet)(0 := Some (claimed 10 ?j))\<rparr>"
  have "ClaimJob (f_now demo_fleet) ''job-1'' (f_table demo_fleet) =
      (Inr (claimed 10 ?j), update_job ''job-1'' (claimed 10) demo_store)"
    by (simp add: ClaimJob_Inr demo_fleet_def demo_store_row demo_claimable)
  then have "fleet_step demo_config demo_fleet ?f"
    by (intro fleet_step.claim) (simp_all add: demo_fleet_def)
  moreover have "0 \<le> whole_seconds (lease_time demo_config)"
    by (simp add: demo_config_def lease_time_def wrap64_def read_env_def envDur_def env_parsed_def whole_seconds_def go_quot_def second_def)
  then have "in_lease demo_config ?f"
    by (simp add: in_lease_def stale_def demo_fleet_def claimed_def)
  ultimately have "timely demo_config demo_fleet ?f" by (meson timely.intros)
  then show ?thesis by (intro exI [of _ ?f]) simp
qed

lemma fleet_exclusive_witness:
  "\<exists>f job. timely demo_config demo_fleet f \<and> f_busy f 0 = Some job \<and> find_job (j_id job) (f_table f) = Some job \<and>
     j_status job = StatusRunning"
  using demo_timely fleet_exclusive [OF demo_idle] by blast

text \<open>
  C10: the fleet refines the life of a job, without taking the handling of a message as one step.  Under the
  same condition, the row of every job takes a path of the state machine, so a job that has succeeded or
  failed is never moved again, and the attempts stay within the limit.
\<close>
theorem fleet_refines_lifecycle:
  assumes "idle f0" and "timely cfg f0 f" and "find_job jid (f_table f0) = Some j"
  shows "\<exists>j'. find_job jid (f_table f) = Some j' \<and>
    (job_step (j_max_attempts j))\<^sup>*\<^sup>* (phase_of j) (phase_of j') \<and>
    (j_status j = StatusSucceeded \<or> j_status j = StatusFailed \<longrightarrow> phase_of j' = phase_of j) \<and>
    (phase_ok (j_max_attempts j) (phase_of j) \<longrightarrow> phase_ok (j_max_attempts j) (phase_of j'))"
proof -
  from timely_moves [OF assms(2,1)] assms(3) obtain j' where
    j': "find_job jid (f_table f) = Some j'" "(job_step (j_max_attempts j))\<^sup>*\<^sup>* (phase_of j) (phase_of j')"
    unfolding moves_def by blast
  then show ?thesis using final_stays [OF j'(2)] job_steps_ok [OF j'(2)] by (auto simp: phase_of_def)
qed

lemma fleet_refines_lifecycle_witness:
  "\<exists>f job j'. timely demo_config demo_fleet f \<and> f_busy f 0 = Some job \<and> find_job ''job-1'' (f_table f) = Some j' \<and>
     phase_ok 3 (phase_of j')"
proof -
  obtain f job where f: "timely demo_config demo_fleet f" "f_busy f 0 = Some job" using demo_timely by blast
  have j: "find_job ''job-1'' (f_table demo_fleet) = Some (job_row ''job-1'' 0 demo_new_job)"
    by (simp add: demo_fleet_def demo_store_row)
  have "j_max_attempts (job_row ''job-1'' 0 demo_new_job) = 3" "phase_ok 3 (phase_of (job_row ''job-1'' 0 demo_new_job))"
    by (simp_all add: job_row_def demo_new_job_def phase_of_def phase_ok_def)
  then show ?thesis using fleet_refines_lifecycle [OF demo_idle f(1) j] f by metis
qed

text \<open>
  C11: the steps of the fleet are those of the code.  Every turn of a worker (a message handled, under any
  faults of the remote calls; a reclaim) and every submission is, on the table, a path of fleet steps that
  leaves all workers as they were.
\<close>
theorem turns_are_fleet_paths:
  assumes "service_event x" and "f_busy f n = None" and "f_table f = h_store h"
  shows "\<exists>f'. (fleet_step (wk_cfg wk))\<^sup>*\<^sup>* f f' \<and> f_table f' = h_store (happens wk x h) \<and> f_busy f' = f_busy f"
  using reaches_happens [OF assms] assms(2) by (auto simp: reaches_def fun_upd_idem)

lemma turns_are_fleet_paths_witness:
  "\<exists>f'. (fleet_step demo_config)\<^sup>*\<^sup>* demo_fleet f' \<and> f_table f' = h_store (handle demo_worker demo_request demo_host)"
  using turns_are_fleet_paths [of "Deliver demo_request" demo_fleet 0 demo_host demo_worker]
  by (auto simp: demo_fleet_def demo_host_def demo_worker_def)

end
