(* ===== verification/Cache.thy ===== *)
theory Cache
  imports QF_Prelude
begin

text \<open>
  \<open>internal/cache/cache.go\<close>: the wrapper of Redis and the keys.  The Redis client is the parameter
  \<open>redis\<close>, where a missing key is \<open>None\<close> (\<open>redis.Nil\<close>), and SHA-256 in hexadecimal is the parameter
  \<open>sha256_hex\<close>.  No other package calls it: the worker only opens and pings it.
\<close>

section \<open>The operations\<close>

record 'w redis =
  rd_ping :: "'w \<Rightarrow> unit result \<times> 'w"
  rd_get :: "string \<Rightarrow> 'w \<Rightarrow> string option result \<times> 'w"
  rd_set :: "string \<Rightarrow> string \<Rightarrow> int \<Rightarrow> 'w \<Rightarrow> unit result \<times> 'w"

record redis_options =
  ro_addr :: string
  ro_password :: string
  ro_db :: int
  ro_dial_timeout :: int
  ro_read_timeout :: int
  ro_write_timeout :: int

text \<open>\<open>New\<close>; \<open>client\<close> is \<open>redis.NewClient\<close>.\<close>

definition cache_New :: "(redis_options \<Rightarrow> 'w redis) \<Rightarrow> string \<Rightarrow> string \<Rightarrow> int \<Rightarrow> 'w redis" where
  "cache_New client addr password db =
     client \<lparr>ro_addr = addr, ro_password = password, ro_db = db, ro_dial_timeout = 3 * second,
       ro_read_timeout = 2 * second, ro_write_timeout = 2 * second\<rparr>"

definition err_miss :: go_error where
  "err_miss = GoError ''cache miss'' [ErrMiss]"

definition cache_Ping :: "'w redis \<Rightarrow> 'w \<Rightarrow> unit result \<times> 'w" where
  "cache_Ping rd = rd_ping rd"

definition cache_Get :: "'w redis \<Rightarrow> string \<Rightarrow> 'w \<Rightarrow> string result \<times> 'w" where
  "cache_Get rd key w =
     (case rd_get rd key w of
        (Inl err, w1) \<Rightarrow> (Inl err, w1)
      | (Inr None, w1) \<Rightarrow> (Inl err_miss, w1)
      | (Inr (Some v), w1) \<Rightarrow> (Inr v, w1))"

definition cache_Set :: "'w redis \<Rightarrow> string \<Rightarrow> string \<Rightarrow> int \<Rightarrow> 'w \<Rightarrow> unit result \<times> 'w" where
  "cache_Set rd = rd_set rd"

definition key_material :: "string list \<Rightarrow> string" where
  "key_material parts = concat (map (\<lambda>p. p @ [CHR 0x00]) parts)"

definition cache_Key :: "(string \<Rightarrow> string) \<Rightarrow> string \<Rightarrow> string list \<Rightarrow> string" where
  "cache_Key sha256_hex namespace parts = namespace @ '':'' @ take 32 (sha256_hex (key_material parts))"

section \<open>Facts\<close>

lemma key_material_first:
  "CHR 0x00 \<notin> set p \<Longrightarrow> takeWhile (\<lambda>c. c \<noteq> CHR 0x00) (p @ CHR 0x00 # rest) = p \<and>
     tl (dropWhile (\<lambda>c. c \<noteq> CHR 0x00) (p @ CHR 0x00 # rest)) = rest"
  by (induction p) auto

text \<open>The terminator keeps the parts apart, as long as no part contains it.\<close>

lemma key_material_inj:
  "list_all (\<lambda>p. CHR 0x00 \<notin> set p) ps \<Longrightarrow> list_all (\<lambda>p. CHR 0x00 \<notin> set p) qs \<Longrightarrow>
   key_material ps = key_material qs \<Longrightarrow> ps = qs"
proof (induction ps arbitrary: qs)
  case Nil
  then show ?case by (cases qs) (simp_all add: key_material_def)
next
  case (Cons p ps)
  then obtain q qs' where qs: "qs = q # qs'" by (cases qs) (simp_all add: key_material_def)
  have eq: "p @ CHR 0x00 # key_material ps = q @ CHR 0x00 # key_material qs'"
    using Cons.prems(3) by (simp add: key_material_def qs)
  have free: "CHR 0x00 \<notin> set p" "CHR 0x00 \<notin> set q" using Cons.prems(1,2) qs by simp_all
  have "p = q \<and> key_material ps = key_material qs'"
    using key_material_first [OF free(1), of "key_material ps"] key_material_first [OF free(2), of "key_material qs'"]
    unfolding eq by metis
  then show ?case using Cons.IH [of qs'] Cons.prems(1,2) qs by simp
qed

lemma cache_Key_separates:
  assumes "cache_Key sha namespace ps = cache_Key sha namespace qs"
    and "inj_on (\<lambda>s. take 32 (sha s)) {key_material ps, key_material qs}"
    and "list_all (\<lambda>p. CHR 0x00 \<notin> set p) ps" "list_all (\<lambda>p. CHR 0x00 \<notin> set p) qs"
  shows "ps = qs"
  using assms by (intro key_material_inj) (auto simp: cache_Key_def dest: inj_onD)

lemma cache_Key_hides: "cache_Key sha namespace ps = cache_Key sha namespace qs" if "sha (key_material ps) = sha (key_material qs)"
  using that by (simp add: cache_Key_def)

end
