(* ===== verification/Processes.thy ===== *)
theory Processes
  imports Worker_Facts Api_Facts Cache
begin

text \<open>
  The two processes: \<open>main\<close> of \<open>cmd/worker/main.go\<close> and of \<open>cmd/api/main.go\<close>, up to the point where the
  loops and the handlers of the other theories run, with the clients of Kafka that
  \<open>internal/queue/queue.go\<close> makes for them.  How they end is the matter of \<open>Shutdown\<close>; logging is left out.
\<close>

section \<open>Kafka clients\<close>

record reader_config =
  rc_brokers :: "string list"
  rc_topic :: string
  rc_group :: string
  rc_min_bytes :: int
  rc_max_bytes :: int
  rc_commit_interval :: int
  rc_max_wait :: int

definition consumer_reader :: "string list \<Rightarrow> string \<Rightarrow> string \<Rightarrow> reader_config" where
  "consumer_reader brokers topic grp =
     \<lparr>rc_brokers = brokers, rc_topic = topic, rc_group = grp, rc_min_bytes = 1, rc_max_bytes = 10000000,
      rc_commit_interval = 0, rc_max_wait = 500000000\<rparr>"

datatype acks = RequireNone | RequireOne | RequireAll

record writer_config =
  wc_brokers :: "string list"
  wc_hash_balancer :: bool
  wc_required_acks :: acks
  wc_batch_timeout :: int
  wc_max_attempts :: int

definition NewProducer :: "string list \<Rightarrow> writer_config" where
  "NewProducer brokers =
     \<lparr>wc_brokers = brokers, wc_hash_balancer = True, wc_required_acks = RequireAll, wc_batch_timeout = 50000000,
      wc_max_attempts = 5\<rparr>"

record topic_config =
  tc_topic :: string
  tc_partitions :: int
  tc_replication :: int

text \<open>Connections to brokers are numbers; \<open>kf_Controller\<close> is the address of the controller.\<close>

record 'w kafka_admin =
  kf_Dial :: "string \<Rightarrow> 'w \<Rightarrow> nat result \<times> 'w"
  kf_Controller :: "nat \<Rightarrow> 'w \<Rightarrow> (string \<times> int) result \<times> 'w"
  kf_CreateTopics :: "nat \<Rightarrow> topic_config list \<Rightarrow> 'w \<Rightarrow> unit result \<times> 'w"
  kf_Close :: "nat \<Rightarrow> 'w \<Rightarrow> 'w"

definition index_out_of_range :: go_error where
  "index_out_of_range = new_error ''runtime error: index out of range [0] with length 0''"

text \<open>The deferred closing runs on every path after the dial.\<close>

definition EnsureTopics :: "'w kafka_admin \<Rightarrow> string list \<Rightarrow> string list \<Rightarrow> int \<Rightarrow> 'w \<Rightarrow> unit result \<times> 'w" where
  "EnsureTopics adm brokers topics partitions w =
     (case brokers of
        [] \<Rightarrow> (Inl index_out_of_range, w)
      | b # _ \<Rightarrow>
          case kf_Dial adm b w of
            (Inl err, w1) \<Rightarrow> (Inl err, w1)
          | (Inr conn, w1) \<Rightarrow>
              case
                (case kf_Controller adm conn w1 of
                   (Inl err, w2) \<Rightarrow> (Inl err, w2)
                 | (Inr (host, port), w2) \<Rightarrow>
                     case kf_Dial adm (host @ '':'' @ show_int port) w2 of
                       (Inl err, w3) \<Rightarrow> (Inl err, w3)
                     | (Inr cc, w3) \<Rightarrow>
                         case kf_CreateTopics adm cc
                             (map (\<lambda>t. \<lparr>tc_topic = t, tc_partitions = partitions, tc_replication = 1\<rparr>) topics) w3 of
                           (r, w4) \<Rightarrow> (r, kf_Close adm cc w4))
              of (r, w5) \<Rightarrow> (r, kf_Close adm conn w5))"

section \<open>Starting\<close>

text \<open>
  What the processes get from outside: the libraries, the environment's time and identifiers, and
  \<open>pf_number\<close>, the reading of a float as a number.
\<close>

record 'w platform =
  pf_connector :: "'w connector"
  pf_json :: json_lib
  pf_schemaSQL :: string
  pf_redis :: "redis_options \<Rightarrow> 'w redis"
  pf_kafka :: "'w kafka_admin"
  pf_wait :: "int \<Rightarrow> 'w \<Rightarrow> unit result \<times> 'w"
  pf_parsers :: parsers
  pf_http :: "int \<Rightarrow> 'w http"
  pf_clock :: "'w \<Rightarrow> int"
  pf_decode_proposals :: "string \<Rightarrow> (string \<times> string) list result"
  pf_codec :: codec
  pf_marshal :: "report \<Rightarrow> string result"
  pf_sleep :: "int \<Rightarrow> 'w \<Rightarrow> 'w"
  pf_parse_uuid :: "string \<Rightarrow> string result"
  pf_number :: "go_float \<Rightarrow> real"

text \<open>A process either exits with status 1, after the log entry and the error, or goes on.\<close>

datatype 'a start = Exited string go_error | Started 'a

definition openStoreWithRetry :: "'w platform \<Rightarrow> string \<Rightarrow> 'w \<Rightarrow> nat result \<times> 'w" where
  "openStoreWithRetry pf dsn = open_with_retry (store_Open (con_pool (pf_connector pf)) dsn) (pf_wait pf)"

definition openTargetWithRetry :: "'w platform \<Rightarrow> config \<Rightarrow> 'w \<Rightarrow> 'w engine result \<times> 'w" where
  "openTargetWithRetry pf cfg =
     open_with_retry (Open (pf_connector pf) (pf_json pf) (TargetDSN cfg) (TargetDialect cfg) (worker_timings cfg)) (pf_wait pf)"

text \<open>The copy of the function in \<open>cmd/api\<close>, which differs in what it logs.\<close>

definition api_openStoreWithRetry :: "'w platform \<Rightarrow> string \<Rightarrow> 'w \<Rightarrow> nat result \<times> 'w" where
  "api_openStoreWithRetry pf dsn = open_with_retry (store_Open (con_pool (pf_connector pf)) dsn) (pf_wait pf)"

text \<open>The first steps of both: configuration, store, schema.\<close>

definition start_store ::
    "(string \<Rightarrow> 'w \<Rightarrow> nat result \<times> 'w) \<Rightarrow> 'w platform \<Rightarrow> (string \<Rightarrow> string) \<Rightarrow> 'w \<Rightarrow> (config \<times> nat) start \<times> 'w" where
  "start_store opener pf getenv w =
     (case Load getenv of
        Inl err \<Rightarrow> (Exited ''configuration'' err, w)
      | Inr cfg \<Rightarrow>
          case opener (MetadataDSN cfg) w of
            (Inl err, w1) \<Rightarrow> (Exited ''metadata database'' err, w1)
          | (Inr st, w1) \<Rightarrow>
              case store_Migrate (con_pool (pf_connector pf)) (pf_schemaSQL pf) st w1 of
                (Inl err, w2) \<Rightarrow> (Exited ''migrate'' err, w2)
              | (Inr _, w2) \<Rightarrow> (Started (cfg, st), w2))"

section \<open>The worker\<close>

text \<open>\<open>llm.New\<close> takes 90 seconds for a timeout of zero.\<close>

definition llm_timeout :: "int \<Rightarrow> int" where
  "llm_timeout t = (if t = 0 then 90 * second else t)"

definition new_optimizer :: "'w platform \<Rightarrow> config \<Rightarrow> 'w engine \<Rightarrow> 'w optimizer" where
  "new_optimizer pf cfg eng =
     (let model = Some (new_client (GeminiAPIKey cfg) (GeminiModel cfg)) in
      \<lparr>op_engine = eng, op_llm = model, op_opts = worker_options cfg (pf_number pf (MinImprovementPct cfg)) model,
       op_dialect = eng_dialect eng, op_parsers = pf_parsers pf, op_http = pf_http pf (llm_timeout (LLMTimeout cfg)),
       op_clock = pf_clock pf, decode_proposals = pf_decode_proposals pf\<rparr>)"

definition new_worker :: "'w platform \<Rightarrow> config \<Rightarrow> 'w engine \<Rightarrow> 'w worker" where
  "new_worker pf cfg eng =
     \<lparr>wk_cfg = cfg, wk_opt = new_optimizer pf cfg eng, wk_codec = pf_codec pf, wk_marshal = pf_marshal pf,
      wk_sleep = pf_sleep pf\<rparr>"

text \<open>One reader of the job topic per unit of concurrency, and one for each retry topic.\<close>

definition worker_readers :: "config \<Rightarrow> reader_config list" where
  "worker_readers cfg =
     replicate (nat (WorkerConcurrency cfg)) (consumer_reader (KafkaBrokers cfg) (JobTopic cfg) (ConsumerGrp cfg)) @
     map (\<lambda>(topic, delay). consumer_reader (KafkaBrokers cfg) topic (ConsumerGrp cfg @ ''.retry'')) (retry_consumers cfg)"

record 'w running_worker =
  rw_worker :: "'w worker"
  rw_store :: nat
  rw_cache :: bool
  rw_producer :: writer_config
  rw_readers :: "reader_config list"

definition worker_main :: "'w platform \<Rightarrow> (string \<Rightarrow> string) \<Rightarrow> 'w \<Rightarrow> 'w running_worker start \<times> 'w" where
  "worker_main pf getenv w =
     (case start_store (openStoreWithRetry pf) pf getenv w of
        (Exited what err, w1) \<Rightarrow> (Exited what err, w1)
      | (Started (cfg, st), w1) \<Rightarrow>
          case openTargetWithRetry pf cfg w1 of
            (Inl err, w2) \<Rightarrow> (Exited ''target database'' err, w2)
          | (Inr target, w2) \<Rightarrow>
              case cache_Ping (cache_New (pf_redis pf) (RedisAddr cfg) (RedisPassword cfg) (RedisDB cfg)) w2 of
                (ping, w3) \<Rightarrow>
                  (Started \<lparr>rw_worker = new_worker pf cfg target, rw_store = st, rw_cache = is_ok ping,
                     rw_producer = NewProducer (KafkaBrokers cfg), rw_readers = worker_readers cfg\<rparr>, w3))"

section \<open>The API\<close>

definition NewServer :: "'w platform \<Rightarrow> config \<Rightarrow> 'w \<Rightarrow> 'w api_server" where
  "NewServer pf cfg w =
     \<lparr>sv_cfg = cfg, sv_parsers = pf_parsers pf, sv_codec = pf_codec pf, parse_uuid = pf_parse_uuid pf,
      sv_clock = pf_clock pf, sv_started = pf_clock pf w\<rparr>"

text \<open>The topics are created if possible; a failure is only logged.\<close>

definition api_main :: "'w platform \<Rightarrow> (string \<Rightarrow> string) \<Rightarrow> 'w \<Rightarrow> 'w api_server start \<times> 'w" where
  "api_main pf getenv w =
     (case start_store (api_openStoreWithRetry pf) pf getenv w of
        (Exited what err, w1) \<Rightarrow> (Exited what err, w1)
      | (Started (cfg, st), w1) \<Rightarrow>
          case EnsureTopics (pf_kafka pf) (KafkaBrokers cfg) (AllTopics (JobTopic cfg) (DLQTopic cfg)) 3 w1 of
            (r, w2) \<Rightarrow> (Started (NewServer pf cfg w2), w2))"

section \<open>Facts\<close>

lemma split_at_nonempty: "split_at c s \<noteq> []"
  by (induction c s rule: split_at.induct) (auto split: list.split)

lemma Load_brokers: "Load getenv = Inr cfg \<Longrightarrow> KafkaBrokers cfg \<noteq> []"
  by (auto simp: Load_Inr read_env_def split_at_nonempty)

lemma retry_consumers_topics: "retry_consumers cfg = [(JobTopic cfg @ ''.retry.15s'', 15 * second), (JobTopic cfg @ ''.retry.120s'', 120 * second)]"
  by (simp add: retry_consumers_def upt_rec RetryTopic_texts)

lemma worker_readers_topics:
  "r \<in> set (worker_readers cfg) \<Longrightarrow> rc_topic r \<in> set (AllTopics (JobTopic cfg) (DLQTopic cfg))"
  "length (worker_readers cfg) = nat (WorkerConcurrency cfg) + 2"
  by (auto simp: worker_readers_def retry_consumers_topics AllTopics_texts consumer_reader_def)

lemma open_with_retry_Inr:
  "open_with_retry connect wait w = (Inr x, w') \<Longrightarrow> \<exists>w1. connect w1 = (Inr x, w')"
proof -
  have "open_attempts n connect wait e w = (Inr x, w') \<Longrightarrow> \<exists>w1. connect w1 = (Inr x, w')" for n e w
    by (induction n arbitrary: e w) (auto split: prod.splits sum.splits)
  then show "open_with_retry connect wait w = (Inr x, w') \<Longrightarrow> ?thesis" by (simp add: open_with_retry_def)
qed

lemma start_store_Started:
  assumes "start_store opener pf getenv w = (Started (cfg, st), w')"
  shows "Load getenv = Inr cfg \<and> (\<exists>w1. opener (MetadataDSN cfg) w = (Inr st, w1) \<and>
    store_Migrate (con_pool (pf_connector pf)) (pf_schemaSQL pf) st w1 = (Inr (), w'))"
  using assms by (auto simp: start_store_def split: sum.splits prod.splits)

lemma openTarget_engine: "openTargetWithRetry pf cfg w = (Inr eng, w') \<Longrightarrow> target_engine eng \<and>
    (eng_dialect eng = DialectPostgres \<or> eng_dialect eng = DialectMySQL)"
proof -
  assume a: "openTargetWithRetry pf cfg w = (Inr eng, w')"
  obtain w1 where e: "Open (pf_connector pf) (pf_json pf) (TargetDSN cfg) (TargetDialect cfg) (worker_timings cfg) w1 = (Inr eng, w')"
    using open_with_retry_Inr [OF a [unfolded openTargetWithRetry_def]] by blast
  show ?thesis using Open_target_engine [OF e] Open_engine [OF e]
    by (auto simp: postgres_engine_def mysql_engine_def DialectPostgres_def DialectMySQL_def)
qed


text \<open>What a started API has, and that creating the topics closes every connection it opens.\<close>

lemma api_starts_ready:
  assumes "api_main pf getenv w = (Started sv, w')"
  shows "\<exists>cfg st w1 w2. Load getenv = Inr cfg \<and> sv_cfg sv = cfg \<and> api_openStoreWithRetry pf (MetadataDSN cfg) w = (Inr st, w1) \<and>
    store_Migrate (con_pool (pf_connector pf)) (pf_schemaSQL pf) st w1 = (Inr (), w2) \<and>
    w' = snd (EnsureTopics (pf_kafka pf) (KafkaBrokers cfg) (AllTopics (JobTopic cfg) (DLQTopic cfg)) 3 w2)"
proof -
  obtain cfg st w1 where s: "start_store (api_openStoreWithRetry pf) pf getenv w = (Started (cfg, st), w1)"
    using assms by (auto simp: api_main_def split: prod.splits start.splits)
  show ?thesis using start_store_Started [OF s] assms
    by (auto simp: api_main_def s NewServer_def split: prod.splits)
qed

definition counts_connections :: "'w kafka_admin \<Rightarrow> ('w \<Rightarrow> int) \<Rightarrow> bool" where
  "counts_connections adm live \<longleftrightarrow>
     (\<forall>a w. live (snd (kf_Dial adm a w)) = live w + of_bool (is_ok (fst (kf_Dial adm a w)))) \<and>
     (\<forall>c w. live (snd (kf_Controller adm c w)) = live w) \<and> (\<forall>c ts w. live (snd (kf_CreateTopics adm c ts w)) = live w) \<and>
     (\<forall>c w. live (kf_Close adm c w) = live w - 1)"

lemma EnsureTopics_closes:
  assumes "counts_connections adm live"
  shows "live (snd (EnsureTopics adm brokers topics n w)) = live w"
proof -
  have dial: "kf_Dial adm a w = (r, w') \<Longrightarrow> live w' = live w + of_bool (is_ok r)" for a r w w'
    using assms by (metis counts_connections_def fst_conv snd_conv)
  have rest: "kf_Controller adm c w = (r, w') \<Longrightarrow> live w' = live w" "kf_CreateTopics adm c ts w = (q, w') \<Longrightarrow> live w' = live w"
    for c r ts q w w' using assms by (metis counts_connections_def snd_conv)+
  have close: "live (kf_Close adm c w) = live w - 1" for c w using assms by (simp add: counts_connections_def)
  show ?thesis
    by (auto simp: EnsureTopics_def close split: list.split sum.split prod.split dest!: dial rest)
qed

section \<open>Topics\<close>

lemma send_op_other:
  "send_op cd topic req h = (r, h1) \<Longrightarrow> t \<noteq> topic \<Longrightarrow> h_broker h1 t = h_broker h t"
  using send_op_frame(3) [of cd topic req h r h1] by (auto simp: Publish_def split: sum.splits)

lemma publish_op_other: "publish_op wk topic req h = (r, h1) \<Longrightarrow> t \<noteq> topic \<Longrightarrow> h_broker h1 t = h_broker h t"
  unfolding publish_op_def by (rule send_op_other)

lemma dead_letter_other: "t \<noteq> DLQTopic (wk_cfg wk) \<Longrightarrow> h_broker (dead_letter wk req h) t = h_broker h t"
  unfolding dead_letter_def by (rule publish_op_other [OF surjective_pairing])

lemma recordRuns_broker: "h_broker (recordRuns wk job rep h) = h_broker h"
proof -
  have "h_broker (record_op wk r h) = h_broker h" for r and h :: "'a host"
    unfolding record_op_def using store_op_frame(2) [OF surjective_pairing] .
  then have "h_broker (fold (record_op wk) rs h) = h_broker h" for rs and h :: "'a host"
    by (induction rs arbitrary: h) simp_all
  then show ?thesis by (simp add: recordRuns_def)
qed

lemma complete_op_broker: "h_broker (complete_op wk job s rep h) = h_broker h"
  unfolding complete_op_def using store_op_frame(2) [OF surjective_pairing] .

lemma scheduleRetry_other:
  assumes "t \<notin> set (AllTopics (JobTopic (wk_cfg wk)) (DLQTopic (wk_cfg wk)))"
  shows "h_broker (scheduleRetry wk job req cause h) t = h_broker h t"
proof -
  obtain r h1 where s: "store_op (MarkFailure (now_of wk h) (j_id job) cause) h = (r, h1)" by fastforce
  have dlq: "t \<noteq> DLQTopic (wk_cfg wk)" using assms by (auto simp: AllTopics_texts)
  have tier: "t \<noteq> topic" if "RetryTopic (JobTopic (wk_cfg wk)) n = Some (topic, d)" for n topic d
    using AllTopics_published [OF that] assms by blast
  show ?thesis
    unfolding scheduleRetry_def s Let_def prod.case store_op_frame(2) [OF s, symmetric]
    by (auto simp: dead_letter_other [OF dlq] split: option.split prod.split sum.split if_splits
        dest: publish_op_other tier)
qed

lemma handle_other:
  assumes "t \<notin> set (AllTopics (JobTopic (wk_cfg wk)) (DLQTopic (wk_cfg wk)))"
  shows "h_broker (handle wk req h) t = h_broker h t"
proof -
  obtain r h1 where c: "store_op (ClaimJob (now_of wk h) (q_job req)) h = (r, h1)" by fastforce
  show ?thesis using store_op_frame(2) [OF c] scheduleRetry_other [OF assms]
    by (auto simp: handle_def c complete_op_broker recordRuns_broker split: sum.split prod.split)
qed

section \<open>Properties\<close>


text \<open>A platform on which everything succeeds.\<close>

definition demo_platform :: "(bool \<times> nat) platform" where
  "demo_platform =
     \<lparr>pf_connector = demo_connector, pf_json = demo_json, pf_schemaSQL = ''CREATE TABLE'',
      pf_redis = (\<lambda>opts. \<lparr>rd_ping = \<lambda>w. (Inl (new_error ''down''), w), rd_get = \<lambda>k w. (Inr None, w),
        rd_set = \<lambda>k v t w. (Inr (), w)\<rparr>),
      pf_kafka = \<lparr>kf_Dial = \<lambda>a w. (Inr 1, w), kf_Controller = \<lambda>c w. (Inr (''kafka'', 9092), w),
        kf_CreateTopics = \<lambda>c ts w. (Inr (), w), kf_Close = \<lambda>c w. w\<rparr>,
      pf_wait = \<lambda>t w. (Inr (), w), pf_parsers = demo_parsers,
      pf_http = (\<lambda>t. \<lparr>http_new_request = \<lambda>u. Inr (), http_post = \<lambda>u b w. (Inl (new_error ''down''), w),
        http_wait = \<lambda>t w. (Inr (), w), http_now = \<lambda>w. 0, marshal_request = \<lambda>r. Inr ''{}'',
        decode_response = \<lambda>s. Inl (new_error s)\<rparr>),
      pf_clock = (\<lambda>w. 0), pf_decode_proposals = \<lambda>s. Inr [], pf_codec = demo_codec, pf_marshal = \<lambda>r. Inr ''{}'',
      pf_sleep = \<lambda>t w. w, pf_parse_uuid = Inr, pf_number = \<lambda>x. (case x of Finite p \<Rightarrow> p | _ \<Rightarrow> 0)\<rparr>"

lemma demo_start:
  "\<exists>rw. worker_main demo_platform (\<lambda>k. '''') (False, 0) = (Started rw, (False, 0))"
proof -
  let ?cfg = "read_env (\<lambda>k. '''')"
  have cfg: "Load (\<lambda>k. '''') = Inr ?cfg"
    by (simp add: Load_Inr read_env_def envInt_def envFloat_def env_parsed_def)
  have pool: "open_pool demo_pools n t dsn w = (Inr 1, w)" for n t dsn w by (simp add: open_pool_def demo_pools_def)
  have thirty: "open_with_retry connect wait w = connect w" if "connect w = (Inr x, w1)" for connect wait and w :: "bool \<times> nat" and x :: 'a and w1
  proof -
    have "open_attempts (Suc 29) connect wait (new_error '''') w = (Inr x, w1)" by (simp only: open_attempts.simps that) simp
    then show ?thesis using that by (simp add: open_with_retry_def)
  qed
  have dsn: "DialectForDSN (TargetDSN ?cfg) = Inr ''postgres''" "TargetDialect ?cfg = ''''"
    by (simp_all add: read_env_def env_def trim_space_def trim_func_def trim_left_def trim_right_def) (code_simp)
  have store: "openStoreWithRetry demo_platform dsn w = (Inr 1, w)" for dsn w
    unfolding openStoreWithRetry_def
    by (subst thirty [of _ _ 1 w]) (simp_all add: store_Open_def demo_platform_def demo_connector_def pool)
  have eng: "Open demo_connector demo_json (TargetDSN ?cfg) (TargetDialect ?cfg) tim w =
      (Inr (postgres_engine demo_pgx tim demo_json), w)" for tim w
    by (simp add: Open_def dsn NewPostgres_def bind_io_def demo_connector_def pool)
  have target: "openTargetWithRetry demo_platform ?cfg w = (Inr (postgres_engine demo_pgx (worker_timings ?cfg) demo_json), w)" for w
    unfolding openTargetWithRetry_def
    by (subst thirty [of _ w "postgres_engine demo_pgx (worker_timings ?cfg) demo_json" w]) (simp_all add: demo_platform_def eng)
  have "start_store (openStoreWithRetry demo_platform) demo_platform (\<lambda>k. '''') w = (Started (?cfg, 1), w)" for w
    by (simp add: start_store_def cfg store store_Migrate_def) (simp add: demo_platform_def demo_connector_def demo_pools_def)
  then show ?thesis
    by (simp add: worker_main_def target cache_Ping_def cache_New_def) (simp add: demo_platform_def)
qed



lemma wait_until_broker: "h_broker (wait_until wk t h) = h_broker h"
  by (simp add: wait_until_def sleep_for_def)

lemma consumeRetry_other:
  assumes "t \<noteq> JobTopic (wk_cfg wk)"
  shows "h_broker (snd (consumeRetry_step wk c h)) t = h_broker h t"
  using publish_op_other [of wk "JobTopic (wk_cfg wk)"] assms
  by (auto simp: consumeRetry_step_def sleep_for_def commit_op_def wait_until_broker
      split: option.split sum.split prod.split)

lemma createOptimization_other:
  assumes "t \<noteq> JobTopic (sv_cfg sv)"
  shows "h_broker (snd (createOptimization sv new_id body h)) t = h_broker h t"
proof -
  have create: "h_broker h1 = h_broker h" if "store_op (CreateJob new_id u nj) h = (r, h1)" for u nj r h1
    using store_op_frame(2) [OF that] .
  have send: "h_broker h2 t = h_broker h1 t" if "send_op (sv_codec sv) (JobTopic (sv_cfg sv)) req h1 = (r, h2)" for req r and h1 h2 :: "'a host"
    using send_op_other [OF that assms] .
  show ?thesis
    by (auto simp: createOptimization_def split: sum.split prod.split dest!: create send)
qed

text \<open>
  C18: no message goes astray.  A worker that handles a message or moves one out of a retry tier, under any
  faults, and the API that takes a submission write to no topic other than those of \<open>AllTopics\<close>, which are
  the ones that the API creates; every topic that the worker reads is one of them.
\<close>
theorem topics_closed:
  assumes "t \<notin> set (AllTopics (JobTopic cfg) (DLQTopic cfg))" and "wk_cfg wk = cfg" and "sv_cfg sv = cfg"
  shows "h_broker (handle wk req h) t = h_broker h t \<and> h_broker (snd (consumeRetry_step wk c h)) t = h_broker h t \<and>
    h_broker (snd (createOptimization sv new_id body h)) t = h_broker h t \<and> t \<notin> rc_topic ` set (worker_readers cfg)"
proof -
  have main: "t \<noteq> JobTopic cfg" using assms(1) by (auto simp: AllTopics_texts)
  show ?thesis
    using handle_other [of t wk req h] consumeRetry_other [of t wk c h] createOptimization_other [of t sv new_id body h]
      worker_readers_topics(1) [of _ cfg] assms main by auto
qed

lemma topics_closed_witness:
  "h_broker (handle demo_worker demo_request demo_host) ''other'' = []"
proof -
  have "''other'' \<notin> set (AllTopics (JobTopic demo_config) (DLQTopic demo_config))"
    by (simp add: AllTopics_texts demo_config_def read_env_def env_def trim_space_def trim_func_def trim_left_def trim_right_def)
  then show ?thesis
    using topics_closed [of "''other''" demo_config demo_worker
        "\<lparr>sv_cfg = demo_config, sv_parsers = demo_parsers, sv_codec = demo_codec, parse_uuid = Inr, sv_clock = \<lambda>w. 0, sv_started = 0\<rparr>"
        demo_request demo_host]
    by (simp add: demo_worker_def demo_host_def)
qed

text \<open>
  C22: opening with retries leaks no connection pool.  Of the pools that the thirty attempts make, at most
  one stays open: the one that is returned; if all attempts fail, or the process is told to stop while it
  waits, every pool has been closed.
\<close>
theorem retry_leaks_no_pool:
  assumes "counts_pools (con_pool (pf_connector pf)) live" and "counts_dbs (con_sql (pf_connector pf)) live"
    and "\<And>t w. live (snd (pf_wait pf t w)) = live w"
  shows "live (snd (openStoreWithRetry pf dsn w)) = live w + of_bool (is_ok (fst (openStoreWithRetry pf dsn w))) \<and>
    live (snd (openTargetWithRetry pf cfg w)) = live w + of_bool (is_ok (fst (openTargetWithRetry pf cfg w)))"
proof -
  have bind: "opens_one live f \<Longrightarrow> opens_one live (bind_io f (\<lambda>x. return_io (g x)))"
    for f :: "'a \<Rightarrow> nat result \<times> 'a" and g :: "nat \<Rightarrow> 'a engine"
  proof -
    assume f: "opens_one live f"
    have "live (snd (bind_io f (\<lambda>x. return_io (g x)) u)) = live u + of_bool (is_ok (fst (bind_io f (\<lambda>x. return_io (g x)) u)))" for u
    proof -
      obtain r u1 where u: "f u = (r, u1)" by fastforce
      then show ?thesis using opens_oneD [OF f u] by (cases r) simp_all
    qed
    then show ?thesis by (simp add: opens_one_def)
  qed
  have target: "opens_one live (Open (pf_connector pf) js d dialect tim)" for js d dialect tim
    using bind [OF open_pool_one [OF assms(1)]] bind [OF open_sql_one [OF assms(2)]]
    by (auto simp: opens_one_def Open_def NewPostgres_def NewMySQL_def split: sum.split)
  have "opens_one live (openTargetWithRetry pf cfg)"
    unfolding openTargetWithRetry_def by (rule open_with_retry_one, rule target, rule assms(3))
  moreover have "opens_one live (openStoreWithRetry pf dsn)"
    unfolding openStoreWithRetry_def store_Open_def
    by (rule open_with_retry_one, rule open_pool_one, rule assms(1), rule assms(3))
  ultimately show ?thesis by (simp add: opens_one_def)
qed

text \<open>A library whose pools are counted in the state and never answer.\<close>

definition mute_pools :: "int pool_lib" where
  "mute_pools =
     \<lparr>pool_ParseConfig = \<lambda>dsn. Inr \<lparr>pc_target = dsn, MaxConns = 4, MaxConnLifetime = 0\<rparr>,
      pool_NewWithConfig = \<lambda>cfg w. (Inr 1, w + 1), pool_Ping = \<lambda>p w. (Inl (new_error ''timeout''), w),
      pool_Close = \<lambda>p w. w - 1, pool_Exec = \<lambda>p s w. (Inr (), w)\<rparr>"

definition mute_platform :: "int platform" where
  "mute_platform =
     \<lparr>pf_connector = \<lparr>con_pool = mute_pools,
        con_sql = \<lparr>sql_Open = \<lambda>drv dsn w. (Inr 1, w + 1), sql_SetMaxOpenConns = \<lambda>db n w. w,
          sql_SetMaxIdleConns = \<lambda>db n w. w, sql_SetConnMaxLifetime = \<lambda>db n w. w,
          sql_PingContext = \<lambda>db n w. (Inl (new_error ''timeout''), w), sql_Close = \<lambda>db w. w - 1\<rparr>,
        pgx_of = \<lambda>p. refusing_pgx, sqldb_of = \<lambda>db. refusing_sqldb\<rparr>,
      pf_json = demo_json, pf_schemaSQL = '''',
      pf_redis = (\<lambda>opts. \<lparr>rd_ping = \<lambda>w. (Inr (), w), rd_get = \<lambda>k w. (Inr None, w), rd_set = \<lambda>k v t w. (Inr (), w)\<rparr>),
      pf_kafka = \<lparr>kf_Dial = \<lambda>a w. (Inr 1, w), kf_Controller = \<lambda>c w. (Inr (''kafka'', 9092), w),
        kf_CreateTopics = \<lambda>c ts w. (Inr (), w), kf_Close = \<lambda>c w. w\<rparr>,
      pf_wait = \<lambda>t w. (Inr (), w), pf_parsers = demo_parsers,
      pf_http = (\<lambda>t. \<lparr>http_new_request = \<lambda>u. Inr (), http_post = \<lambda>u b w. (Inl (new_error ''down''), w),
        http_wait = \<lambda>t w. (Inr (), w), http_now = \<lambda>w. 0, marshal_request = \<lambda>r. Inr ''{}'',
        decode_response = \<lambda>s. Inl (new_error s)\<rparr>),
      pf_clock = (\<lambda>w. 0), pf_decode_proposals = \<lambda>s. Inr [], pf_codec = demo_codec, pf_marshal = \<lambda>r. Inr ''{}'',
      pf_sleep = \<lambda>t w. w, pf_parse_uuid = Inr, pf_number = \<lambda>x. (case x of Finite p \<Rightarrow> p | _ \<Rightarrow> 0)\<rparr>"

lemma retry_leaks_no_pool_witness:
  "\<not> is_ok (fst (openStoreWithRetry mute_platform ''dsn'' 0)) \<and> snd (openStoreWithRetry mute_platform ''dsn'' 0) = 0"
proof -
  have "\<not> is_ok (fst (open_attempts n (store_Open mute_pools d) (\<lambda>t w. (Inr (), w)) e w))" for n d e w
    by (induction n arbitrary: e w) (simp_all add: store_Open_def open_pool_def mute_pools_def)
  then have "\<not> is_ok (fst (openStoreWithRetry mute_platform ''dsn'' 0))"
    by (simp add: openStoreWithRetry_def open_with_retry_def mute_platform_def)
  then show ?thesis
    using retry_leaks_no_pool [of mute_platform "\<lambda>w. w" "''dsn''" 0 demo_config]
    by (simp add: counts_pools_def counts_dbs_def mute_platform_def mute_pools_def)
qed



end
