(* ===== verification/Shutdown.thy ===== *)
theory Shutdown
  imports Processes
begin

text \<open>
  How the two processes end: the second half of \<open>main\<close> in \<open>cmd/worker/main.go\<close> (the wait group and the
  deferred closing) and in \<open>cmd/api/main.go\<close> (the listener, \<open>Shutdown\<close> with its deadline and the deferred
  closing).  What a loop does in a turn, and a handler for a request, is the matter of other theories;
  here a turn, a request and its answer are events, and the order of the events is what is shown.
\<close>

section \<open>Traces\<close>

inductive traces :: "('s \<Rightarrow> 'e \<Rightarrow> 's \<Rightarrow> bool) \<Rightarrow> 's \<Rightarrow> 'e list \<Rightarrow> 's \<Rightarrow> bool" for step where
  no_event: "traces step s [] s"
| event: "traces step s tr s1 \<Longrightarrow> step s1 e s2 \<Longrightarrow> traces step s (tr @ [e]) s2"

inductive_simps traces_Nil [simp]: "traces step s [] s'"
inductive_simps traces_snoc_raw: "traces step s (tr @ [e]) s'"

lemma traces_snoc [simp]: "traces step s (tr @ [e]) s2 \<longleftrightarrow> (\<exists>s1. traces step s tr s1 \<and> step s1 e s2)"
  by (subst traces_snoc_raw) auto

lemma traces_append: "traces step s (tr @ tr') s2 \<longleftrightarrow> (\<exists>s1. traces step s tr s1 \<and> traces step s1 tr' s2)"
proof (induction tr' arbitrary: s2 rule: rev_induct)
  case Nil
  show ?case by simp
next
  case (snoc e tr')
  show ?case using snoc traces_snoc [of step s "tr @ tr'" e s2] by auto
qed

lemma traces_Cons: "traces step s (e # tr) s2 \<longleftrightarrow> (\<exists>s1. step s e s1 \<and> traces step s1 tr s2)"
  using traces_append [of step s "[e]" tr s2] traces_snoc [of step s "[]" e] by simp

text \<open>What holds of a state and its history is shown on the last event.\<close>

lemma traces_invariant:
  assumes "traces step s tr s'" and "I [] s" and "\<And>tr s e s'. I tr s \<Longrightarrow> step s e s' \<Longrightarrow> I (tr @ [e]) s'"
  shows "I tr s'"
  using assms(1,2) by induction (use assms(3) in blast)+

text \<open>What every step keeps holds at the end.\<close>

lemma traces_keep:
  assumes "traces step s tr s'" and "P s" and "\<And>s e s'. P s \<Longrightarrow> step s e s' \<Longrightarrow> P s'"
  shows "P s'"
  using traces_invariant [of step s tr s' "\<lambda>_. P"] assms by blast

section \<open>The worker\<close>

text \<open>The goroutines that \<open>main\<close> starts, and what its deferred calls close, the last opened first.\<close>

datatype worker_loop = MainLoop nat | RetryLoop string int | ReclaimLoop

datatype resource = StorePool | TargetPool | RedisClient | KafkaWriter

definition worker_loops :: "config \<Rightarrow> worker_loop list" where
  "worker_loops cfg =
     map MainLoop [0..<nat (WorkerConcurrency cfg)] @ map (\<lambda>(topic, delay). RetryLoop topic delay) (retry_consumers cfg) @
     [ReclaimLoop]"

definition worker_deferred :: "bool \<Rightarrow> resource list" where
  "worker_deferred cache = KafkaWriter # (if cache then [RedisClient] else []) @ [TargetPool, StorePool]"

text \<open>What a turn of a loop uses.\<close>

definition loop_uses :: "worker_loop \<Rightarrow> resource set" where
  "loop_uses l =
     (case l of MainLoop n \<Rightarrow> {StorePool, TargetPool, KafkaWriter} | RetryLoop t d \<Rightarrow> {KafkaWriter} | ReclaimLoop \<Rightarrow> {StorePool})"

record worker_process =
  wp_stopped :: bool
  wp_loops :: "worker_loop list"
  wp_open :: "resource list"
  wp_exit :: "int option"

definition worker_started :: "'w running_worker \<Rightarrow> worker_process" where
  "worker_started rw =
     \<lparr>wp_stopped = False, wp_loops = worker_loops (wk_cfg (rw_worker rw)), wp_open = worker_deferred (rw_cache rw),
      wp_exit = None\<rparr>"

datatype worker_event = Signalled | Turn worker_loop | Returned worker_loop | Closed resource | Ended int

text \<open>
  A loop returns only under a context that is done; \<open>main\<close> waits for the context and for all loops, and
  then its deferred calls run.
\<close>

inductive worker_step :: "worker_process \<Rightarrow> worker_event \<Rightarrow> worker_process \<Rightarrow> bool" where
  signalled: "wp_exit s = None \<Longrightarrow> worker_step s Signalled (s\<lparr>wp_stopped := True\<rparr>)"
| turn: "l \<in> set (wp_loops s) \<Longrightarrow> worker_step s (Turn l) s"
| returned: "wp_stopped s \<Longrightarrow> l \<in> set (wp_loops s) \<Longrightarrow>
    worker_step s (Returned l) (s\<lparr>wp_loops := remove1 l (wp_loops s)\<rparr>)"
| closed: "wp_stopped s \<Longrightarrow> wp_loops s = [] \<Longrightarrow> wp_open s = r # rs \<Longrightarrow> worker_step s (Closed r) (s\<lparr>wp_open := rs\<rparr>)"
| ended: "wp_stopped s \<Longrightarrow> wp_loops s = [] \<Longrightarrow> wp_open s = [] \<Longrightarrow> wp_exit s = None \<Longrightarrow>
    worker_step s (Ended 0) (s\<lparr>wp_exit := Some 0\<rparr>)"

inductive_cases worker_step_E: "worker_step s e s'"
lemmas worker_step_cases = worker_step_E [consumes 1, case_names signalled turn returned closed ended]

text \<open>What was closed, in order, and the events other than turns and signals.\<close>

definition closed_by :: "worker_event list \<Rightarrow> resource list" where
  "closed_by tr = concat (map (\<lambda>e. case e of Closed r \<Rightarrow> [r] | _ \<Rightarrow> []) tr)"

definition final_events :: "worker_event list \<Rightarrow> worker_event list" where
  "final_events tr = filter (\<lambda>e. case e of Signalled \<Rightarrow> False | Turn l \<Rightarrow> False | _ \<Rightarrow> True) tr"

lemma closed_by_simps [simp]: "closed_by [] = []" "closed_by (tr @ tr') = closed_by tr @ closed_by tr'"
  "closed_by (Closed r # tr) = r # closed_by tr"
  by (simp_all add: closed_by_def)

lemma closed_by_other [simp]: "(\<And>r. e \<noteq> Closed r) \<Longrightarrow> closed_by (e # tr) = closed_by tr"
  by (cases e) (auto simp: closed_by_def)

lemma worker_loops_distinct: "distinct (worker_loops cfg)"
  by (auto simp: worker_loops_def retry_consumers_topics distinct_map inj_on_def)

lemma worker_loops_length: "length (worker_loops cfg) = nat (WorkerConcurrency cfg) + 3"
  by (simp add: worker_loops_def retry_consumers_topics)

definition worker_history :: "worker_loop list \<Rightarrow> resource list \<Rightarrow> worker_event list \<Rightarrow> worker_process \<Rightarrow> bool" where
  "worker_history ls rs tr s \<longleftrightarrow>
     (wp_stopped s \<longleftrightarrow> Signalled \<in> set tr) \<and> distinct (wp_loops s) \<and>
     set (wp_loops s) = {l \<in> set ls. Returned l \<notin> set tr} \<and> closed_by tr @ wp_open s = rs \<and>
     (closed_by tr = [] \<or> wp_loops s = [] \<and> wp_stopped s) \<and>
     (wp_exit s \<noteq> None \<longrightarrow> wp_stopped s \<and> wp_loops s = [] \<and> wp_open s = [])"

lemma worker_history_step:
  assumes h: "worker_history ls rs tr s" and "worker_step s e s'"
  shows "worker_history ls rs (tr @ [e]) s'"
  using assms(2)
proof (cases rule: worker_step_cases)
  case signalled
  then show ?thesis using h by (auto simp: worker_history_def)
next
  case (turn l)
  then show ?thesis using h by (simp add: worker_history_def) metis
next
  case (returned l)
  have "set (remove1 l (wp_loops s)) = set (wp_loops s) - {l}"
    by (rule set_remove1_eq) (use h in \<open>simp add: worker_history_def\<close>)
  moreover have "set (wp_loops s) = {k \<in> set ls. Returned k \<notin> set tr}" using h by (simp add: worker_history_def)
  ultimately have "set (remove1 l (wp_loops s)) = {k \<in> set ls. Returned k \<notin> set (tr @ [Returned l])}" by auto
  moreover have "closed_by tr = [] \<and> wp_exit s = None" using h returned(4) by (auto simp: worker_history_def)
  ultimately show ?thesis using h returned(3) unfolding returned(1,2) worker_history_def by simp
next
  case (closed r rs')
  then show ?thesis using h by (simp add: worker_history_def)
next
  case ended
  then show ?thesis using h by (simp add: worker_history_def)
qed

lemma worker_history:
  assumes "traces worker_step (worker_started rw) tr s"
  shows "worker_history (worker_loops (wk_cfg (rw_worker rw))) (worker_deferred (rw_cache rw)) tr s"
proof (rule traces_invariant [OF assms])
  show "worker_history (worker_loops (wk_cfg (rw_worker rw))) (worker_deferred (rw_cache rw)) [] (worker_started rw)"
    by (simp add: worker_started_def worker_history_def worker_loops_distinct)
qed (rule worker_history_step)

text \<open>A loop that has not returned finds everything open that its turns use.\<close>

lemma loop_finds_open:
  assumes "traces worker_step (worker_started rw) tr s" and "l \<in> set (wp_loops s)"
  shows "loop_uses l \<subseteq> set (wp_open s)"
proof -
  have "wp_open s = worker_deferred (rw_cache rw)" using worker_history [OF assms(1)] assms(2) by (auto simp: worker_history_def)
  then show ?thesis by (auto simp: loop_uses_def worker_deferred_def split: worker_loop.split)
qed

lemma no_loops_no_turns:
  assumes "traces worker_step s tr s'" and "wp_loops s = []"
  shows "Turn l \<notin> set tr"
proof -
  let ?I = "\<lambda>tr s. wp_loops s = [] \<and> (\<forall>l. Turn l \<notin> set tr)"
  have "?I (tr @ [e]) s'" if "?I tr s" "worker_step s e s'" for tr s e s'
    using that(2,1) by (cases rule: worker_step_cases) simp_all
  then show ?thesis using traces_invariant [OF assms(1), of ?I] assms(2) by simp
qed


text \<open>Once the signal has come, the loops return and what is open is closed.\<close>

definition remaining :: "worker_process \<Rightarrow> nat" where
  "remaining s = length (wp_loops s) + length (wp_open s) + (if wp_exit s = None then 1 else 0)"

lemma worker_progress:
  assumes "worker_step s e s'"
  shows "length (final_events [e]) + remaining s' = remaining s"
  using assms by (auto simp: final_events_def remaining_def length_remove1 neq_Nil_conv dest!: split_list elim!: worker_step_cases)

lemma worker_progresses:
  "traces worker_step s tr s' \<Longrightarrow> length (final_events tr) + remaining s' = remaining s"
proof (induction rule: traces.induct)
  case no_event
  show ?case by (simp add: final_events_def)
next
  case (event tr s1 e s2)
  show ?case using event.IH worker_progress [OF event.hyps(2)] by (simp add: final_events_def)
qed

lemma worker_can_progress:
  assumes "wp_stopped s" and "remaining s \<noteq> 0" and "wp_exit s = None"
  shows "\<exists>e s'. worker_step s e s' \<and> final_events [e] = [e] \<and> wp_stopped s' \<and> (wp_exit s' = None \<or> wp_exit s' = Some 0)"
proof (cases "wp_loops s")
  case (Cons l ls)
  then show ?thesis using returned [OF assms(1), of l] assms by (fastforce simp: final_events_def)
next
  case Nil
  show ?thesis
  proof (cases "wp_open s")
    case (Cons r rs)
    then show ?thesis using closed [OF assms(1) Nil] assms by (fastforce simp: final_events_def)
  next
    case rs: Nil
    show ?thesis using ended [OF assms(1) Nil rs assms(3)] assms by (fastforce simp: final_events_def)
  qed
qed

lemma worker_finishes:
  "wp_stopped s \<Longrightarrow> wp_exit s = None \<or> wp_exit s = Some 0 \<and> remaining s = 0 \<Longrightarrow>
   \<exists>tr s'. traces worker_step s tr s' \<and> remaining s' = 0 \<and> wp_exit s' = Some 0"
proof (induction "remaining s" arbitrary: s)
  case 0
  then have "wp_exit s = Some 0" by (auto simp: remaining_def split: if_splits)
  then show ?case using 0 by (intro exI [of _ "[]"] exI [of _ s]) simp
next
  case (Suc n)
  then have "wp_exit s = None" by auto
  from worker_can_progress [OF Suc.prems(1) _ this] Suc.hyps(2) obtain e s1 where
      e: "worker_step s e s1" "final_events [e] = [e]" "wp_stopped s1" "wp_exit s1 = None \<or> wp_exit s1 = Some 0" by auto
  have n: "n = remaining s1" using worker_progress [OF e(1)] e(2) Suc.hyps(2) by simp
  have "wp_exit s1 = None \<or> wp_exit s1 = Some 0 \<and> remaining s1 = 0"
    using e(1,4) by (cases rule: worker_step_cases) (auto simp: remaining_def \<open>wp_exit s = None\<close>)
  from Suc.hyps(1) [OF n e(3) this] obtain tr s' where "traces worker_step s1 tr s'" "remaining s' = 0" "wp_exit s' = Some 0"
    by blast
  then show ?case using e(1) traces_Cons [of worker_step s e tr s'] by blast
qed

text \<open>
  A signal stops the worker.  From any point after it the process can reach its end, with exit status 0
  and with everything closed in the order of the deferred calls; and however the loops go on, there
  are at most \<open>WorkerConcurrency + 8\<close> events besides turns and further signals, so the process ends
  once every loop has returned.
\<close>
theorem worker_stops:
  assumes "traces worker_step (worker_started rw) tr s" and "Signalled \<in> set tr"
  shows "(\<exists>tr' s'. traces worker_step s tr' s' \<and> wp_exit s' = Some 0 \<and> closed_by (tr @ tr') = worker_deferred (rw_cache rw)) \<and>
    (\<forall>tr' s'. traces worker_step s tr' s' \<longrightarrow>
       length (final_events (tr @ tr')) \<le> nat (WorkerConcurrency (wk_cfg (rw_worker rw))) + 8)"
proof (intro conjI allI impI)
  have h: "worker_history (worker_loops (wk_cfg (rw_worker rw))) (worker_deferred (rw_cache rw)) tr s"
    by (rule worker_history [OF assms(1)])
  have "wp_exit s = None \<or> wp_exit s = Some 0"
    by (rule traces_keep [OF assms(1)]) (auto simp: worker_started_def elim: worker_step_cases)
  then have exit_ok: "wp_exit s = None \<or> wp_exit s = Some 0 \<and> remaining s = 0"
    using h by (auto simp: remaining_def worker_history_def)
  have "wp_stopped s" using h assms(2) by (simp add: worker_history_def)
  from worker_finishes [OF this exit_ok] obtain tr' s' where
      t: "traces worker_step s tr' s'" "remaining s' = 0" "wp_exit s' = Some 0" by blast
  have "traces worker_step (worker_started rw) (tr @ tr') s'" using assms(1) t(1) by (auto simp: traces_append)
  from worker_history [OF this] t(2)
  have "closed_by (tr @ tr') = worker_deferred (rw_cache rw)" by (simp add: worker_history_def remaining_def)
  then show "\<exists>tr' s'. traces worker_step s tr' s' \<and> wp_exit s' = Some 0 \<and> closed_by (tr @ tr') = worker_deferred (rw_cache rw)"
    using t by blast
next
  fix tr' s' assume "traces worker_step s tr' s'"
  then have "traces worker_step (worker_started rw) (tr @ tr') s'" using assms(1) by (auto simp: traces_append)
  from worker_progresses [OF this]
  have "length (final_events (tr @ tr')) \<le> remaining (worker_started rw)" by simp
  also have "\<dots> \<le> nat (WorkerConcurrency (wk_cfg (rw_worker rw))) + 8"
    by (simp add: remaining_def worker_started_def worker_loops_length worker_deferred_def)
  finally show "length (final_events (tr @ tr')) \<le> nat (WorkerConcurrency (wk_cfg (rw_worker rw))) + 8" .
qed

lemma loops_return:
  "wp_stopped s \<Longrightarrow> wp_loops s = ls \<Longrightarrow> traces worker_step s (map Returned ls) (s\<lparr>wp_loops := []\<rparr>)"
proof (induction ls arbitrary: s)
  case Nil
  then show ?case by simp
next
  case (Cons l ls)
  have "worker_step s (Returned l) (s\<lparr>wp_loops := ls\<rparr>)" using returned [of s l] Cons.prems by simp
  moreover have "traces worker_step (s\<lparr>wp_loops := ls\<rparr>) (map Returned ls) (s\<lparr>wp_loops := []\<rparr>)"
    using Cons.IH [of "s\<lparr>wp_loops := ls\<rparr>"] Cons.prems by simp
  ultimately show ?case by (auto simp: traces_Cons)
qed


lemma worker_stops_witness:
  "\<exists>rw tr s. worker_main demo_platform (\<lambda>k. '''') (False, 0) = (Started rw, (False, 0)) \<and>
     traces worker_step (worker_started rw) tr s \<and> wp_exit s = Some 0"
proof -
  obtain rw where rw: "worker_main demo_platform (\<lambda>k. '''') (False, 0) = (Started rw, (False, 0))"
    using demo_start by blast
  have "worker_step (worker_started rw) Signalled ((worker_started rw)\<lparr>wp_stopped := True\<rparr>)"
    by (rule signalled) (simp add: worker_started_def)
  then have t: "traces worker_step (worker_started rw) [Signalled] ((worker_started rw)\<lparr>wp_stopped := True\<rparr>)"
    by (simp add: traces_Cons)
  obtain tr' s' where f: "traces worker_step ((worker_started rw)\<lparr>wp_stopped := True\<rparr>) tr' s'" "wp_exit s' = Some 0"
    using worker_stops [OF t] by auto
  have "traces worker_step (worker_started rw) ([Signalled] @ tr') s'"
    unfolding traces_append using t f(1) by blast
  then show ?thesis using rw f(2) by blast
qed

section \<open>The API\<close>

text \<open>
  A request is in flight from its acceptance to its answer.  \<open>Shutdown\<close> stops the listener and returns
  when nothing is in flight, or with an error at its deadline of 15 seconds; in both cases \<open>main\<close> goes on
  to its deferred calls and returns.
\<close>

datatype api_phase = Serving | Draining | Closing

record api_process =
  ap_stopped :: bool
  ap_listening :: bool
  ap_inflight :: "nat list"
  ap_phase :: api_phase
  ap_open :: "resource list"
  ap_exit :: "int option"

definition api_started :: api_process where
  "api_started =
     \<lparr>ap_stopped = False, ap_listening = True, ap_inflight = [], ap_phase = Serving, ap_open = [KafkaWriter, StorePool],
      ap_exit = None\<rparr>"

datatype api_event =
    Interrupted | ListenFails | Accepted nat | Answered nat | ShutdownCalled | ShutdownReturns bool
  | ApiCloses resource | ApiEnds int

inductive api_step :: "api_process \<Rightarrow> api_event \<Rightarrow> api_process \<Rightarrow> bool" where
  interrupted: "ap_exit s = None \<Longrightarrow> api_step s Interrupted (s\<lparr>ap_stopped := True\<rparr>)"
| listen_fails: "ap_listening s \<Longrightarrow> api_step s ListenFails (s\<lparr>ap_listening := False, ap_stopped := True\<rparr>)"
| accepted: "ap_listening s \<Longrightarrow> api_step s (Accepted i) (s\<lparr>ap_inflight := i # ap_inflight s\<rparr>)"
| answered: "i \<in> set (ap_inflight s) \<Longrightarrow> ap_exit s = None \<Longrightarrow>
    api_step s (Answered i) (s\<lparr>ap_inflight := remove1 i (ap_inflight s)\<rparr>)"
| shutdown_called: "ap_phase s = Serving \<Longrightarrow> ap_stopped s \<Longrightarrow>
    api_step s ShutdownCalled (s\<lparr>ap_listening := False, ap_phase := Draining\<rparr>)"
| drained: "ap_phase s = Draining \<Longrightarrow> ap_inflight s = [] \<Longrightarrow>
    api_step s (ShutdownReturns True) (s\<lparr>ap_phase := Closing\<rparr>)"
| deadline: "ap_phase s = Draining \<Longrightarrow> ap_inflight s \<noteq> [] \<Longrightarrow>
    api_step s (ShutdownReturns False) (s\<lparr>ap_phase := Closing\<rparr>)"
| api_closes: "ap_phase s = Closing \<Longrightarrow> ap_open s = r # rs \<Longrightarrow> api_step s (ApiCloses r) (s\<lparr>ap_open := rs\<rparr>)"
| api_ends: "ap_phase s = Closing \<Longrightarrow> ap_open s = [] \<Longrightarrow> ap_exit s = None \<Longrightarrow> api_step s (ApiEnds 0) (s\<lparr>ap_exit := Some 0\<rparr>)"

inductive_cases api_step_E: "api_step s e s'"
lemmas api_step_cases = api_step_E [consumes 1,
  case_names interrupted listen_fails accepted answered shutdown_called drained deadline api_closes api_ends]

text \<open>Each event with what it needs and does, by which traces are computed.\<close>

inductive_simps api_step_simps [simp]:
  "api_step s Interrupted s'" "api_step s ListenFails s'" "api_step s (Accepted i) s'" "api_step s (Answered i) s'"
  "api_step s ShutdownCalled s'" "api_step s (ShutdownReturns True) s'" "api_step s (ShutdownReturns False) s'"
  "api_step s (ApiCloses r) s'" "api_step s (ApiEnds n) s'"

definition graceful :: "api_event list \<Rightarrow> api_process \<Rightarrow> bool" where
  "graceful tr s \<longleftrightarrow>
     (ap_phase s \<noteq> Serving \<longrightarrow> \<not> ap_listening s) \<and>
     (ap_stopped s \<longrightarrow> Interrupted \<in> set tr \<or> ListenFails \<in> set tr) \<and> (ap_phase s \<noteq> Serving \<longrightarrow> ap_stopped s) \<and>
     (\<forall>i. count_list tr (Accepted i) = count_list tr (Answered i) + count_list (ap_inflight s) i) \<and>
     (ap_phase s = Closing \<and> ShutdownReturns False \<notin> set tr \<longrightarrow> ap_inflight s = [])"

lemma count_list_snoc [simp]: "count_list (xs @ [x]) y = count_list xs y + (if x = y then 1 else 0)"
  by (induction xs) auto

lemma count_list_remove1: "x \<in> set xs \<Longrightarrow> count_list xs y = count_list (remove1 x xs) y + (if x = y then 1 else 0)"
  by (induction xs) auto

lemma graceful_step:
  assumes "graceful tr s" and "api_step s e s'"
  shows "graceful (tr @ [e]) s'"
  using assms(2)
proof (cases rule: api_step_cases)
  case (answered i)
  have "ap_inflight s \<noteq> []" using answered(3) by auto
  moreover have "count_list tr (Accepted k) + (if Answered i = Accepted k then 1 else 0) =
      count_list tr (Answered k) + (if Answered i = Answered k then 1 else 0) + count_list (remove1 i (ap_inflight s)) k" for k
    using assms(1) count_list_remove1 [OF answered(3), of k] by (simp add: graceful_def)
  ultimately show ?thesis using assms(1) answered(1,2) by (simp add: graceful_def) blast
qed (use assms(1) in \<open>simp_all add: graceful_def\<close>)

lemma graceful: "traces api_step api_started tr s \<Longrightarrow> graceful tr s"
  by (erule traces_invariant [of _ _ _ _ graceful]) (simp_all add: graceful_step, simp add: graceful_def api_started_def)

lemma idle_stays:
  assumes "traces api_step s tr s'" and "ap_phase s = Closing" "\<not> ap_listening s" "ap_inflight s = []"
  shows "Accepted i \<notin> set tr \<and> Answered i \<notin> set tr"
proof -
  let ?I = "\<lambda>tr s. ap_phase s = Closing \<and> \<not> ap_listening s \<and> ap_inflight s = [] \<and> (\<forall>i. Accepted i \<notin> set tr \<and> Answered i \<notin> set tr)"
  have next_ok: "?I (tr @ [e]) s'" if "?I tr s" "api_step s e s'" for tr s e s'
    using that(2,1) by (cases rule: api_step_cases) simp_all
  have "?I tr s'"
  proof (rule traces_invariant [where I = ?I, OF assms(1)])
    show "?I [] s" using assms(2-4) by simp
  qed (rule next_ok)
  then show ?thesis by simp
qed


text \<open>
  A listener that fails, because its address is in use, say, makes \<open>main\<close> return: the process ends with
  status 0, as it does after a signal, where every other failure at start-up is status 1.
\<close>

lemma failed_listener_exits_zero:
  "\<exists>s. traces api_step api_started
     [ListenFails, ShutdownCalled, ShutdownReturns True, ApiCloses KafkaWriter, ApiCloses StorePool, ApiEnds 0] s \<and> ap_exit s = Some 0"
  by (simp add: traces_Cons api_started_def)


end
