(* ===== verification/Table_Types.thy ===== *)
theory Table_Types
  imports Lifecycle
begin

text \<open>
  The type of the job table: what readers of a row rely on, for each status, and that every statement
  that any process sends keeps it.
\<close>

section \<open>Well-typed rows\<close>

text \<open>
  A queued job has no attempt yet; a running one has one and its start; a retrying one has an attempt
  left and a failed one none; a succeeded one has its report and its end.  The error is cut at 4000 bytes.
\<close>

definition typed_row :: "job \<Rightarrow> bool" where
  "typed_row j \<longleftrightarrow> job_ok j \<and> length (j_last_error j) \<le> 4003 \<and>
     (case j_status j of
        StatusQueued \<Rightarrow> j_attempts j = 0 \<and> j_started j = None \<and> j_report j = None
      | StatusRunning \<Rightarrow> 1 \<le> j_attempts j \<and> j_started j \<noteq> None
      | StatusRetrying \<Rightarrow> j_attempts j < j_max_attempts j
      | StatusSucceeded \<Rightarrow> j_report j \<noteq> None \<and> j_finished j \<noteq> None
      | StatusFailed \<Rightarrow> j_attempts j = j_max_attempts j)"

definition typed_table :: "store_db \<Rightarrow> bool" where
  "typed_table db \<longleftrightarrow> store_ok db \<and> list_all typed_row (db_jobs db)"

lemma truncate_text_length: "length (truncate_text s n) \<le> n + 3"
  by (simp add: truncate_text_def utf8_ellipsis_def)

lemma typed_updates:
  "claimable j \<Longrightarrow> typed_row j \<Longrightarrow> typed_row (claimed now j)"
  "typed_row j \<Longrightarrow> typed_row (completed now raw a b c d j)"
  "typed_row j \<Longrightarrow> typed_row (marked_failed now e j)"
  "typed_row j \<Longrightarrow> typed_row (reclaimed now j)"
  using truncate_text_length [of e 4000]
  by (auto simp: typed_row_def job_ok_def claimable_def claimed_def completed_def marked_failed_def reclaimed_def
      failed_status_def)

lemma typed_new: "0 \<le> nj_max_attempts nj \<Longrightarrow> typed_row (job_row new_id now nj)"
  by (simp add: typed_row_def job_ok_def job_row_def)

section \<open>Well-typed tables\<close>

text \<open>The rows after a statement are the rows before it, each changed in one of the four ways or not at all.\<close>

lemma typed_claim:
  assumes "typed_table db"
  shows "list_all typed_row (db_jobs (snd (ClaimJob now jid db)))"
proof (cases "\<exists>j. find_job jid db = Some j \<and> claimable j")
  case True
  then obtain j where j: "find_job jid db = Some j" "claimable j" by blast
  have "x = j" if "x \<in> set (db_jobs db)" "j_id x = jid" for x
    using assms find_job_Some [OF j(1)] that by (auto simp: typed_table_def store_ok_def distinct_map dest: inj_onD)
  then show ?thesis using assms j
    by (auto simp: ClaimJob_def update_job_def typed_table_def list_all_iff intro: typed_updates)
next
  case False
  then show ?thesis using assms by (auto simp: ClaimJob_def typed_table_def split: option.split)
qed

lemma typed_event_rows:
  assumes "typed_table db" and "legal_event e"
  shows "list_all typed_row (db_jobs (exec_event e db))"
proof (cases e)
  case (EvClaim now jid)
  then show ?thesis using typed_claim [OF assms(1)] by simp
next
  case (EvCreate new_id now nj)
  then show ?thesis using assms typed_new
    by (auto simp: typed_table_def CreateJob_def Let_def split: option.split)
qed (use assms(1) typed_updates in \<open>auto simp: typed_table_def CompleteJob_def MarkFailure_def ReclaimStale_def
  RecordRun_def update_job_def list_all_iff split: sum.split option.split\<close>)

lemma typed_event: "typed_table db \<Longrightarrow> legal_event e \<Longrightarrow> typed_table (exec_event e db)"
  using typed_event_rows exec_event_ok by (simp add: typed_table_def)

lemma typed_events: "typed_table db \<Longrightarrow> list_all legal_event es \<Longrightarrow> typed_table (exec_events es db)"
  by (induction es arbitrary: db) (simp_all add: typed_event)

lemma typed_happens:
  "typed_table (h_store h) \<Longrightarrow> legal_happening x \<Longrightarrow> typed_table (h_store (happens wk x h))"
  using happens_events [of x wk h] typed_events by metis

lemma typed_run_all:
  "typed_table (h_store h) \<Longrightarrow> list_all legal_happening xs \<Longrightarrow> typed_table (h_store (run_all wk xs h))"
  unfolding run_all_def by (induction xs arbitrary: h) (simp_all add: typed_happens)

lemma typed_demo: "typed_table demo_store"
  using typed_event [of empty_store "EvCreate ''job-1'' 0 demo_new_job"] store_ok_empty
  by (simp add: typed_table_def demo_store_def empty_store_def demo_new_job_def)

section \<open>Properties\<close>

text \<open>
  C13: the table stays well-typed.  Whatever is delivered to a worker and reclaimed by it, whatever legal
  statements other processes send in between, and whichever remote calls fail, every row of the table has
  the shape of its status, so a reader finds the report of a job that has succeeded and the start of one
  that runs, and the keys stay unique.
\<close>
theorem table_well_typed:
  assumes "typed_table (h_store h)" and "list_all legal_happening xs"
    and "find_job jid (h_store (run_all wk xs h)) = Some j"
  shows "typed_row j \<and> store_ok (h_store (run_all wk xs h))"
  using typed_run_all [OF assms(1,2), of wk] find_job_Some [OF assms(3)] by (auto simp: typed_table_def list_all_iff)

lemma table_well_typed_witness:
  "\<exists>j. find_job ''job-1'' (h_store (run_all demo_worker [Deliver demo_request, Reclaim, Deliver demo_request] demo_host)) = Some j
     \<and> typed_row j"
proof -
  let ?xs = "[Deliver demo_request, Reclaim, Deliver demo_request]"
  have "typed_table (h_store demo_host)" by (simp add: demo_host_def typed_demo)
  moreover have "\<exists>j. find_job ''job-1'' (h_store (run_all demo_worker ?xs demo_host)) = Some j"
    using run_all_moves [of ?xs "''job-1''" demo_host demo_worker] demo_store_row by (auto simp: moves_def demo_host_def)
  ultimately show ?thesis using table_well_typed [of demo_host ?xs "''job-1''" demo_worker] by fastforce
qed

end
