(* ===== verification/Sqlparse_Facts.thy ===== *)
theory Sqlparse_Facts
  imports Sqlparse Verify_Facts
begin

text \<open>
  The gate at the edge: which texts the two grammars accept, and what an accepted statement lists.
\<close>

section \<open>PostgreSQL\<close>

lemma Parse_cases:
  assumes "pg_parse pg (trim_space sql) = Inr [raw]" and "trim_space sql \<noteq> ''''"
  shows "(\<exists>st sel. Parse pg sql = Inr st \<and> raw = SelectNode sel \<and> clean_select sel) \<or>
    (\<exists>e. Parse pg sql = Inl e \<and> errors_is e ErrNotReadOnly \<and> \<not> (\<exists>sel. raw = SelectNode sel \<and> clean_select sel))"
proof (cases "is_ok (Parse pg sql)")
  case True
  then show ?thesis using Parse_ok_cond [of pg sql] assms(1) by (auto simp: is_ok_iff)
next
  case False
  then have no: "\<not> (\<exists>sel. raw = SelectNode sel \<and> clean_select sel)" using Parse_ok_cond [of pg sql] assms by auto
  have "\<exists>e. Parse pg sql = Inl e \<and> errors_is e ErrNotReadOnly"
  proof (cases "is_select raw")
    case False
    then show ?thesis by (rule Parse_not_select [OF assms(2,1)])
  next
    case True
    then obtain sel where raw: "raw = SelectNode sel" by (auto simp: is_select_iff)
    then show ?thesis using no assms rejectDataModifyingCTEs_sentinel [of sel]
      by (cases "rejectDataModifyingCTEs sel") (auto simp: Parse_def Let_def clean_select_def)
  qed
  with no show ?thesis by blast
qed

text \<open>
  C3: the PostgreSQL gate lets through selects only.  A single parsed statement is accepted exactly when
  it is a SELECT, every query that a WITH clause at any depth defines is a SELECT, and the statement has
  no INTO and no locking clause; whatever is refused is refused as not read-only.
\<close>
theorem Parse_read_only:
  assumes "pg_parse pg (trim_space sql) = Inr [raw]" and "trim_space sql \<noteq> ''''"
  shows "(is_ok (Parse pg sql) \<longleftrightarrow> (\<exists>sel. raw = SelectNode sel \<and> into_clause sel = None \<and> locking_clause sel = [] \<and>
      (\<forall>q. with_reaches sel q \<longrightarrow> is_select q))) \<and>
    (\<forall>e. Parse pg sql = Inl e \<longrightarrow> errors_is e ErrNotReadOnly)"
  using Parse_cases [OF assms] by (auto simp: clean_select_def rejectDataModifyingCTEs_None)

lemma Parse_read_only_witness:
  "is_ok (Parse (pg_lib demo_parsers) ''SELECT 1'') \<and>
   (\<exists>e. Parse ((pg_lib demo_parsers)\<lparr>pg_parse := \<lambda>s. Inr [EmptyNode]\<rparr>) ''DROP TABLE t'' = Inl e \<and> errors_is e ErrNotReadOnly)"
proof
  have t: "trim_space ''SELECT 1'' \<noteq> ''''" "trim_space ''DROP TABLE t'' \<noteq> ''''" by code_simp+
  have s: "pg_parse (pg_lib demo_parsers) (trim_space ''SELECT 1'') = Inr [SelectNode empty_select]"
    by (simp add: demo_parsers_def)
  have "into_clause empty_select = None" "locking_clause empty_select = []" "with_clause empty_select = None"
    by (simp_all add: empty_select_def)
  then show "is_ok (Parse (pg_lib demo_parsers) ''SELECT 1'')"
    using Parse_read_only [OF s t(1)] by (auto elim: with_reachesE)
  let ?pg = "(pg_lib demo_parsers)\<lparr>pg_parse := \<lambda>s. Inr [EmptyNode]\<rparr>"
  have "pg_parse ?pg (trim_space ''DROP TABLE t'') = Inr [EmptyNode]" by simp
  from Parse_read_only [OF this t(2)]
  show "\<exists>e. Parse ?pg ''DROP TABLE t'' = Inl e \<and> errors_is e ErrNotReadOnly"
    by (cases "Parse ?pg ''DROP TABLE t''") auto
qed

text \<open>
  C30: the tables of an accepted statement are exactly the ones it reads.  They are sorted by qualified
  name, no table is listed twice, and up to the spelling they are the relations that occur anywhere in
  the tree, except the unqualified names that the WITH clause defines.
\<close>
theorem Parse_tables:
  assumes "Parse pg sql = Inr st"
  shows "\<exists>sel. pg_parse pg (trim_space sql) = Inr [SelectNode sel] \<and>
    sorted (map Qualified (st_tables st)) \<and> distinct (map ref_key (st_tables st)) \<and>
    ref_key ` set (st_tables st) = ref_key ` set (table_refs (cteNames sel) (walk_nodes (SelectNode sel)))"
proof -
  obtain sel where "pg_parse pg (trim_space sql) = Inr [SelectNode sel]"
    "st_tables st = collectTables (SelectNode sel) (cteNames sel)"
    using Parse_okE [OF assms] by metis
  then show ?thesis using collectTables_facts [of "SelectNode sel" "cteNames sel"] by auto
qed

lemma Parse_tables_witness:
  "\<exists>st. Parse (pg_lib demo_parsers) ''SELECT 1'' = Inr st \<and> sorted (map Qualified (st_tables st))"
proof -
  have "trim_space ''SELECT 1'' \<noteq> ''''" by code_simp
  then obtain st where st: "Parse (pg_lib demo_parsers) ''SELECT 1'' = Inr st"
    using demo_parse by (fastforce simp: ParseDialect_def)
  then show ?thesis using Parse_tables [OF st] by auto
qed

section \<open>MySQL\<close>

definition my_query :: "my_node \<Rightarrow> bool" where
  "my_query r = (case r of MySelectStmt s cs \<Rightarrow> True | MySetOprStmt o1 cs \<Rightarrow> True | _ \<Rightarrow> False)"

text \<open>
  C4: the MySQL gate lets through queries only.  A single statement that parses without a warning is
  accepted exactly when it is a SELECT or a set operation and nothing in its tree, at any depth, writes
  or locks: no data-modifying statement, no SELECT with INTO, no locking read.  Whatever is refused is
  refused as not read-only.
\<close>
theorem ParseMySQL_read_only:
  assumes "tidb_parse p (trim_space sql) = Inr ([r], [])" and "trim_space sql \<noteq> ''''"
  shows "(is_ok (ParseMySQL p sql) \<longleftrightarrow> my_query r \<and> (\<forall>m \<in> set (my_nodes r). \<not> write_form m)) \<and>
    (\<forall>e. ParseMySQL p sql = Inl e \<longrightarrow> errors_is e ErrNotReadOnly)"
proof (cases "my_query r")
  case False
  then show ?thesis using assms
    by (auto simp: ParseMySQL_def Let_def my_query_def is_ok_def my_refusal_def split: my_node.splits)
next
  case True
  then show ?thesis using assms rejectMySQLWriteForms_None [of r] rejectMySQLWriteForms_sentinel [of r]
    by (cases "rejectMySQLWriteForms r")
      (auto simp: ParseMySQL_def Let_def my_query_def is_ok_def split: prod.split)
qed

definition demo_tidb :: "my_node \<Rightarrow> tidb" where
  "demo_tidb r = \<lparr>tidb_parse = \<lambda>s. Inr ([r], []), tidb_normalize_digest = \<lambda>s. (s, s)\<rparr>"

lemma ParseMySQL_read_only_witness:
  "\<exists>e. ParseMySQL (demo_tidb (MySetOprStmt True [MyDmlStmt MyDeleteStmt []])) ''(SELECT 1) UNION ...'' = Inl e \<and> errors_is e ErrNotReadOnly"
proof -
  let ?r = "MySetOprStmt True [MyDmlStmt MyDeleteStmt []]" and ?s = "''(SELECT 1) UNION ...''"
  have t: "trim_space ?s \<noteq> ''''" by code_simp
  have p: "tidb_parse (demo_tidb ?r) (trim_space ?s) = Inr ([?r], [])" by (simp add: demo_tidb_def)
  have "MyDmlStmt MyDeleteStmt [] \<in> set (my_nodes ?r)" "write_form (MyDmlStmt MyDeleteStmt [])"
    by (simp_all add: my_nodes.simps write_form_def)
  with ParseMySQL_read_only [OF p t] show ?thesis by (cases "ParseMySQL (demo_tidb ?r) ?s") (auto simp: is_ok_def)
qed

end
