(* ===== verification/Bench.thy ===== *)
theory Bench
  imports Optimizer Config
begin

text \<open>
  \<open>cmd/bench/main.go\<close>: one benchmark query and the scoring of all of them; printing and the files
  are in \<open>Bench_Main\<close>.  A Go map that counts is a function that is 0 where the map has no entry.
\<close>

section \<open>Types\<close>

record expectation =
  ex_finding :: string
  ex_rewrite :: bool
  ex_index :: bool

record bench_query =
  bq_id :: string
  bq_description :: string
  bq_sql :: string
  bq_control :: bool
  bq_expects :: expectation

definition bq_finding :: "bench_query \<Rightarrow> string" where
  "bq_finding q = ex_finding (bq_expects q)"

record query_result =
  qr_id :: string
  qr_control :: bool
  qr_baseline :: real
  qr_best :: real
  qr_improvement :: real
  qr_speedup :: real
  qr_expected :: string
  qr_found :: bool
  qr_codes :: "string list"
  qr_tested :: int
  qr_accepted :: int
  qr_reasons :: "string \<Rightarrow> int"
  qr_indexes_tested :: int
  qr_recommended :: int
  qr_index_gain :: real
  qr_index_ddl :: string
  qr_accepted_sql :: string
  qr_duration :: int
  qr_error :: string

record totals =
  tt_queries :: int
  tt_failed :: int
  tt_expected_total :: int
  tt_expected_found :: int
  tt_improved :: int
  tt_speedups :: "real list"
  tt_best_speedup :: real
  tt_tested :: int
  tt_accepted :: int
  tt_reasons :: "string \<Rightarrow> int"
  tt_indexes_tested :: int
  tt_recommended :: int
  tt_false_positives :: int
  tt_saved :: real

section \<open>One query\<close>

definition new_result :: "bench_query \<Rightarrow> query_result" where
  "new_result q =
     \<lparr>qr_id = bq_id q, qr_control = bq_control q, qr_baseline = 0, qr_best = 0, qr_improvement = 0, qr_speedup = 0,
      qr_expected = bq_finding q, qr_found = False, qr_codes = [], qr_tested = 0, qr_accepted = 0,
      qr_reasons = (\<lambda>r. 0), qr_indexes_tested = 0, qr_recommended = 0, qr_index_gain = 0, qr_index_ddl = '''',
      qr_accepted_sql = '''', qr_duration = 0, qr_error = ''''\<rparr>"

definition score_finding :: "bench_query \<Rightarrow> finding \<Rightarrow> query_result \<Rightarrow> query_result" where
  "score_finding q f res =
     res\<lparr>qr_codes := qr_codes res @ [f_code f],
       qr_found := (if bq_finding q \<noteq> '''' \<and> f_code f = bq_finding q then True else qr_found res)\<rparr>"

definition score_candidate :: "vresult \<Rightarrow> query_result \<Rightarrow> query_result" where
  "score_candidate c res =
     (if r_verdict c = VerdictAccepted then res\<lparr>qr_accepted := qr_accepted res + 1\<rparr>
      else let r = reason_text (r_reason c) in
        res\<lparr>qr_reasons := (qr_reasons res)(r := qr_reasons res r + 1)\<rparr>)"

definition score_best :: "vresult option \<Rightarrow> query_result \<Rightarrow> query_result" where
  "score_best best res =
     (case best of None \<Rightarrow> res
      | Some b \<Rightarrow> res\<lparr>qr_best := r_candidate_ms b, qr_improvement := r_improvement b, qr_speedup := r_speedup b,
          qr_accepted_sql := c_sql (r_candidate b)\<rparr>)"

definition score_index :: "index_experiment \<Rightarrow> query_result \<Rightarrow> query_result" where
  "score_index x res =
     (if \<not> x_recommended x then res
      else let res1 = res\<lparr>qr_recommended := qr_recommended res + 1\<rparr> in
        if x_improvement x > qr_index_gain res1
        then res1\<lparr>qr_index_gain := x_improvement x, qr_index_ddl := x_ddl x\<rparr>
        else res1)"

definition score_report :: "bench_query \<Rightarrow> report \<Rightarrow> query_result \<Rightarrow> query_result" where
  "score_report q rep res0 =
     (let res1 = res0\<lparr>qr_baseline := br_median (rp_baseline rep), qr_best := br_median (rp_baseline rep)\<rparr>;
          res2 = fold (score_finding q) (rp_findings rep) res1;
          res3 = (if bq_finding q = '''' then res2\<lparr>qr_found := True\<rparr> else res2);
          res4 = fold score_candidate (rp_candidates rep) (res3\<lparr>qr_tested := int (length (rp_candidates rep))\<rparr>);
          res5 = score_best (rp_best rep) res4
      in fold score_index (rp_indexes rep) (res5\<lparr>qr_indexes_tested := int (length (rp_indexes rep))\<rparr>))"

definition runOne :: "'w optimizer \<Rightarrow> bench_query \<Rightarrow> 'w \<Rightarrow> query_result \<times> 'w" where
  "runOne opt q w =
     (case Run opt (bq_sql q) w of
        (r, w1) \<Rightarrow>
          let res = (new_result q)\<lparr>qr_duration := milliseconds (op_clock opt w1 - op_clock opt w)\<rparr> in
          case r of
            Inl err \<Rightarrow> (res\<lparr>qr_error := err_text err\<rparr>, w1)
          | Inr rep \<Rightarrow> (score_report q rep res, w1))"

section \<open>The summary\<close>

definition no_totals :: totals where
  "no_totals =
     \<lparr>tt_queries = 0, tt_failed = 0, tt_expected_total = 0, tt_expected_found = 0, tt_improved = 0, tt_speedups = [],
      tt_best_speedup = 0, tt_tested = 0, tt_accepted = 0, tt_reasons = (\<lambda>r. 0), tt_indexes_tested = 0,
      tt_recommended = 0, tt_false_positives = 0, tt_saved = 0\<rparr>"

definition add_expectation :: "query_result \<Rightarrow> totals \<Rightarrow> totals" where
  "add_expectation r t =
     (if qr_expected r = '''' then t
      else t\<lparr>tt_expected_total := tt_expected_total t + 1,
        tt_expected_found := (if qr_found r then tt_expected_found t + 1 else tt_expected_found t)\<rparr>)"

definition add_counts :: "query_result \<Rightarrow> totals \<Rightarrow> totals" where
  "add_counts r t =
     t\<lparr>tt_tested := tt_tested t + qr_tested r, tt_accepted := tt_accepted t + qr_accepted r,
       tt_reasons := (\<lambda>x. tt_reasons t x + qr_reasons r x),
       tt_indexes_tested := tt_indexes_tested t + qr_indexes_tested r,
       tt_recommended := tt_recommended t + qr_recommended r\<rparr>"

definition add_false_positive :: "query_result \<Rightarrow> totals \<Rightarrow> totals" where
  "add_false_positive r t =
     (if qr_control r \<and> (qr_accepted r > 0 \<or> qr_recommended r > 0)
      then t\<lparr>tt_false_positives := tt_false_positives t + 1\<rparr> else t)"

definition add_improvement :: "query_result \<Rightarrow> totals \<Rightarrow> totals" where
  "add_improvement r t =
     (if qr_accepted r > 0
      then t\<lparr>tt_improved := tt_improved t + 1, tt_speedups := tt_speedups t @ [qr_speedup r],
        tt_saved := tt_saved t + (qr_baseline r - qr_best r),
        tt_best_speedup := (if qr_speedup r > tt_best_speedup t then qr_speedup r else tt_best_speedup t)\<rparr>
      else t)"

definition summarize_step :: "query_result \<Rightarrow> totals \<Rightarrow> totals" where
  "summarize_step r t0 =
     (let t = t0\<lparr>tt_queries := tt_queries t0 + 1\<rparr> in
      if qr_error r \<noteq> '''' then t\<lparr>tt_failed := tt_failed t + 1\<rparr>
      else add_improvement r (add_false_positive r (add_counts r (add_expectation r t))))"

text \<open>The totals with the text of the found expectations and the median speedup.\<close>

definition bench_summarize :: "query_result list \<Rightarrow> totals \<times> string \<times> real" where
  "bench_summarize rs =
     (let t = fold summarize_step rs no_totals in
      (t, show_int (tt_expected_found t) @ ''/'' @ show_int (tt_expected_total t),
       if tt_speedups t = [] then 0 else sort (tt_speedups t) ! (length (tt_speedups t) div 2)))"

section \<open>Setting up and selecting queries\<close>

text \<open>
  The options of the run: the flags can only switch the model and the index experiments off;
  \<open>threshold\<close> is \<open>MinImprovementPct\<close> as a number.
\<close>

definition bench_options :: "config \<Rightarrow> real \<Rightarrow> llm_client option \<Rightarrow> bool \<Rightarrow> bool \<Rightarrow> options" where
  "bench_options cfg threshold model skip_llm skip_indexes =
     \<lparr>o_max_candidates = MaxCandidates cfg, o_min_improvement = threshold, o_runs = MeasurementRuns cfg,
      o_test_indexes = (TestIndexes cfg \<and> \<not> skip_indexes), o_max_index_tests = MaxIndexTests cfg,
      o_skip_llm = (\<not> (Enabled model \<and> \<not> skip_llm))\<rparr>"

text \<open>\<open>indexOf\<close>: the loop over the positions \<open>i\<close> with \<open>i + len(sub) <= len(s)\<close>; \<open>-1\<close> is \<open>None\<close>.\<close>

fun indexOf_from :: "nat \<Rightarrow> nat \<Rightarrow> string \<Rightarrow> string \<Rightarrow> nat option" where
  "indexOf_from 0 i s sub = None"
| "indexOf_from (Suc n) i s sub =
     (if take (length sub) (drop i s) = sub then Some i else indexOf_from n (Suc i) s sub)"

definition indexOf :: "string \<Rightarrow> string \<Rightarrow> nat option" where
  "indexOf s sub = indexOf_from (Suc (length s) - length sub) 0 s sub"

definition contains_text :: "string \<Rightarrow> string \<Rightarrow> bool" where
  "contains_text s sub \<longleftrightarrow> length sub = 0 \<or> length s \<ge> length sub \<and> indexOf s sub \<noteq> None"

definition selected :: "string \<Rightarrow> bench_query \<Rightarrow> bool" where
  "selected only q \<longleftrightarrow> \<not> (only \<noteq> '''' \<and> \<not> contains_text (bq_id q) only)"

fun run_bench :: "'w optimizer \<Rightarrow> bench_query list \<Rightarrow> 'w \<Rightarrow> query_result list \<times> 'w" where
  "run_bench opt [] w = ([], w)"
| "run_bench opt (q # qs) w =
     (case runOne opt q w of (r, w1) \<Rightarrow> case run_bench opt qs w1 of (rs, w2) \<Rightarrow> (r # rs, w2))"

definition bench_main :: "'w optimizer \<Rightarrow> string \<Rightarrow> bench_query list \<Rightarrow> 'w \<Rightarrow> (totals \<times> string \<times> real) \<times> 'w" where
  "bench_main opt only qs w =
     (case run_bench opt (filter (selected only) qs) w of (rs, w1) \<Rightarrow> (bench_summarize rs, w1))"

end
