(* ===== verification/Bench_Facts.thy ===== *)
theory Bench_Facts
  imports Bench Optimizer_Facts
begin

text \<open>
  The benchmark's numbers: the totals are the sums they claim to be, every candidate is accounted for,
  and the substring search is the library's.
\<close>

section \<open>Substring search\<close>

lemma indexOf_from_None: "indexOf_from n i s sub = None \<longleftrightarrow> (\<forall>k. i \<le> k \<and> k < i + n \<longrightarrow> take (length sub) (drop k s) \<noteq> sub)"
proof (induction n arbitrary: i)
  case (Suc n)
  have "i \<le> k \<and> k < i + Suc n \<longleftrightarrow> k = i \<or> Suc i \<le> k \<and> k < Suc i + n" for k by auto
  then show ?case using Suc.IH [of "Suc i"] by auto
qed auto

lemma take_drop_prefix: "take (length sub) (drop k s) = sub \<longleftrightarrow> (\<exists>u v. drop k s = sub @ v)"
  by (metis append_eq_conv_conj append_take_drop_id)

lemma infix_position: "(\<exists>u v. s = u @ sub @ v) \<longleftrightarrow> (\<exists>k. k + length sub \<le> length s \<and> take (length sub) (drop k s) = sub)"
proof
  assume "\<exists>u v. s = u @ sub @ v"
  then obtain u v where "s = u @ sub @ v" by blast
  then show "\<exists>k. k + length sub \<le> length s \<and> take (length sub) (drop k s) = sub"
    by (intro exI [of _ "length u"]) simp
next
  assume "\<exists>k. k + length sub \<le> length s \<and> take (length sub) (drop k s) = sub"
  then obtain k where "take (length sub) (drop k s) = sub" by blast
  then have "s = take k s @ sub @ drop (length sub) (drop k s)" by (metis append_take_drop_id)
  then show "\<exists>u v. s = u @ sub @ v" by blast
qed

lemma contains_text_infix: "contains_text s sub \<longleftrightarrow> (\<exists>u v. s = u @ sub @ v)"
proof (cases "length sub \<le> length s")
  case True
  then have "(k < Suc (length s) - length sub) \<longleftrightarrow> k + length sub \<le> length s" for k by auto
  then have "indexOf s sub \<noteq> None \<longleftrightarrow> (\<exists>k. k + length sub \<le> length s \<and> take (length sub) (drop k s) = sub)"
    by (auto simp: indexOf_def indexOf_from_None)
  then show ?thesis using True infix_position [of s sub] by (auto simp: contains_text_def)
next
  case False
  then show ?thesis by (auto simp: contains_text_def)
qed

section \<open>One query\<close>

lemma fold_score_finding:
  "fold (score_finding q) fs res = res\<lparr>qr_codes := qr_codes res @ map f_code fs,
     qr_found := (qr_found res \<or> (bq_finding q \<noteq> '''' \<and> bq_finding q \<in> f_code ` set fs))\<rparr>"
  by (induction fs arbitrary: res) (auto simp: score_finding_def)

lemma fold_score_candidate:
  "fold score_candidate cs res = res
     \<lparr>qr_accepted := qr_accepted res + int (length (filter (\<lambda>c. r_verdict c = VerdictAccepted) cs)),
      qr_reasons := (\<lambda>x. qr_reasons res x +
        int (length (filter (\<lambda>c. r_verdict c \<noteq> VerdictAccepted \<and> reason_text (r_reason c) = x) cs)))\<rparr>"
  by (induction cs arbitrary: res) (auto simp: score_candidate_def Let_def fun_eq_iff)

lemma score_index_fields [simp]:
  "qr_recommended (score_index x res) = qr_recommended res + of_bool (x_recommended x)"
  "qr_index_gain (score_index x res) = (if x_recommended x then max (qr_index_gain res) (x_improvement x) else qr_index_gain res)"
  "qr_accepted (score_index x res) = qr_accepted res" "qr_reasons (score_index x res) = qr_reasons res"
  "qr_tested (score_index x res) = qr_tested res" "qr_found (score_index x res) = qr_found res"
  "qr_error (score_index x res) = qr_error res"
  by (simp_all add: score_index_def Let_def)

lemma fold_score_index:
  "qr_recommended (fold score_index xs res) = qr_recommended res + int (length (filter x_recommended xs))"
  "qr_accepted (fold score_index xs res) = qr_accepted res" "qr_reasons (fold score_index xs res) = qr_reasons res"
  "qr_tested (fold score_index xs res) = qr_tested res" "qr_found (fold score_index xs res) = qr_found res"
  "qr_error (fold score_index xs res) = qr_error res"
  by (induction xs arbitrary: res) simp_all

lemma fold_score_index_gain:
  "qr_index_gain (fold score_index xs res) =
     fold max (map x_improvement (filter x_recommended xs)) (qr_index_gain res)"
  by (induction xs arbitrary: res) (simp_all add: max.commute)

lemma score_best_fields [simp]:
  "qr_accepted (score_best b res) = qr_accepted res" "qr_reasons (score_best b res) = qr_reasons res"
  "qr_tested (score_best b res) = qr_tested res" "qr_found (score_best b res) = qr_found res"
  "qr_error (score_best b res) = qr_error res" "qr_recommended (score_best b res) = qr_recommended res"
  "qr_index_gain (score_best b res) = qr_index_gain res"
  by (simp_all add: score_best_def split: option.split)

section \<open>The totals\<close>

definition succeeded :: "query_result list \<Rightarrow> query_result list" where
  "succeeded rs = filter (\<lambda>r. qr_error r = '''') rs"

definition improved :: "query_result list \<Rightarrow> query_result list" where
  "improved rs = filter (\<lambda>r. 0 < qr_accepted r) (succeeded rs)"

definition false_positive :: "query_result \<Rightarrow> bool" where
  "false_positive r \<longleftrightarrow> qr_control r \<and> (0 < qr_accepted r \<or> 0 < qr_recommended r)"

definition totals_of :: "query_result list \<Rightarrow> totals" where
  "totals_of rs =
     (let ok = succeeded rs in
      \<lparr>tt_queries = int (length rs), tt_failed = int (length rs) - int (length ok),
       tt_expected_total = int (length (filter (\<lambda>r. qr_expected r \<noteq> '''') ok)),
       tt_expected_found = int (length (filter (\<lambda>r. qr_expected r \<noteq> '''' \<and> qr_found r) ok)),
       tt_improved = int (length (improved rs)), tt_speedups = map qr_speedup (improved rs),
       tt_best_speedup = fold max (map qr_speedup (improved rs)) 0,
       tt_tested = sum_list (map qr_tested ok), tt_accepted = sum_list (map qr_accepted ok),
       tt_reasons = (\<lambda>x. sum_list (map (\<lambda>r. qr_reasons r x) ok)),
       tt_indexes_tested = sum_list (map qr_indexes_tested ok), tt_recommended = sum_list (map qr_recommended ok),
       tt_false_positives = int (length (filter false_positive ok)),
       tt_saved = sum_list (map (\<lambda>r. qr_baseline r - qr_best r) (improved rs))\<rparr>)"

lemma succeeded_snoc [simp]:
  "succeeded (rs @ [r]) = (if qr_error r = '''' then succeeded rs @ [r] else succeeded rs)"
  "improved (rs @ [r]) = (if qr_error r = '''' \<and> 0 < qr_accepted r then improved rs @ [r] else improved rs)"
  by (simp_all add: succeeded_def improved_def)

lemma max_if: "(if a < b then b else a) = max a (b :: real)"
  by (simp add: max_def)

lemma summarize_failed:
  "qr_error r \<noteq> '''' \<Longrightarrow> summarize_step r (totals_of rs) = totals_of (rs @ [r])"
  by (simp add: summarize_step_def totals_of_def Let_def)

lemma summarize_succeeded:
  assumes "qr_error r = ''''"
  shows "summarize_step r (totals_of rs) = totals_of (rs @ [r])"
proof -
  have fp: "add_false_positive r t = t\<lparr>tt_false_positives := tt_false_positives t + of_bool (false_positive r)\<rparr>" for t
    by (simp add: add_false_positive_def false_positive_def)
  have ex: "add_expectation r t = t\<lparr>tt_expected_total := tt_expected_total t + of_bool (qr_expected r \<noteq> ''''),
      tt_expected_found := tt_expected_found t + of_bool (qr_expected r \<noteq> '''' \<and> qr_found r)\<rparr>" for t
    by (simp add: add_expectation_def)
  have im: "add_improvement r t = (if 0 < qr_accepted r
      then t\<lparr>tt_improved := tt_improved t + 1, tt_speedups := tt_speedups t @ [qr_speedup r],
        tt_saved := tt_saved t + (qr_baseline r - qr_best r), tt_best_speedup := max (tt_best_speedup t) (qr_speedup r)\<rparr>
      else t)" for t
    by (simp add: add_improvement_def max_if)
  show ?thesis
    using assms
    by (cases "0 < qr_accepted r")
      (simp_all add: summarize_step_def totals_of_def fp ex im add_counts_def Let_def max.commute)
qed

lemma summarize_step_snoc: "summarize_step r (totals_of rs) = totals_of (rs @ [r])"
  using summarize_failed summarize_succeeded by blast

lemma fold_summarize: "fold summarize_step rs no_totals = totals_of rs"
proof (induction rs rule: rev_induct)
  case Nil
  then show ?case by (simp add: totals_of_def succeeded_def improved_def no_totals_def Let_def)
next
  case (snoc r rs)
  then show ?case by (simp add: summarize_step_snoc)
qed

lemma runOne_result:
  assumes "Run opt (bq_sql q) w = (Inr rep, w1)" and "runOne opt q w = (res, w2)"
  shows "w2 = w1 \<and> qr_error res = '''' \<and> qr_tested res = int (length (rp_candidates rep)) \<and>
    qr_accepted res = int (length (filter (\<lambda>c. r_verdict c = VerdictAccepted) (rp_candidates rep))) \<and>
    qr_reasons res = (\<lambda>x. int (length (filter (\<lambda>c. r_verdict c \<noteq> VerdictAccepted \<and> reason_text (r_reason c) = x)
      (rp_candidates rep)))) \<and>
    (0 < qr_accepted res \<longleftrightarrow> rp_best rep \<noteq> None) \<and>
    qr_index_gain res = fold max (map x_improvement (filter x_recommended (rp_indexes rep))) 0 \<and>
    (qr_found res \<longleftrightarrow> bq_finding q = '''' \<or> bq_finding q \<in> f_code ` set (rp_findings rep))"
proof -
  have "is_best (rp_candidates rep) (rp_best rep)" using Run_report [OF assms(1)] best_of_is_best by metis
  then have best: "rp_best rep \<noteq> None \<longleftrightarrow> (\<exists>r \<in> set (rp_candidates rep). r_verdict r = VerdictAccepted)"
    by (auto simp: is_best_def split: option.splits)
  have res: "res = score_report q rep ((new_result q)\<lparr>qr_duration := milliseconds (op_clock opt w1 - op_clock opt w)\<rparr>)"
    and w: "w2 = w1"
    using assms by (auto simp: runOne_def Let_def)
  have "0 < length (filter (\<lambda>c. r_verdict c = VerdictAccepted) (rp_candidates rep)) \<longleftrightarrow> rp_best rep \<noteq> None"
    unfolding best by (auto simp: filter_empty_conv)
  then show ?thesis unfolding res w
    by (auto simp: score_report_def Let_def fold_score_finding fold_score_candidate fold_score_index
        fold_score_index_gain new_result_def)
qed

section \<open>Properties\<close>

text \<open>
  The hand-written substring search of the benchmark, which selects the queries to run, agrees with
  the library's \<open>strings.Contains\<close> on every pair of texts.
\<close>
theorem contains_text_equiv: "contains_text s sub = str_contains s sub"
  by (simp add: contains_text_infix str_contains_iff)

text \<open>
  A benchmark result accounts for every candidate of the run: each was accepted or is counted under
  its reason, once; a query counts as improved exactly when the report has a best rewrite; and the best
  index gain is the largest gain of a recommended index, or zero.
\<close>
theorem runOne_accounts:
  assumes "Run opt (bq_sql q) w = (Inr rep, w1)" and "runOne opt q w = (res, w2)"
  shows "w2 = w1 \<and> qr_error res = '''' \<and> qr_tested res = int (length (rp_candidates rep)) \<and>
    qr_accepted res = int (length (filter (\<lambda>c. r_verdict c = VerdictAccepted) (rp_candidates rep))) \<and>
    qr_reasons res = (\<lambda>x. int (length (filter (\<lambda>c. r_verdict c \<noteq> VerdictAccepted \<and> reason_text (r_reason c) = x)
      (rp_candidates rep)))) \<and>
    (0 < qr_accepted res \<longleftrightarrow> rp_best rep \<noteq> None) \<and>
    qr_index_gain res = fold max (map x_improvement (filter x_recommended (rp_indexes rep))) 0 \<and>
    (qr_found res \<longleftrightarrow> bq_finding q = '''' \<or> bq_finding q \<in> f_code ` set (rp_findings rep))"
  using runOne_result [OF assms] .

lemma runOne_accounts_witness:
  "\<exists>rep w1. Run demo_optimizer ''SELECT 1'' 0 = (Inr rep, w1) \<and>
     qr_tested (fst (runOne demo_optimizer \<lparr>bq_id = ''q'', bq_description = '''', bq_sql = ''SELECT 1'', bq_control = False,
       bq_expects = \<lparr>ex_finding = '''', ex_rewrite = False, ex_index = False\<rparr>\<rparr> 0))
       = int (length (rp_candidates rep))"
proof -
  let ?q = "\<lparr>bq_id = ''q'', bq_description = '''', bq_sql = ''SELECT 1'', bq_control = False,
       bq_expects = \<lparr>ex_finding = '''', ex_rewrite = False, ex_index = False\<rparr>\<rparr>"
  obtain rep w1 where r: "Run demo_optimizer (bq_sql ?q) 0 = (Inr rep, w1)" using demo_run by auto
  obtain res w2 where o: "runOne demo_optimizer ?q 0 = (res, w2)" by fastforce
  from runOne_accounts [OF r o] r o show ?thesis by auto
qed

text \<open>
  The benchmark's totals are what they are named: over the queries that did not fail, the sums of
  the candidates, rejections and indexes, the number of expected findings that were found, of queries
  with an accepted rewrite and of controls with a false positive; the best speedup is the largest, or
  zero, and the median speedup is one of the speedups when there are any.
\<close>
theorem bench_summarize_totals:
  "fst (bench_summarize rs) = totals_of rs \<and>
   snd (snd (bench_summarize rs)) \<in> (if improved rs = [] then {0} else qr_speedup ` set (improved rs))"
proof -
  let ?s = "map qr_speedup (improved rs)"
  have "sort ?s ! (length ?s div 2) \<in> set ?s" if "improved rs \<noteq> []"
    using that nth_mem [of "length ?s div 2" "sort ?s"] by simp
  moreover have "tt_speedups (totals_of rs) = ?s" by (simp add: totals_of_def Let_def)
  ultimately show ?thesis by (simp add: bench_summarize_def fold_summarize Let_def)
qed

end
