(* ===== verification/Bench_Main.thy ===== *)
theory Bench_Main
  imports Bench_Facts Processes
begin

text \<open>
  The rest of \<open>cmd/bench/main.go\<close>: the lines it prints and its \<open>main\<close>, from the environment and the
  flags to the report.  Reading and writing files and JSON are parameters; the log is silenced by the
  program itself.
\<close>

section \<open>Printing\<close>

text \<open>A line for each query: a cell is the dash when there is nothing to show.\<close>

definition found_cell :: "query_result \<Rightarrow> string" where
  "found_cell r = (if qr_expected r \<noteq> '''' then (if qr_found r then ''found'' else ''MISSED'') else utf8_dash)"

definition rewrite_cell :: "query_result \<Rightarrow> string" where
  "rewrite_cell r = (if qr_accepted r > 0 then show_fixed 0 (qr_improvement r) @ ''% faster'' else utf8_dash)"

definition index_cell :: "query_result \<Rightarrow> string" where
  "index_cell r =
     (if qr_recommended r > 0
      then show_int (qr_recommended r) @ '' rec ('' @ show_fixed 0 (qr_index_gain r) @ ''%)'' else utf8_dash)"

definition printOne :: "query_result \<Rightarrow> string" where
  "printOne r =
     (if qr_error r \<noteq> '''' then ''  '' @ pad_right 24 (qr_id r) @ '' ERROR '' @ qr_error r @ newline
      else ''  '' @ (if qr_control r then ''C'' else '' '') @ '' '' @ pad_right 24 (qr_id r) @ '' '' @
        pad_left 8 (show_fixed 1 (qr_baseline r)) @ ''ms  finding:'' @ pad_right 7 (found_cell r) @
        '' rewrite:'' @ pad_right 14 (rewrite_cell r) @ '' index:'' @ pad_right 14 (index_cell r) @ '' '' @
        show_int (qr_accepted r) @ ''/'' @ show_int (qr_tested r) @ '' cand'' @ newline)"

text \<open>
  The keys of the map of rejection reasons, sorted: the texts that were counted.  The model's map is a
  function, so its keys are looked for among the texts that there are.
\<close>

definition reason_texts :: "string list" where
  "reason_texts = map reason_text [NoReason, ReasonUnparseable, ReasonNotReadOnly, ReasonShapeMismatch,
     ReasonResultMismatch, ReasonNotFaster, ReasonTimedOut, ReasonIdentical, ReasonExecutionError]"

definition reason_keys :: "totals \<Rightarrow> string list" where
  "reason_keys t = sort (filter (\<lambda>x. tt_reasons t x \<noteq> 0) reason_texts)"

definition printSummary :: "totals \<times> string \<times> real \<Rightarrow> string" where
  "printSummary rep =
     (case rep of (t, expected, median_speedup) \<Rightarrow>
       newline @ ''  queries                      '' @ show_int (tt_queries t) @ '' ('' @ show_int (tt_failed t) @
         '' failed)'' @ newline @
       ''  expected defects detected    '' @ expected @ newline @
       ''  queries improved             '' @ show_int (tt_improved t) @ newline @
       (if tt_improved t > 0
        then ''  speedup on improved          median '' @ show_fixed 1 median_speedup @ ''x, best '' @
            show_fixed 1 (tt_best_speedup t) @ ''x'' @ newline @
          ''  wall clock saved per run     '' @ show_fixed 0 (tt_saved t) @ ''ms across all queries'' @ newline
        else '''') @
       ''  rewrites accepted/tested     '' @ show_int (tt_accepted t) @ ''/'' @ show_int (tt_tested t) @ newline @
       ''  indexes recommended/tested   '' @ show_int (tt_recommended t) @ ''/'' @ show_int (tt_indexes_tested t) @ newline @
       ''  false positives on controls  '' @ show_int (tt_false_positives t) @ newline @
       (if reason_keys t \<noteq> []
        then ''  why candidates were rejected:'' @ newline @
          concat (map (\<lambda>r. ''    '' @ pad_right 32 r @ '' '' @ show_int (tt_reasons t r) @ newline) (reason_keys t))
        else ''''))"

section \<open>The program\<close>

record flags =
  fl_queries :: string
  fl_out :: string
  fl_only :: string
  fl_skip_llm :: bool
  fl_skip_indexes :: bool

definition default_flags :: flags where
  "default_flags =
     \<lparr>fl_queries = ''testdata/queries.json'', fl_out = ''testdata/bench-report.json'', fl_only = '''',
      fl_skip_llm = False, fl_skip_indexes = False\<rparr>"

record 'w bench_files =
  read_file :: "string \<Rightarrow> 'w \<Rightarrow> string result \<times> 'w"
  write_file :: "string \<Rightarrow> string \<Rightarrow> 'w \<Rightarrow> unit result \<times> 'w"
  unmarshal_queries :: "string \<Rightarrow> bench_query list result"
  marshal_bench :: "string \<Rightarrow> bool \<Rightarrow> int \<Rightarrow> query_result list \<Rightarrow> totals \<times> string \<times> real \<Rightarrow> string"

text \<open>\<open>fatal\<close> writes its message to the standard error and exits with status 1.\<close>

datatype bench_end = Fatal string | Finished

definition fatal :: "string \<Rightarrow> go_error \<Rightarrow> bench_end" where
  "fatal what err = Fatal (''bench: '' @ what @ '': '' @ err_text err @ newline)"

definition bench_optimizer :: "'w platform \<Rightarrow> config \<Rightarrow> 'w engine \<Rightarrow> flags \<Rightarrow> 'w optimizer" where
  "bench_optimizer pf cfg eng fl =
     (let model = Some (new_client (GeminiAPIKey cfg) (GeminiModel cfg)) in
      (new_optimizer pf cfg eng)
        \<lparr>op_opts := bench_options cfg (pf_number pf (MinImprovementPct cfg)) model (fl_skip_llm fl) (fl_skip_indexes fl)\<rparr>)"

definition bench_header :: "config \<Rightarrow> bench_query list \<Rightarrow> bool \<Rightarrow> string" where
  "bench_header cfg qs useLLM =
     ''queryforge benchmark '' @ utf8_dash @ '' '' @ show_nat (length qs) @ '' queries, LLM '' @
     (if useLLM then ''on ('' @ GeminiModel cfg @ '')'' else ''off'') @ newline @ newline"

text \<open>The run of the queries and what it prints; the report is written at the end.\<close>

definition bench_queries ::
    "'w platform \<Rightarrow> 'w bench_files \<Rightarrow> flags \<Rightarrow> config \<Rightarrow> 'w engine \<Rightarrow> bench_query list \<Rightarrow> 'w \<Rightarrow> (string \<times> bench_end) \<times> 'w" where
  "bench_queries pf fs fl cfg eng qs w =
     (let opt = bench_optimizer pf cfg eng fl; useLLM = (Enabled (op_llm opt) \<and> \<not> fl_skip_llm fl); ranAt = pf_clock pf w in
      case run_bench opt (filter (selected (fl_only fl)) qs) w of
        (rs, w1) \<Rightarrow>
          let rep = bench_summarize rs;
              out = bench_header cfg qs useLLM @ concat (map printOne rs) @ printSummary rep
          in case write_file fs (fl_out fl) (marshal_bench fs (GeminiModel cfg) useLLM ranAt rs rep) w1 of
              (Inl err, w2) \<Rightarrow> ((out, fatal ''write report'' err), w2)
            | (Inr _, w2) \<Rightarrow> ((out @ newline @ ''report written to '' @ fl_out fl @ newline, Finished), w2))"

definition bench_program ::
    "'w platform \<Rightarrow> 'w bench_files \<Rightarrow> (string \<Rightarrow> string) \<Rightarrow> flags \<Rightarrow> 'w \<Rightarrow> (string \<times> bench_end) \<times> 'w" where
  "bench_program pf fs getenv fl w =
     (case Load getenv of
        Inl err \<Rightarrow> (('''', fatal ''config'' err), w)
      | Inr cfg \<Rightarrow>
          case read_file fs (fl_queries fl) w of
            (Inl err, w1) \<Rightarrow> (('''', fatal ''read queries'' err), w1)
          | (Inr raw, w1) \<Rightarrow>
              case unmarshal_queries fs raw of
                Inl err \<Rightarrow> (('''', fatal ''parse queries'' err), w1)
              | Inr qs \<Rightarrow>
                  case Open (pf_connector pf) (pf_json pf) (TargetDSN cfg) (TargetDialect cfg) (worker_timings cfg) w1 of
                    (Inl err, w2) \<Rightarrow> (('''', fatal ''connect to the target database'' err), w2)
                  | (Inr eng, w2) \<Rightarrow> bench_queries pf fs fl cfg eng qs w2)"

section \<open>Facts\<close>

lemma reason_texts_all: "reason_text r \<in> set reason_texts"
  by (cases r) (simp_all add: reason_texts_def)

lemma reason_texts_distinct: "distinct reason_texts"
  by code_simp

lemma sum_of_bool: "distinct xs \<Longrightarrow> sum_list (map (\<lambda>x. of_bool (a = x) :: int) xs) = of_bool (a \<in> set xs)"
  by (induction xs) auto

lemma counts_by_reason:
  "sum_list (map (\<lambda>x. int (length (filter (\<lambda>c. P c \<and> reason_text (r_reason c) = x) cs))) reason_texts) =
     int (length (filter P cs))"
proof (induction cs)
  case (Cons c cs)
  have "int (length (filter (\<lambda>c. P c \<and> reason_text (r_reason c) = x) (c # cs))) =
      (if P c then of_bool (reason_text (r_reason c) = x) else 0) +
      int (length (filter (\<lambda>c. P c \<and> reason_text (r_reason c) = x) cs))" for x by simp
  then show ?case
    using Cons.IH sum_of_bool [OF reason_texts_distinct, of "reason_text (r_reason c)"]
    by (simp add: sum_list_addf reason_texts_all)
qed (simp add: sum_list_triv)

text \<open>One result accounts for its candidates, whether the run failed or not.\<close>

definition accounts :: "query_result \<Rightarrow> bool" where
  "accounts r \<longleftrightarrow> qr_accepted r + sum_list (map (qr_reasons r) reason_texts) = qr_tested r \<and>
     (\<forall>x. x \<notin> set reason_texts \<longrightarrow> qr_reasons r x = 0) \<and> (\<forall>x. 0 \<le> qr_reasons r x)"

lemma runOne_accounted: "accounts (fst (runOne opt q w))"
proof -
  obtain r w1 where run: "Run opt (bq_sql q) w = (r, w1)" by fastforce
  show ?thesis
  proof (cases r)
    case (Inl err)
    then show ?thesis by (simp add: runOne_def run Let_def accounts_def new_result_def sum_list_triv)
  next
    case (Inr rep)
    obtain res w2 where o1: "runOne opt q w = (res, w2)" by fastforce
    have res: "qr_tested res = int (length (rp_candidates rep))"
      "qr_accepted res = int (length (filter (\<lambda>c. r_verdict c = VerdictAccepted) (rp_candidates rep)))"
      "qr_reasons res = (\<lambda>x. int (length (filter (\<lambda>c. r_verdict c \<noteq> VerdictAccepted \<and> reason_text (r_reason c) = x)
        (rp_candidates rep))))"
      using runOne_result [OF run [unfolded Inr] o1] by blast+
    have "length (filter (\<lambda>c. r_verdict c = VerdictAccepted) (rp_candidates rep)) +
        length (filter (\<lambda>c. r_verdict c \<noteq> VerdictAccepted) (rp_candidates rep)) = length (rp_candidates rep)"
      by (rule sum_length_filter_compl)
    then show ?thesis using reason_texts_all
      by (auto simp: o1 accounts_def res counts_by_reason filter_empty_conv)
  qed
qed

lemma run_bench_accounted: "run_bench opt qs w = (rs, w1) \<Longrightarrow> list_all accounts rs \<and> length rs = length qs"
proof (induction qs arbitrary: w rs)
  case (Cons q qs)
  then show ?case using runOne_accounted [of opt q w] by (auto split: prod.splits)
qed simp

lemma accounts_sum:
  "list_all accounts rs \<Longrightarrow>
     sum_list (map qr_accepted rs) + sum_list (map (\<lambda>x. sum_list (map (\<lambda>r. qr_reasons r x) rs)) reason_texts) =
     sum_list (map qr_tested rs)"
  by (induction rs) (auto simp: accounts_def sum_list_addf sum_list_triv)

lemma sum_filter_nonzero: "sum_list (map f (filter (\<lambda>x. f x \<noteq> 0) xs)) = sum_list (map f xs)" for f :: "'a \<Rightarrow> int"
  by (induction xs) auto

lemma sum_list_sort: "sum_list (map f (sort xs)) = sum_list (map f xs)" for f :: "'a :: linorder \<Rightarrow> int"
  by (metis mset_map mset_sort sum_mset_sum_list)

section \<open>Properties\<close>

text \<open>
  C40: the summary that is printed accounts for every candidate.  For the results of a run, the reasons that
  are printed are those that occurred, in order and once each, and their counts add up with the accepted
  rewrites to the rewrites tested; the number of queries is that of the selected ones.
\<close>
theorem summary_accounts:
  assumes "run_bench opt (filter (selected only) qs) w = (rs, w1)" and "bench_summarize rs = (t, expected, med)"
  shows "tt_accepted t + sum_list (map (tt_reasons t) (reason_keys t)) = tt_tested t \<and>
    sorted (reason_keys t) \<and> distinct (reason_keys t) \<and>
    (\<forall>x. x \<in> set (reason_keys t) \<longleftrightarrow> 0 < tt_reasons t x) \<and>
    tt_queries t = int (length (filter (selected only) qs))"
proof -
  let ?ok = "succeeded rs"
  note run = run_bench_accounted [OF assms(1)]
  have ok: "list_all accounts ?ok" using run by (auto simp: succeeded_def list_all_iff)
  have t: "t = totals_of rs" using assms(2) by (simp add: bench_summarize_def fold_summarize Let_def)
  have reasons: "tt_reasons t = (\<lambda>x. sum_list (map (\<lambda>r. qr_reasons r x) ?ok))" by (simp add: t totals_of_def Let_def)
  have pos: "0 \<le> tt_reasons t x" for x
    unfolding reasons using ok by (intro sum_list_nonneg) (auto simp: list_all_iff accounts_def)
  have "tt_reasons t x = 0" if "x \<notin> set reason_texts" for x
  proof -
    have "map (\<lambda>r. qr_reasons r x) ?ok = map (\<lambda>r. 0) ?ok" using ok that by (auto simp: list_all_iff accounts_def)
    then have "tt_reasons t x = sum_list (map (\<lambda>r. 0) ?ok)" unfolding reasons by (rule arg_cong)
    then show ?thesis by (simp only: sum_list_0)
  qed
  then have "x \<in> set (reason_keys t) \<longleftrightarrow> 0 < tt_reasons t x" for x
    using pos [of x] by (auto simp: reason_keys_def order_less_le)
  moreover have "tt_accepted t + sum_list (map (tt_reasons t) (reason_keys t)) = tt_tested t"
    using accounts_sum [OF ok]
    unfolding reason_keys_def sum_list_sort sum_filter_nonzero by (simp add: reasons) (simp add: t totals_of_def Let_def)
  moreover have "tt_queries t = int (length (filter (selected only) qs))" using run by (simp add: t totals_of_def Let_def)
  ultimately show ?thesis using reason_texts_distinct by (simp add: reason_keys_def)
qed

lemma summary_accounts_witness:
  "\<exists>rs w1 t. run_bench demo_optimizer (filter (selected '''') [\<lparr>bq_id = ''q'', bq_description = '''', bq_sql = ''SELECT 1'',
     bq_control = False, bq_expects = \<lparr>ex_finding = '''', ex_rewrite = False, ex_index = False\<rparr>\<rparr>]) 0 = (rs, w1) \<and>
     fst (bench_summarize rs) = t \<and> tt_queries t = 1"
proof -
  let ?qs = "[\<lparr>bq_id = ''q'', bq_description = '''', bq_sql = ''SELECT 1'', bq_control = False,
    bq_expects = \<lparr>ex_finding = '''', ex_rewrite = False, ex_index = False\<rparr>\<rparr>]"
  obtain rs w1 where r: "run_bench demo_optimizer (filter (selected '''') ?qs) 0 = (rs, w1)" by fastforce
  obtain t ex m where s: "bench_summarize rs = (t, ex, m)" using prod_cases3 by blast
  from summary_accounts [OF r s] have "tt_queries t = 1" by (simp add: selected_def)
  with r s show ?thesis by (intro exI [of _ rs] exI [of _ w1] exI [of _ t]) simp
qed

end
