(* ===== verification/Llm_Facts.thy ===== *)
theory Llm_Facts
  imports Llm
begin

text \<open>
  What the model client promises: the text that \<open>ExtractJSON\<close> returns is one balanced value of the
  answer, a request is repeated a bounded number of times, and the API key does not leave in an
  error message.
\<close>

section \<open>The scan\<close>

lemma scan_json_append:
  "scan_json opn cls d i e n s = Some m \<Longrightarrow> scan_json opn cls d i e n (s @ rest) = Some m"
  by (induction opn cls d i e n s rule: scan_json.induct) (auto split: if_splits)

lemma scan_json_last:
  "scan_json opn cls d i e n s = Some m \<Longrightarrow> n < m \<and> m \<le> n + length s \<and> s ! (m - n - 1) = cls"
proof (induction opn cls d i e n s rule: scan_json.induct)
  case (2 opn cls d i e n ch cs)
  have step: "n < m \<and> m \<le> n + length (ch # cs) \<and> (ch # cs) ! (m - n - 1) = cls"
    if "Suc n < m \<and> m \<le> Suc n + length cs \<and> cs ! (m - Suc n - 1) = cls"
  proof -
    from that obtain k where "m = Suc (Suc n + k)" using less_imp_Suc_add by blast
    with that show ?thesis by simp
  qed
  show ?case
  proof (cases "\<not> e \<and> \<not> (ch = CHR 0x5C \<and> i) \<and> ch \<noteq> CHR 0x22 \<and> \<not> i \<and> ch \<noteq> opn \<and> ch = cls \<and> d - 1 = 0")
    case True
    then show ?thesis using 2(8) by auto
  next
    case False
    then show ?thesis using 2 step by (auto split: if_splits)
  qed
qed simp

lemma scan_json_take:
  "scan_json opn cls d i e n s = Some m \<Longrightarrow> scan_json opn cls d i e n (take (m - n) s) = Some m"
proof (induction opn cls d i e n s rule: scan_json.induct)
  case (2 opn cls d i e n ch cs)
  have m: "n < m" using scan_json_last [OF 2(8)] by simp
  then have take: "take (m - n) (ch # cs) = ch # take (m - Suc n) cs"
    by (metis Suc_diff_Suc take_Suc_Cons)
  show ?case
  proof (cases "\<not> e \<and> \<not> (ch = CHR 0x5C \<and> i) \<and> ch \<noteq> CHR 0x22 \<and> \<not> i \<and> ch \<noteq> opn \<and> ch = cls \<and> d - 1 = 0")
    case True
    then show ?thesis using 2(8) by auto
  next
    case False
    then show ?thesis using 2 by (auto simp: take split: if_splits)
  qed
qed simp

text \<open>A text that the scan closes exactly at its end.\<close>

definition closed_json :: "string \<Rightarrow> bool" where
  "closed_json t \<longleftrightarrow> t \<noteq> '''' \<and> is_open (hd t) \<and>
     scan_json (hd t) (closer (hd t)) 0 False False 0 t = Some (length t)"

lemma closed_json_last: "closed_json t \<Longrightarrow> last t = closer (hd t)"
  using scan_json_last [of "hd t" "closer (hd t)" 0 False False 0 t "length t"]
  by (auto simp: closed_json_def last_conv_nth)

lemma extract_from_body:
  assumes "body = opn # cs" and "is_open opn" and "scan_json opn (closer opn) 0 False False 0 body = Some n"
  shows "closed_json (take n body)"
proof -
  have n: "0 < n" "n \<le> length body" using scan_json_last [OF assms(3)] by simp_all
  then have "hd (take n body) = opn" using assms(1) by simp
  then show ?thesis
    using n assms(2) scan_json_take [OF assms(3)] by (auto simp: closed_json_def assms(1))
qed

section \<open>Substrings\<close>

definition infix_of :: "string \<Rightarrow> string \<Rightarrow> bool" where
  "infix_of t s \<longleftrightarrow> (\<exists>u v. s = u @ t @ v)"

lemma infix_trans: "infix_of a b \<Longrightarrow> infix_of b c \<Longrightarrow> infix_of a c"
  by (auto simp: infix_of_def) (metis append.assoc)

lemma infix_take: "infix_of (take n s) s"
  by (simp add: infix_of_def) (metis append_Nil append_take_drop_id)

lemma infix_drop: "infix_of (drop n s) s"
  by (simp add: infix_of_def) (metis append_Nil2 append_take_drop_id)

lemma infix_dropWhile: "infix_of (dropWhile p s) s"
  by (metis dropWhile_eq_drop infix_drop)

lemma infix_trim_right: "infix_of (trim_right p s) s"
  using trim_right_prefix [of s p] by (auto simp: infix_of_def) (metis append_Nil)

lemma infix_trim: "infix_of (trim_space s) s"
  unfolding trim_space_def trim_func_def trim_left_def by (rule infix_trans [OF infix_trim_right infix_dropWhile])

lemma infix_refl: "infix_of s s"
  by (simp add: infix_of_def) (metis append_Nil append_Nil2)

lemma infix_strip_fence: "infix_of (strip_fence s) s"
proof (cases "str_index s fence_text")
  case None
  then show ?thesis by (simp add: strip_fence_def infix_refl)
next
  case (Some fence)
  let ?rest = "drop (fence + 3) s"
  let ?rest1 = "case str_index ?rest [CHR 0x0A] of Some k \<Rightarrow> drop (k + 1) ?rest | None \<Rightarrow> ?rest"
  have "infix_of ?rest1 ?rest"
    by (cases "str_index ?rest [CHR 0x0A]") (simp_all only: option.case infix_drop infix_refl)
  then have "infix_of ?rest1 s" by (rule infix_trans [OF _ infix_drop])
  then have "infix_of (trim_space (take k ?rest1)) s" for k
    by (meson infix_take infix_trans infix_trim)
  then show ?thesis by (auto simp: strip_fence_def Some Let_def infix_refl split: option.split)
qed

lemma trim_right_append: "t \<noteq> [] \<Longrightarrow> \<not> p (last t) \<Longrightarrow> trim_right p (t @ post) = t @ trim_right p post"
proof -
  assume t: "t \<noteq> []" "\<not> p (last t)"
  then have "dropWhile p (rev t) = rev t" by (cases t rule: rev_cases) auto
  then show ?thesis by (cases "\<forall>x \<in> set post. p x") (auto simp: trim_right_def dropWhile_append)
qed

lemma is_open_not_space: "is_open c \<Longrightarrow> \<not> is_space c"
  by (auto simp: is_open_def is_space_def char_code_def)

lemma dropWhile_trim: "dropWhile (\<lambda>c. \<not> is_open c) (dropWhile is_space s) = dropWhile (\<lambda>c. \<not> is_open c) s"
  by (induction s) (auto dest: is_open_not_space)

section \<open>Redaction\<close>

text \<open>
  The key and the replacement do not overlap: neither occurs in the other, and no end of the one is
  a beginning of the other.
\<close>

definition no_overlap :: "string \<Rightarrow> string \<Rightarrow> bool" where
  "no_overlap key r \<longleftrightarrow> key \<noteq> '''' \<and> r \<noteq> '''' \<and>
     list_all (\<lambda>n. \<not> has_prefix r (drop n key) \<and> \<not> has_prefix (drop n key) r) [0..<length key] \<and>
     list_all (\<lambda>k. \<not> has_prefix (drop k r) key \<and> \<not> has_prefix key (drop k r)) [0..<length r]"

lemma no_overlapD:
  assumes "no_overlap key r"
  shows "key \<noteq> ''''" "r \<noteq> ''''"
    "n < length key \<Longrightarrow> \<not> has_prefix r (drop n key)" "n < length key \<Longrightarrow> \<not> has_prefix (drop n key) r"
    "k < length r \<Longrightarrow> \<not> has_prefix (drop k r) key" "k < length r \<Longrightarrow> \<not> has_prefix key (drop k r)"
  using assms by (simp_all add: no_overlap_def list_all_iff)

lemma has_prefix_append_cases: "has_prefix (a @ b) q \<Longrightarrow> has_prefix a q \<or> has_prefix q a"
  by (auto simp: has_prefix_iff append_eq_append_conv2)

lemma has_prefix_Cons: "has_prefix (c # s) (d # q) \<longleftrightarrow> c = d \<and> has_prefix s q"
  by (auto simp: has_prefix_def)

lemma replace_all_hit:
  "s \<noteq> [] \<Longrightarrow> key \<noteq> [] \<Longrightarrow> has_prefix s key \<Longrightarrow> replace_all s key r = r @ replace_all (drop (length key) s) key r"
  by (cases s) simp_all

lemma replace_all_miss:
  "\<not> has_prefix (c # cs) key \<Longrightarrow> replace_all (c # cs) key r = c # replace_all cs key r"
  by simp

declare replace_all.simps(2) [simp del]

lemma replace_all_front:
  assumes ov: "no_overlap key r"
  shows "n < length key \<Longrightarrow> has_prefix (replace_all s key r) (drop n key) \<Longrightarrow> has_prefix s (drop n key)"
proof (induction s arbitrary: n)
  case Nil
  then show ?case by simp
next
  case (Cons c cs)
  show ?case
  proof (cases "has_prefix (c # cs) key")
    case True
    then have "has_prefix (r @ replace_all (drop (length key) (c # cs)) key r) (drop n key)"
      using Cons.prems no_overlapD(1) [OF ov] by (simp add: replace_all_hit)
    then have "has_prefix r (drop n key) \<or> has_prefix (drop n key) r" by (rule has_prefix_append_cases)
    then show ?thesis using no_overlapD(3,4) [OF ov Cons.prems(1)] by blast
  next
    case False
    obtain d where d: "drop n key = d # drop (Suc n) key"
      using Cons.prems(1) by (metis Cons_nth_drop_Suc)
    have pre: "c = d" "has_prefix (replace_all cs key r) (drop (Suc n) key)"
      using Cons.prems(2) unfolding replace_all_miss [OF False] d has_prefix_Cons by simp_all
    have "has_prefix cs (drop (Suc n) key)"
    proof (cases "Suc n < length key")
      case True
      then show ?thesis using Cons.IH pre(2) by blast
    qed simp
    then show ?thesis using pre(1) by (simp add: d has_prefix_Cons)
  qed
qed

lemma replace_all_removes:
  assumes ov: "no_overlap key r"
  shows "\<not> has_prefix (drop k (replace_all s key r)) key"
proof (induction "length s" arbitrary: s k rule: less_induct)
  case less
  show ?case
  proof (cases s)
    case Nil
    then show ?thesis using no_overlapD(1) [OF ov] by (simp add: has_prefix_def)
  next
    case (Cons c cs)
    show ?thesis
    proof (cases "has_prefix s key")
      case True
      let ?rest = "replace_all (drop (length key) s) key r"
      have rest: "\<not> has_prefix (drop j ?rest) key" for j
        using less Cons no_overlapD(1) [OF ov] by simp
      have eq: "replace_all s key r = r @ ?rest"
        using True Cons no_overlapD(1) [OF ov] by (intro replace_all_hit) simp_all
      show ?thesis
      proof (cases "k < length r")
        case True
        then show ?thesis
          using no_overlapD(5,6) [OF ov True] has_prefix_append_cases [of "drop k r" ?rest key] by (auto simp: eq)
      next
        case False
        then show ?thesis using rest by (simp add: eq)
      qed
    next
      case False
      have eq: "replace_all s key r = c # replace_all cs key r"
        using False Cons by (simp add: replace_all_miss)
      show ?thesis
      proof (cases k)
        case 0
        obtain d where d: "key = d # drop 1 key" using no_overlapD(1) [OF ov] by (cases key) auto
        show ?thesis
        proof
          assume "has_prefix (drop k (replace_all s key r)) key"
          then have "has_prefix (c # replace_all cs key r) (d # drop 1 key)" using 0 eq d by simp
          then have c: "c = d" and pre: "has_prefix (replace_all cs key r) (drop 1 key)"
            by (simp_all only: has_prefix_Cons)
          have "has_prefix cs (drop 1 key)"
            using replace_all_front [OF ov _ pre] by (cases "1 < length key") simp_all
          then have "has_prefix s key" using c d Cons by (metis has_prefix_Cons)
          then show False using False by simp
        qed
      next
        case (Suc j)
        then show ?thesis using less Cons by (simp add: eq [unfolded Cons])
      qed
    qed
  qed
qed

lemma redact_removes_key:
  assumes "no_overlap (api_key c) ''REDACTED''"
  shows "\<not> str_contains (err_text (redact c err)) (api_key c)"
proof (cases "str_contains (err_text err) (api_key c)")
  case True
  have "\<not> str_contains (replace_all (err_text err) (api_key c) ''REDACTED'') (api_key c)"
  proof
    assume "str_contains (replace_all (err_text err) (api_key c) ''REDACTED'') (api_key c)"
    then obtain u v where "replace_all (err_text err) (api_key c) ''REDACTED'' = u @ api_key c @ v"
      by (auto simp: str_contains_iff)
    then have "has_prefix (drop (length u) (replace_all (err_text err) (api_key c) ''REDACTED'')) (api_key c)"
      by simp
    then show False using replace_all_removes [OF assms] by blast
  qed
  then show ?thesis using True no_overlapD(1) [OF assms] by (simp add: redact_def new_error_def)
qed (use no_overlapD(1) [OF assms] in \<open>simp add: redact_def\<close>)

section \<open>Retries\<close>

text \<open>The documented behaviour of a transport: one post is one request; waiting sends none.\<close>

definition counts_posts :: "'w http \<Rightarrow> ('w \<Rightarrow> nat) \<Rightarrow> bool" where
  "counts_posts h posts \<longleftrightarrow>
     (\<forall>url body w. posts (snd (http_post h url body w)) = posts w + 1) \<and>
     (\<forall>t w. posts (snd (http_wait h t w)) = posts w)"

lemma attempt_once_posts: "counts_posts h posts \<Longrightarrow> attempt_once h c payload w = (r, w') \<Longrightarrow> posts w' \<le> posts w + 1"
proof -
  assume c: "counts_posts h posts" and a: "attempt_once h c payload w = (r, w')"
  obtain x w1 where p: "http_post h (request_url c) payload w = (x, w1)" by fastforce
  with a have "w' = w1 \<or> w' = w" by (auto simp: attempt_once_def split: sum.splits prod.splits)
  moreover have "posts w1 = posts w + 1" using c p by (metis counts_posts_def snd_conv)
  ultimately show ?thesis by auto
qed

lemma before_attempt_posts: "counts_posts h posts \<Longrightarrow> before_attempt h d a e w = (r, w') \<Longrightarrow> posts w' = posts w"
  by (auto simp: before_attempt_def counts_posts_def split: if_splits) (metis snd_conv)

text \<open>An answer comes from a 200 response with at least one candidate.\<close>

definition answered :: "'w http \<Rightarrow> llm_client \<Rightarrow> string \<Rightarrow> api_response \<Rightarrow> bool" where
  "answered h c payload ar \<longleftrightarrow> ar_candidates ar \<noteq> [] \<and>
     (\<exists>w raw w'. http_post h (request_url c) payload w = (Inr (200, Inr raw), w') \<and> decode_response h raw = Inr ar)"

lemma attempt_once_answered: "attempt_once h c payload w = (Answer ar, w') \<Longrightarrow> answered h c payload ar"
proof -
  assume a: "attempt_once h c payload w = (Answer ar, w')"
  then obtain status raw w1 where p: "http_post h (request_url c) payload w = (Inr (status, Inr raw), w1)"
    by (auto simp: attempt_once_def split: sum.splits prod.splits)
  with a have "status = 200" "decode_response h raw = Inr ar" "ar_candidates ar \<noteq> []"
    by (auto simp: attempt_once_def split: sum.splits if_splits)
  with p show ?thesis unfolding answered_def by blast
qed

lemma generate_loop_bound:
  assumes "counts_posts h posts"
  shows "posts (snd (generate_loop h c payload start deadline n attempt lastErr w)) \<le> posts w + n"
proof (induction n arbitrary: attempt lastErr w)
  case (Suc n)
  obtain r1 w1 where b: "before_attempt h deadline attempt lastErr w = (r1, w1)" by fastforce
  obtain r2 w2 where o: "attempt_once h c payload w1 = (r2, w2)" by fastforce
  have "posts w1 = posts w" "posts w2 \<le> posts w + 1"
    using before_attempt_posts [OF assms b] attempt_once_posts [OF assms o] by simp_all
  moreover have "posts (snd (generate_loop h c payload start deadline n (Suc attempt) err w2)) \<le> Suc (posts w + n)" for err
    using Suc.IH [of "Suc attempt" err w2] calculation by linarith
  ultimately show ?case by (auto simp: b o le_SucI split: sum.split attempt_outcome.split)
qed simp

lemma generate_loop_answer:
  "generate_loop h c payload start deadline n attempt lastErr w = (Inr rs, w') \<Longrightarrow>
   \<exists>ar. answered h c payload ar \<and> rs_text rs = answer_text ar \<and> rs_usage rs = ar_usage ar"
  by (induction n arbitrary: attempt lastErr w)
    (auto split: sum.splits prod.splits attempt_outcome.splits dest: attempt_once_answered)

section \<open>Properties\<close>



text \<open>
  A balanced JSON text survives the prose around it: without a code fence, when no brace or
  bracket stands before it, \<open>ExtractJSON\<close> returns exactly that text.
\<close>
theorem ExtractJSON_complete:
  assumes t: "closed_json t" and pre: "list_all (\<lambda>c. \<not> is_open c) pre"
    and fence: "\<not> str_contains (pre @ t @ post) fence_text"
  shows "ExtractJSON (pre @ t @ post) = Some t"
proof -
  have ends: "t \<noteq> []" "is_open (hd t)" "\<not> is_space (last t)"
    using t closed_json_last [OF t] by (auto simp: closed_json_def closer_def is_space_def char_code_def)
  have drop: "dropWhile (\<lambda>c. \<not> is_open c) (pre @ t @ x) = t @ x" for x
  proof -
    have "dropWhile (\<lambda>c. \<not> is_open c) (pre @ t @ x) = dropWhile (\<lambda>c. \<not> is_open c) (t @ x)"
      using pre by (auto simp: list_all_iff dropWhile_append)
    then show ?thesis using ends by (cases t) simp_all
  qed
  have "trim_right is_space (pre @ t @ post) = (pre @ t) @ trim_right is_space post"
    using trim_right_append [of "pre @ t" is_space post] ends by simp
  obtain u where u: "dropWhile is_space (pre @ t @ post) = u @ t @ post" "list_all (\<lambda>c. \<not> is_open c) u"
  proof (cases "\<forall>x \<in> set pre. is_space x")
    case True
    then have "dropWhile is_space (pre @ t @ post) = dropWhile is_space (t @ post)" by simp
    also have "\<dots> = [] @ t @ post" using ends(1) is_open_not_space [OF ends(2)] by (cases t) simp_all
    finally show ?thesis using that [of "[]"] by simp
  next
    case False
    then obtain x where "x \<in> set pre" "\<not> is_space x" by blast
    then have "dropWhile is_space (pre @ t @ post) = dropWhile is_space pre @ t @ post"
      by (rule dropWhile_append1)
    moreover have "list_all (\<lambda>c. \<not> is_open c) (dropWhile is_space pre)"
      using pre by (auto simp: list_all_iff dest: set_dropWhileD)
    ultimately show ?thesis using that by blast
  qed
  let ?p = "trim_right is_space post"
  have trimmed: "trim_space (pre @ t @ post) = u @ t @ ?p"
    using trim_right_append [of "u @ t" is_space post] ends by (simp add: trim_space_def trim_func_def trim_left_def u(1))
  have "\<not> str_contains (trim_space (pre @ t @ post)) fence_text"
  proof
    assume "str_contains (trim_space (pre @ t @ post)) fence_text"
    then have "infix_of fence_text (pre @ t @ post)"
      using infix_trim [of "pre @ t @ post"] by (auto simp: str_contains_iff infix_of_def) (metis append.assoc)
    then show False using fence by (auto simp: str_contains_iff infix_of_def)
  qed
  then have "strip_fence (trim_space (pre @ t @ post)) = u @ t @ ?p"
    by (simp add: strip_fence_def str_contains_def trimmed split: option.split)
  moreover have "dropWhile (\<lambda>c. \<not> is_open c) (u @ t @ ?p) = t @ ?p"
    using u(2) ends by (cases t) (auto simp: list_all_iff dropWhile_append)
  moreover have "scan_json (hd t) (closer (hd t)) 0 False False 0 (t @ ?p) = Some (length t)"
    using t by (simp add: closed_json_def scan_json_append)
  ultimately show ?thesis using ends(1) by (cases t) (simp_all add: ExtractJSON_def)
qed

lemma ExtractJSON_complete_witness: "ExtractJSON (''Here: '' @ ''[1, 2]'' @ '' done'') = Some ''[1, 2]''"
proof (rule ExtractJSON_complete)
  show "closed_json ''[1, 2]''" by code_simp
  show "list_all (\<lambda>c. \<not> is_open c) ''Here: ''" by code_simp
  show "\<not> str_contains (''Here: '' @ ''[1, 2]'' @ '' done'') fence_text" by code_simp
qed


definition demo_http :: "nat http" where
  "demo_http = \<lparr>http_new_request = \<lambda>u. Inr (), http_post = \<lambda>u b w. (Inr (503, Inr ''busy''), w + 1), http_wait = \<lambda>t w. (Inr (), w),
     http_now = \<lambda>w. 0, marshal_request = \<lambda>r. Inr ''{}'', decode_response = \<lambda>s. Inl (new_error s)\<rparr>"


text \<open>
  A transport error, which carries the request URL and with it the API key, is stripped of the
  key before it is kept: the text that remains does not contain the key anywhere, for every key that
  does not overlap with the replacement text.
\<close>
theorem redact_hides_key:
  assumes "no_overlap (api_key c) ''REDACTED''"
  shows "\<not> str_contains (err_text (redact c err)) (api_key c)"
  by (rule redact_removes_key [OF assms])

lemma redact_hides_key_witness:
  "\<not> str_contains (err_text (redact (new_client ''AIzaSyB-3x'' ''m'') (new_error ''Post key=AIzaSyB-3x: EOF''))) ''AIzaSyB-3x''"
proof -
  have "no_overlap ''AIzaSyB-3x'' ''REDACTED''" by code_simp
  then show ?thesis
    using redact_hides_key [of "new_client ''AIzaSyB-3x'' ''m''" "new_error ''Post key=AIzaSyB-3x: EOF''"]
    by (simp add: new_client_def)
qed


text \<open>
  Only the errors of a transport are redacted.  A request that cannot be made, because the URL with the
  key in it does not parse, ends the call with the error of \<open>http.NewRequestWithContext\<close> as it is; that
  error quotes the URL.
\<close>
theorem Generate_leaks_key:
  assumes "api_key c \<noteq> ''''" and "marshal_request h req = Inr payload"
    and "http_new_request h (request_url c) = Inl err" and "str_contains (err_text err) (api_key c)"
  shows "\<exists>err'. fst (Generate h (Some c) req w) = Inl err' \<and> str_contains (err_text err') (api_key c)"
  using assms by (simp add: Generate_def Enabled_def before_attempt_def attempt_once_def)

lemma Generate_leaks_key_witness:
  "\<exists>err'. fst (Generate (demo_http\<lparr>http_new_request := \<lambda>u. Inl (new_error (''parse '' @ go_quote u))\<rparr>)
     (Some (new_client ''a%zz'' ''m'')) \<lparr>rq_system = '''', rq_prompt = ''p'', rq_config = no_generation_config\<rparr> 0) = Inl err' \<and>
     str_contains (err_text err') ''a%zz''"
proof -
  let ?h = "demo_http\<lparr>http_new_request := \<lambda>u. Inl (new_error (''parse '' @ go_quote u))\<rparr>"
  let ?c = "new_client ''a%zz'' ''m''" let ?e = "new_error (''parse '' @ go_quote (request_url ?c))"
  have "str_contains (err_text ?e) (api_key ?c)" by code_simp
  moreover have "api_key ?c = ''a%zz''" by (simp add: new_client_def)
  ultimately show ?thesis
    using Generate_leaks_key [of ?c ?h "\<lparr>rq_system = '''', rq_prompt = ''p'', rq_config = no_generation_config\<rparr>" "''{}''" ?e 0]
    by (simp add: demo_http_def)
qed

end
